(* ===== verification/Prelude.thy ===== *)
theory Prelude
  imports Main "HOL-Library.State_Monad" "HOL-Library.Word"
begin

text \<open>
  What the components share: the error values of the program, results as sums, the named
  collections of simplification rules, and generic facts on lists, options, maps and the
  state monad. Nothing here models a source line by itself except the error values, which
  stand for Go's \<^verbatim>\<open>error\<close> interface as the code builds it (\<^verbatim>\<open>errors.New\<close>,
  \<^verbatim>\<open>fmt.Errorf\<close> with \<^verbatim>\<open>%v\<close> or \<^verbatim>\<open>%w\<close>) and receives it from the cluster.
\<close>

section \<open>Collections of simplification rules\<close>

named_theorems go_str \<comment> \<open>string operations of the Go library\<close>
named_theorems api_simps \<comment> \<open>unfolding of the data model's projections\<close>
named_theorems run_simps \<comment> \<open>running a monadic step to its answer and next state\<close>

section \<open>Errors as values\<close>

text \<open>
  An error answer of the cluster is its status reason with its text; the code only ever asks
  whether it is \<open>NotFound\<close> or \<open>AlreadyExists\<close>.
\<close>

datatype api_error =
    NotFound string
  | AlreadyExists string
  | Conflict string
  | OtherApiError string

primrec api_error_text :: "api_error \<Rightarrow> string" where
  "api_error_text (NotFound t) = t"
| "api_error_text (AlreadyExists t) = t"
| "api_error_text (Conflict t) = t"
| "api_error_text (OtherApiError t) = t"

text \<open>
  \<open>WrapV m e\<close> is \<^verbatim>\<open>fmt.Errorf("m: %v", e)\<close>, which flattens the cause to text;
  \<open>WrapW m e\<close> is \<^verbatim>\<open>fmt.Errorf("m: %w", e)\<close>, which keeps it in the chain.
\<close>

datatype error =
    KubeErr api_error
  | Msg string
  | WrapV string error
  | WrapW string error

primrec error_text :: "error \<Rightarrow> string" where
  "error_text (KubeErr a) = api_error_text a"
| "error_text (Msg m) = m"
| "error_text (WrapV m e) = m @ '': '' @ error_text e"
| "error_text (WrapW m e) = m @ '': '' @ error_text e"

primrec IsNotFound :: "error \<Rightarrow> bool" where
  "IsNotFound (KubeErr a) = (case a of NotFound _ \<Rightarrow> True | _ \<Rightarrow> False)"
| "IsNotFound (Msg m) = False"
| "IsNotFound (WrapV m e) = False"
| "IsNotFound (WrapW m e) = IsNotFound e"

primrec IsAlreadyExists :: "error \<Rightarrow> bool" where
  "IsAlreadyExists (KubeErr a) = (case a of AlreadyExists _ \<Rightarrow> True | _ \<Rightarrow> False)"
| "IsAlreadyExists (Msg m) = False"
| "IsAlreadyExists (WrapV m e) = False"
| "IsAlreadyExists (WrapW m e) = IsAlreadyExists e"

text \<open>A nil error is \<open>None\<close>; the two filters keep every error but one kind.\<close>

definition IgnoreNotFound :: "error \<Rightarrow> error option" where
  "IgnoreNotFound e = (if IsNotFound e then None else Some e)"

definition IgnoreAlreadyExists :: "error \<Rightarrow> error option" where
  "IgnoreAlreadyExists e = (if IsAlreadyExists e then None else Some e)"

type_synonym 'a result = "error + 'a"

type_synonym ('s, 'a) io = "('s, 'a) state"

definition is_ok :: "'e + 'a \<Rightarrow> bool" where
  "is_ok r = (case r of Inl _ \<Rightarrow> False | Inr _ \<Rightarrow> True)"

section \<open>Looping with an early return\<close>

text \<open>
  \<^verbatim>\<open>for _, x := range xs { y, err := f(x); if err != nil { return nil, err }; out = append(out, y...) }\<close>
\<close>

fun concat_result :: "('a \<Rightarrow> 'e + 'b list) \<Rightarrow> 'a list \<Rightarrow> 'e + 'b list" where
  "concat_result f [] = Inr []"
| "concat_result f (x # xs) =
     (case f x of Inl e \<Rightarrow> Inl e
      | Inr ys \<Rightarrow> (case concat_result f xs of Inl e \<Rightarrow> Inl e | Inr zs \<Rightarrow> Inr (ys @ zs)))"

text \<open>
  Collecting with a \<^verbatim>\<open>seen\<close> set: each new value is appended once, in the order of its first
  occurrence.
\<close>

fun collect_new :: "'a list \<Rightarrow> 'a list \<Rightarrow> 'a list" where
  "collect_new acc [] = acc"
| "collect_new acc (x # xs) = (if x \<in> set acc then collect_new acc xs else collect_new (acc @ [x]) xs)"

section \<open>Generic facts\<close>

lemma is_ok_simps [simp]:
  "\<not> is_ok (Inl e)" "is_ok (Inr x)"
  by (simp_all add: is_ok_def)

lemma is_ok_iff: "is_ok r \<longleftrightarrow> (\<exists>x. r = Inr x)"
  by (cases r) simp_all

lemma IgnoreNotFound_Some [simp]:
  "IgnoreNotFound e = Some e' \<longleftrightarrow> \<not> IsNotFound e \<and> e' = e"
  "IgnoreNotFound e = None \<longleftrightarrow> IsNotFound e"
  by (auto simp: IgnoreNotFound_def)

lemma IgnoreAlreadyExists_Some [simp]:
  "IgnoreAlreadyExists e = Some e' \<longleftrightarrow> \<not> IsAlreadyExists e \<and> e' = e"
  "IgnoreAlreadyExists e = None \<longleftrightarrow> IsAlreadyExists e"
  by (auto simp: IgnoreAlreadyExists_def)

lemma concat_result_Inr:
  "concat_result f xs = Inr zs \<longleftrightarrow>
     (\<forall>x \<in> set xs. is_ok (f x)) \<and> zs = concat (map (\<lambda>x. projr (f x)) xs)"
proof (induction xs arbitrary: zs)
  case Nil
  then show ?case by auto
next
  case (Cons a xs)
  show ?case
  proof (cases "concat_result f xs")
    case (Inl e)
    then have "\<not> (\<forall>x \<in> set xs. is_ok (f x))"
      using Cons.IH[of "concat (map (\<lambda>x. projr (f x)) xs)"] by auto
    with Inl show ?thesis by (auto split: sum.splits)
  next
    case (Inr b)
    with Cons.IH[of b] show ?thesis by (auto split: sum.splits)
  qed
qed

lemma concat_result_Inl:
  "concat_result f xs = Inl e \<longleftrightarrow>
     (\<exists>ys x zs. xs = ys @ x # zs \<and> (\<forall>y \<in> set ys. is_ok (f y)) \<and> f x = Inl e)"
proof (induction xs)
  case Nil
  then show ?case by simp
next
  case (Cons a xs)
  show ?case
  proof (cases "f a")
    case (Inl b)
    then show ?thesis
      by (auto simp: Cons_eq_append_conv intro!: exI[of _ "[]"])
  next
    case (Inr b)
    have "concat_result f (a # xs) = Inl e \<longleftrightarrow> concat_result f xs = Inl e"
      using Inr by (simp split: sum.splits)
    moreover have "\<exists>ys' x zs. a # xs = ys' @ x # zs \<and> (\<forall>y \<in> set ys'. is_ok (f y)) \<and> f x = Inl e"
      if "xs = ys @ x # zs" "\<forall>y \<in> set ys. is_ok (f y)" "f x = Inl e" for ys x zs
      using that Inr by (intro exI[of _ "a # ys"] exI[of _ x] exI[of _ zs]) simp
    moreover have "\<exists>ys x zs. xs = ys @ x # zs \<and> (\<forall>y \<in> set ys. is_ok (f y)) \<and> f x = Inl e"
      if "a # xs = ys @ x # zs" "\<forall>y \<in> set ys. is_ok (f y)" "f x = Inl e" for ys x zs
      using that Inr by (cases ys) auto
    ultimately show ?thesis
      unfolding Cons.IH by blast
  qed
qed

text \<open>The state of a bound step is split where it is consumed, so proofs follow the code's calls.\<close>

lemma run_bind [run_simps]:
  "run_state (State_Monad.bind m f) s =
     (case run_state m s of (x, s') \<Rightarrow> run_state (f x) s')"
  by (simp split: prod.split)

lemma run_return [run_simps]: "run_state (State_Monad.return x) s = (x, s)"
  by simp

lemma run_case_sum [run_simps]:
  "run_state (case r of Inl a \<Rightarrow> f a | Inr b \<Rightarrow> g b) s =
     (case r of Inl a \<Rightarrow> run_state (f a) s | Inr b \<Rightarrow> run_state (g b) s)"
  by (cases r) simp_all

lemma run_case_option [run_simps]:
  "run_state (case r of None \<Rightarrow> f | Some b \<Rightarrow> g b) s =
     (case r of None \<Rightarrow> run_state f s | Some b \<Rightarrow> run_state (g b) s)"
  by (cases r) simp_all

lemma run_if [run_simps]:
  "run_state (if b then f else g) s = (if b then run_state f s else run_state g s)"
  by simp

lemma set_collect_new [simp]: "set (collect_new acc xs) = set acc \<union> set xs"
  by (induction xs arbitrary: acc) auto

lemma distinct_collect_new: "distinct acc \<Longrightarrow> distinct (collect_new acc xs)"
  by (induction xs arbitrary: acc) auto

lemma set_map_filter: "set (List.map_filter f xs) = {y. \<exists>x \<in> set xs. f x = Some y}"
  by (induction xs) (auto split: option.splits)

section \<open>Splitting a list at an element\<close>

lemma append_split_at:
  "xs @ ys = pre @ x # post \<Longrightarrow>
     (\<exists>us. xs = pre @ x # us) \<or> (\<exists>us. pre = xs @ us \<and> ys = us @ x # post)"
proof (induction xs arbitrary: pre)
  case (Cons a xs)
  then show ?case by (cases pre) auto
qed simp

lemma split_at_unique:
  assumes "pre @ x # post = pre' @ y # post'" "P x" "P y" "\<forall>z \<in> set pre'. \<not> P z" "\<forall>z \<in> set post'. \<not> P z"
  shows "pre = pre' \<and> x = y \<and> post = post'"
  using assms
proof (induction pre arbitrary: pre')
  case Nil
  then show ?case by (cases pre') auto
next
  case (Cons a pre)
  then show ?case by (cases pre') auto
qed

end
