(* ===== verification/Go_Strings.thy ===== *)
theory Go_Strings
  imports Prelude "HOL-Library.Sublist"
begin

text \<open>
  The operations of Go's \<^verbatim>\<open>strings\<close>, \<^verbatim>\<open>strconv\<close> and \<^verbatim>\<open>fmt\<close> packages that the program
  uses, over byte strings (a Go string is a sequence of bytes; an Isabelle \<^typ>\<open>string\<close> is a
  list of bytes too). Splitting and joining, prefix and suffix tests, cutting at a byte,
  decimal and hexadecimal printing.
\<close>

section \<open>Definitions\<close>

abbreviation byte :: "char \<Rightarrow> nat" where
  "byte c \<equiv> of_char c"

text \<open>\<^verbatim>\<open>strings.Split(s, sep)\<close> for a one-byte separator: at least one part, cut at every separator.\<close>

fun str_Split :: "char \<Rightarrow> string \<Rightarrow> string list" where
  "str_Split c [] = [[]]"
| "str_Split c (x # xs) =
     (if x = c then [] # str_Split c xs
      else (case str_Split c xs of [] \<Rightarrow> [[x]] | p # ps \<Rightarrow> (x # p) # ps))"

text \<open>\<^verbatim>\<open>strings.Join(parts, sep)\<close>\<close>

fun str_Join :: "string list \<Rightarrow> string \<Rightarrow> string" where
  "str_Join [] sep = []"
| "str_Join [p] sep = p"
| "str_Join (p # q # ps) sep = p @ sep @ str_Join (q # ps) sep"

definition str_HasPrefix :: "string \<Rightarrow> string \<Rightarrow> bool" where
  "str_HasPrefix s p \<longleftrightarrow> take (length p) s = p"

definition str_HasSuffix :: "string \<Rightarrow> string \<Rightarrow> bool" where
  "str_HasSuffix s p \<longleftrightarrow> length p \<le> length s \<and> drop (length s - length p) s = p"

fun str_Contains :: "string \<Rightarrow> string \<Rightarrow> bool" where
  "str_Contains [] p = (p = [])"
| "str_Contains (x # xs) p = (str_HasPrefix (x # xs) p \<or> str_Contains xs p)"

text \<open>\<^verbatim>\<open>strings.Cut(s, c)\<close>: the parts before and after the first \<open>c\<close>, or all of \<open>s\<close> and nothing.\<close>

fun str_Cut :: "string \<Rightarrow> char \<Rightarrow> string \<times> string" where
  "str_Cut [] c = ([], [])"
| "str_Cut (x # xs) c =
     (if x = c then ([], xs) else (case str_Cut xs c of (a, b) \<Rightarrow> (x # a, b)))"

text \<open>\<^verbatim>\<open>strings.LastIndexByte(s, c)\<close>, with \<open>None\<close> for -1.\<close>

fun str_LastIndex :: "string \<Rightarrow> char \<Rightarrow> nat option" where
  "str_LastIndex [] c = None"
| "str_LastIndex (x # xs) c =
     (case str_LastIndex xs c of Some i \<Rightarrow> Some (Suc i)
      | None \<Rightarrow> if x = c then Some 0 else None)"

text \<open>\<^verbatim>\<open>strings.Index(s, p)\<close>, with \<open>None\<close> for -1.\<close>

fun str_Index :: "string \<Rightarrow> string \<Rightarrow> nat option" where
  "str_Index [] p = (if p = [] then Some 0 else None)"
| "str_Index (x # xs) p =
     (if str_HasPrefix (x # xs) p then Some 0 else map_option Suc (str_Index xs p))"

definition lower_byte :: "char \<Rightarrow> char" where
  "lower_byte c = (if 65 \<le> byte c \<and> byte c \<le> 90 then char_of (byte c + 32) else c)"

text \<open>\<^verbatim>\<open>strings.ToLower\<close> on ASCII text, the only text it is applied to.\<close>

definition str_ToLower :: "string \<Rightarrow> string" where
  "str_ToLower s = map lower_byte s"

text \<open>Digits of a number in a base up to sixteen, most significant first.\<close>

definition digit :: "nat \<Rightarrow> char" where
  "digit d = (if d < 10 then char_of (48 + d) else char_of (87 + d))"

definition digit_val :: "char \<Rightarrow> nat" where
  "digit_val c = (if byte c < 58 then byte c - 48 else byte c - 87)"

fun digits_of :: "nat \<Rightarrow> nat \<Rightarrow> string" where
  "digits_of b n = (if n < b \<or> b < 2 then [digit n] else digits_of b (n div b) @ [digit (n mod b)])"

declare digits_of.simps [simp del]

fun nat_of_digits :: "nat \<Rightarrow> nat \<Rightarrow> string \<Rightarrow> nat" where
  "nat_of_digits b acc [] = acc"
| "nat_of_digits b acc (c # cs) = nat_of_digits b (acc * b + digit_val c) cs"

text \<open>\<^verbatim>\<open>strconv.Itoa\<close>\<close>

definition Itoa :: "int \<Rightarrow> string" where
  "Itoa i = (if i < 0 then CHR ''-'' # digits_of 10 (nat (- i)) else digits_of 10 (nat i))"

text \<open>\<^verbatim>\<open>fmt.Sprintf("%x", h)\<close> for an unsigned 64-bit \<open>h\<close>\<close>

definition Sprintf_x :: "64 word \<Rightarrow> string" where
  "Sprintf_x h = digits_of 16 (unat h)"

section \<open>Splitting and joining\<close>

lemma str_Split_not_Nil [simp]: "str_Split c s \<noteq> []"
  by (induction s) (auto split: list.splits)

lemma str_Split_Cons:
  "x \<noteq> c \<Longrightarrow> str_Split c (x # xs) = (x # hd (str_Split c xs)) # tl (str_Split c xs)"
  by (cases "str_Split c xs") simp_all

lemma str_Split_no_sep: "p \<in> set (str_Split c s) \<Longrightarrow> c \<notin> set p"
proof (induction s arbitrary: p)
  case Nil
  then show ?case by simp
next
  case (Cons x xs)
  then show ?case
    by (cases "str_Split c xs") (auto split: if_splits)
qed

lemma str_Join_Cons:
  "ps \<noteq> [] \<Longrightarrow> str_Join (p # ps) sep = p @ sep @ str_Join ps sep"
  by (cases ps) simp_all

lemma str_Join_push: "str_Join ((x # p) # ps) sep = x # str_Join (p # ps) sep"
  by (cases ps) simp_all

lemma str_Join_Split [simp, go_str]: "str_Join (str_Split c s) [c] = s"
proof (induction s)
  case Nil
  then show ?case by simp
next
  case (Cons x xs)
  then show ?case
    by (cases "str_Split c xs") (auto simp: str_Join_Cons str_Join_push split: if_splits)
qed

lemma str_Split_append_sep:
  "c \<notin> set p \<Longrightarrow> str_Split c (p @ c # s) = p # str_Split c s"
  by (induction p) auto

lemma str_Split_single: "c \<notin> set p \<Longrightarrow> str_Split c p = [p]"
  by (induction p) auto

lemma str_Split_Join:
  assumes "ps \<noteq> []" and "\<And>p. p \<in> set ps \<Longrightarrow> c \<notin> set p"
  shows "str_Split c (str_Join ps [c]) = ps"
  using assms
proof (induction ps)
  case Nil
  then show ?case by simp
next
  case (Cons p ps)
  then show ?case
    by (cases ps) (auto simp: str_Split_single str_Split_append_sep)
qed

lemma str_Split_inj: "str_Split c s = str_Split c t \<Longrightarrow> s = t"
  by (metis str_Join_Split)

section \<open>Prefixes and suffixes\<close>

lemma str_HasPrefix_iff [go_str]: "str_HasPrefix s p \<longleftrightarrow> prefix p s"
  unfolding str_HasPrefix_def by (metis append_take_drop_id prefix_def append_eq_conv_conj)

lemma str_HasSuffix_iff [go_str]: "str_HasSuffix s p \<longleftrightarrow> suffix p s"
  unfolding str_HasSuffix_def suffix_def
  by (metis append_eq_conv_conj append_take_drop_id diff_le_self length_append le_add2
      add_diff_cancel_right')

lemma str_HasSuffix_append [simp]: "str_HasSuffix (s @ p) p"
  by (simp add: str_HasSuffix_def)

section \<open>Printing numbers\<close>

lemma digit_val_digit [simp]: "d < 16 \<Longrightarrow> digit_val (digit d) = d"
  by (auto simp: digit_val_def digit_def)

lemma nat_of_digits_append:
  "nat_of_digits b acc (s @ t) = nat_of_digits b (nat_of_digits b acc s) t"
  by (induction s arbitrary: acc) simp_all

lemma nat_of_digits_of:
  assumes "2 \<le> b" "b \<le> 16"
  shows "nat_of_digits b 0 (digits_of b n) = n"
proof (induction n rule: less_induct)
  case (less n)
  show ?case
  proof (cases "n < b")
    case True
    with assms show ?thesis by (simp add: digits_of.simps[of b n])
  next
    case False
    have "n div b < n"
      using assms False by (intro div_less_dividend) auto
    then have IH: "nat_of_digits b 0 (digits_of b (n div b)) = n div b"
      by (rule less.IH)
    have "n mod b < 16"
      using assms mod_less_divisor[of b n] by linarith
    with False assms IH show ?thesis
      by (simp add: digits_of.simps[of b n] nat_of_digits_append)
  qed
qed

lemma digits_of_inj:
  "2 \<le> b \<Longrightarrow> b \<le> 16 \<Longrightarrow> digits_of b m = digits_of b n \<longleftrightarrow> m = n"
  by (metis nat_of_digits_of)

lemma Sprintf_x_inj [simp]: "Sprintf_x g = Sprintf_x h \<longleftrightarrow> g = h"
  by (simp add: Sprintf_x_def digits_of_inj word_unat_eq_iff)

lemma digits_of_not_Nil [simp]: "digits_of b n \<noteq> []"
  by (subst digits_of.simps) simp

lemma Sprintf_x_not_Nil [simp]: "Sprintf_x h \<noteq> []"
  by (simp add: Sprintf_x_def)

end
