(* ===== verification/Go_Json.thy ===== *)
theory Go_Json
  imports Go_Strings
begin

text \<open>
  The part of Go's \<^verbatim>\<open>encoding/json\<close> the program relies on when it writes: JSON values, the
  compact text of \<^verbatim>\<open>json.Marshal\<close> (HTML-safe escaping, UTF-8 coercion of strings included)
  and the \<^verbatim>\<open>omitempty\<close> rule of struct tags. A number is kept as its literal, as Go's decoder
  does. Marshalling the program's own structs is defined with the structs; it cannot fail,
  because none of them holds a channel, a function, a cycle or a float.
\<close>

section \<open>Definitions\<close>

datatype json =
    JNull
  | JBool bool
  | JNum string
  | JStr string
  | JArr "json list"
  | JObj "(string \<times> json) list"

abbreviation QUOTE :: char where "QUOTE \<equiv> char_of (34::nat)"
abbreviation BACKSLASH :: char where "BACKSLASH \<equiv> char_of (92::nat)"

subsection \<open>UTF-8\<close>

definition in_range :: "nat \<Rightarrow> nat \<Rightarrow> char \<Rightarrow> bool" where
  "in_range lo hi c \<longleftrightarrow> lo \<le> byte c \<and> byte c \<le> hi"

text \<open>
  The size of the well-formed rune at the head of a string, as \<^verbatim>\<open>utf8.DecodeRune\<close> finds it;
  \<open>None\<close> where that function answers \<^verbatim>\<open>(RuneError, 1)\<close>.
\<close>

definition second_ok :: "char \<Rightarrow> char \<Rightarrow> bool" where
  "second_ok c d =
     (if byte c = 224 then in_range 160 191 d
      else if byte c = 237 then in_range 128 159 d
      else if byte c = 240 then in_range 144 191 d
      else if byte c = 244 then in_range 128 143 d
      else in_range 128 191 d)"

definition rune_size :: "char \<Rightarrow> nat" where
  "rune_size c =
     (if byte c < 128 then 1
      else if in_range 194 223 c then 2
      else if in_range 224 239 c then 3
      else if in_range 240 244 c then 4
      else 0)"

fun rune_len :: "string \<Rightarrow> nat option" where
  "rune_len [] = None"
| "rune_len (c # cs) =
     (let n = rune_size c in
      if n = 0 then None
      else if n = 1 then Some 1
      else if length cs < n - 1 then None
      else if \<not> second_ok c (cs ! 0) then None
      else if \<not> list_all (in_range 128 191) (take (n - 2) (tl cs)) then None
      else Some n)"

subsection \<open>Compact text\<close>

definition hex_digit :: "nat \<Rightarrow> char" where
  "hex_digit d = digit (d mod 16)"

definition u00 :: "nat \<Rightarrow> string" where
  "u00 n = BACKSLASH # ''u00'' @ [hex_digit (n div 16), hex_digit n]"

definition esc_ascii :: "char \<Rightarrow> string" where
  "esc_ascii c =
     (if c = QUOTE \<or> c = BACKSLASH then [BACKSLASH, c]
      else if byte c = 8 then [BACKSLASH, CHR ''b'']
      else if byte c = 12 then [BACKSLASH, CHR ''f'']
      else if byte c = 10 then [BACKSLASH, CHR ''n'']
      else if byte c = 13 then [BACKSLASH, CHR ''r'']
      else if byte c = 9 then [BACKSLASH, CHR ''t'']
      else if byte c < 32 \<or> c = CHR ''<'' \<or> c = CHR ''>'' \<or> c = CHR ''&'' then u00 (byte c)
      else [c])"

definition is_line_sep :: "string \<Rightarrow> bool" where
  "is_line_sep s \<longleftrightarrow> map byte (take 3 s) = [226, 128, 168] \<or> map byte (take 3 s) = [226, 128, 169]"

function esc :: "string \<Rightarrow> string" where
  "esc [] = []"
| "esc (c # cs) =
     (if byte c < 128 then esc_ascii c @ esc cs
      else case rune_len (c # cs) of
          None \<Rightarrow> (BACKSLASH # ''ufffd'') @ esc cs
        | Some n \<Rightarrow>
            (if is_line_sep (c # cs)
             then BACKSLASH # ''u202'' @ [hex_digit (byte ((c # cs) ! 2))]
             else take n (c # cs)) @ esc (drop (n - 1) cs))"
  by pat_completeness auto
termination
  by (relation "measure length") auto

definition json_str :: "string \<Rightarrow> string" where
  "json_str s = QUOTE # esc s @ [QUOTE]"

fun json_text :: "json \<Rightarrow> string"
  and json_texts :: "json list \<Rightarrow> string"
  and json_members :: "(string \<times> json) list \<Rightarrow> string" where
  "json_text JNull = ''null''"
| "json_text (JBool b) = (if b then ''true'' else ''false'')"
| "json_text (JNum n) = n"
| "json_text (JStr s) = json_str s"
| "json_text (JArr vs) = CHR ''['' # json_texts vs @ '']''"
| "json_text (JObj ms) = CHR ''{'' # json_members ms @ ''}''"
| "json_texts [] = []"
| "json_texts [v] = json_text v"
| "json_texts (v # w # vs) = json_text v @ CHR '','' # json_texts (w # vs)"
| "json_members [] = []"
| "json_members [(k, v)] = json_str k @ CHR '':'' # json_text v"
| "json_members ((k, v) # m # ms) = json_str k @ CHR '':'' # json_text v @ CHR '','' # json_members (m # ms)"

text \<open>\<^verbatim>\<open>json.Marshal\<close> of a value already turned into JSON; it never fails on such a value.\<close>

definition json_Marshal :: "json \<Rightarrow> string result" where
  "json_Marshal v = Inr (json_text v)"

subsection \<open>Struct fields\<close>

definition jint :: "int \<Rightarrow> json" where
  "jint i = JNum (Itoa i)"

definition jstrs :: "string list \<Rightarrow> json" where
  "jstrs xs = JArr (map JStr xs)"

text \<open>A struct field is always written; with \<^verbatim>\<open>omitempty\<close> only when it is not empty.\<close>

definition omitempty :: "bool \<Rightarrow> string \<Rightarrow> json \<Rightarrow> (string \<times> json) list" where
  "omitempty isempty k v = (if isempty then [] else [(k, v)])"

definition omit_str :: "string \<Rightarrow> string \<Rightarrow> (string \<times> json) list" where
  "omit_str k s = omitempty (s = []) k (JStr s)"

definition omit_int :: "string \<Rightarrow> int \<Rightarrow> (string \<times> json) list" where
  "omit_int k i = omitempty (i = 0) k (jint i)"

definition omit_strs :: "string \<Rightarrow> string list \<Rightarrow> (string \<times> json) list" where
  "omit_strs k xs = omitempty (xs = []) k (jstrs xs)"

text \<open>A slice that may be nil, which is not the same as empty in JSON.\<close>

type_synonym 'a slice = "'a list option"

definition elems :: "'a slice \<Rightarrow> 'a list" where
  "elems xs = (case xs of None \<Rightarrow> [] | Some ys \<Rightarrow> ys)"

lemma elems_simps [simp]: "elems None = []" "elems (Some xs) = xs"
  by (simp_all add: elems_def)

definition json_slice :: "('a \<Rightarrow> json) \<Rightarrow> 'a slice \<Rightarrow> json" where
  "json_slice f xs = (case xs of None \<Rightarrow> JNull | Some ys \<Rightarrow> JArr (map f ys))"

lemma json_slice_elems: "elems xs \<noteq> [] \<Longrightarrow> json_slice f xs = JArr (map f (elems xs))"
  by (cases xs) (simp_all add: json_slice_def)

definition omit_ptr :: "string \<Rightarrow> ('a \<Rightarrow> json) \<Rightarrow> 'a option \<Rightarrow> (string \<times> json) list" where
  "omit_ptr k f p = (case p of None \<Rightarrow> [] | Some x \<Rightarrow> [(k, f x)])"

end
