(* ===== verification/Api_Types.thy ===== *)
theory Api_Types
  imports Go_Json
begin

text \<open>
  The data model of the operator (\<^verbatim>\<open>api/v1\<close>): the custom resources \<^verbatim>\<open>ApiEndpoints\<close> and
  \<^verbatim>\<open>Krakend\<close>, field by field, and the object metadata the code reads and writes. A pointer is
  an option; a slice is a list, and an option of a list where nil and empty may differ
  (\<^verbatim>\<open>GetOwnerReferences() == nil\<close>, and the parts of a Krakend that become chart values through JSON). A time is a count of nanoseconds. Values of foreign API
  types that the code only carries along (\<^verbatim>\<open>corev1.ResourceRequirements\<close>,
  \<^verbatim>\<open>corev1.EnvVar\<close>) are kept in their wire form, a JSON value.
\<close>

section \<open>Object metadata\<close>

record NamespacedName =
  nn_Namespace :: string
  nn_Name :: string

record OwnerReference =
  or_APIVersion :: string
  or_Kind :: string
  or_Name :: string
  or_UID :: string

record TypeMeta =
  tm_Kind :: string
  tm_APIVersion :: string

record ObjectMeta =
  om_Name :: string
  om_Namespace :: string
  om_UID :: string
  om_ResourceVersion :: string
  om_DeletionTimestamp :: "int option"
  om_Labels :: "string \<rightharpoonup> string"
  om_Annotations :: "string \<rightharpoonup> string"
  om_OwnerReferences :: "OwnerReference list option"
  om_Finalizers :: "string list"

section \<open>ApiEndpoints\<close>

record v1_Endpoint =
  ep_Path :: string
  ep_Method :: string
  ep_BackendHost :: string
  ep_BackendPath :: string
  ep_ForwardHeaders :: "string list"
  ep_QueryParams :: "string list"
  ep_TimeOut :: string

record RateLimit =
  rl_MaxRate :: int
  rl_ClientMaxRate :: int
  rl_Every :: string
  rl_Key :: string
  rl_Strategy :: string
  rl_Capacity :: int
  rl_ClientCapacity :: int

record Auth =
  au_Name :: string
  au_Cache :: bool
  au_Debug :: bool
  au_Audience :: "string list"
  au_Scope :: "string list"

record ApiEndpointsSpec =
  as_Krakend :: string
  as_AppName :: string
  as_Auth :: Auth
  as_RateLimit :: "RateLimit option"
  as_Endpoints :: "v1_Endpoint list"
  as_OpenEndpoints :: "v1_Endpoint list"

record ApiEndpointsStatus =
  es_SynchronizationTimestamp :: int
  es_SynchronizationHash :: string

record ApiEndpoints =
  ae_TypeMeta :: TypeMeta
  ae_Meta :: ObjectMeta
  ae_Spec :: ApiEndpointsSpec
  ae_Status :: ApiEndpointsStatus

record ApiEndpointsList =
  ael_Items :: "ApiEndpoints list"

section \<open>Krakend\<close>

record AuthProvider =
  ap_Name :: string
  ap_Alg :: string
  ap_JwkUrl :: string
  ap_Issuer :: string

record Path =
  pa_Path :: string
  pa_PathType :: string

record Host =
  ho_Host :: string
  ho_Paths :: "Path slice"

record Ingress =
  ig_Enabled :: bool
  ig_ClassName :: string
  ig_Annotations :: "(string \<times> string) slice"
  ig_Hosts :: "Host slice"

record Image =
  im_Registry :: string
  im_Repository :: string
  im_Tag :: string
  im_PullPolicy :: string

type_synonym ResourceRequirements = json
type_synonym EnvVar = json

record KrakendDeployment =
  kd_DeploymentType :: string
  kd_ReplicaCount :: int
  kd_Resources :: ResourceRequirements
  kd_Image :: Image
  kd_ExtraEnvVars :: "EnvVar slice"

record KrakendSpec =
  ks_Ingress :: Ingress
  ks_IngressHost :: string
  ks_AuthProviders :: "AuthProvider list"
  ks_Deployment :: KrakendDeployment

record KrakendStatus =
  kt_SynchronizationTimestamp :: int
  kt_SynchronizationHash :: string

record Krakend =
  kr_TypeMeta :: TypeMeta
  kr_Meta :: ObjectMeta
  kr_Spec :: KrakendSpec
  kr_Status :: KrakendStatus

record KrakendList =
  krl_Items :: "Krakend list"

section \<open>Methods and shared projections\<close>

definition Krakend_NamespacedName :: "Krakend \<Rightarrow> NamespacedName" where
  "Krakend_NamespacedName k =
     \<lparr>nn_Namespace = om_Namespace (kr_Meta k), nn_Name = om_Name (kr_Meta k)\<rparr>"

abbreviation ae_Name :: "ApiEndpoints \<Rightarrow> string" where "ae_Name a \<equiv> om_Name (ae_Meta a)"
abbreviation ae_Namespace :: "ApiEndpoints \<Rightarrow> string" where "ae_Namespace a \<equiv> om_Namespace (ae_Meta a)"
abbreviation ae_deleted :: "ApiEndpoints \<Rightarrow> bool" where
  "ae_deleted a \<equiv> om_DeletionTimestamp (ae_Meta a) \<noteq> None"
abbreviation kr_Name :: "Krakend \<Rightarrow> string" where "kr_Name k \<equiv> om_Name (kr_Meta k)"
abbreviation kr_Namespace :: "Krakend \<Rightarrow> string" where "kr_Namespace k \<equiv> om_Namespace (kr_Meta k)"

text \<open>Every key of an \<^verbatim>\<open>ApiEndpoints\<close> object, and the paths it claims, in the order of the spec.\<close>

definition ae_key :: "ApiEndpoints \<Rightarrow> NamespacedName" where
  "ae_key a = \<lparr>nn_Namespace = ae_Namespace a, nn_Name = ae_Name a\<rparr>"

definition ae_paths :: "ApiEndpoints \<Rightarrow> string list" where
  "ae_paths a = map ep_Path (as_Endpoints (ae_Spec a)) @ map ep_Path (as_OpenEndpoints (ae_Spec a))"

definition live :: "ApiEndpoints list \<Rightarrow> ApiEndpoints list" where
  "live xs = filter (\<lambda>a. \<not> ae_deleted a) xs"

definition live_paths :: "ApiEndpoints list \<Rightarrow> string list" where
  "live_paths xs = concat (map ae_paths (live xs))"

lemma live_simps [simp]:
  "live [] = []"
  "live (a # xs) = (if ae_deleted a then live xs else a # live xs)"
  "live (xs @ ys) = live xs @ live ys"
  by (simp_all add: live_def)

lemma live_paths_simps [simp]:
  "live_paths [] = []"
  "live_paths (a # xs) = (if ae_deleted a then [] else ae_paths a) @ live_paths xs"
  "live_paths (xs @ ys) = live_paths xs @ live_paths ys"
  by (simp_all add: live_paths_def)

lemma set_live [simp]: "set (live xs) = {a \<in> set xs. \<not> ae_deleted a}"
  by (simp add: live_def)

lemma set_live_paths: "set (live_paths xs) = (\<Union>a \<in> {a \<in> set xs. \<not> ae_deleted a}. set (ae_paths a))"
  by (simp add: live_paths_def)

end
