(* ===== verification/Netpol.thy ===== *)
theory Netpol
  imports Api_Types
begin

text \<open>
  \<^verbatim>\<open>internal/netpol/netpol.go\<close>: the two network policies the operator writes. The data types
  are the fields of \<^verbatim>\<open>networking/v1\<close> the constructors fill in; a nil selector, block, port or
  protocol is \<open>None\<close>.
\<close>

section \<open>Data\<close>

record LabelSelector =
  ls_MatchLabels :: "string \<rightharpoonup> string"

record IPBlock =
  ib_CIDR :: string
  ib_Except :: "string list"

record NetworkPolicyPeer =
  pe_PodSelector :: "LabelSelector option"
  pe_NamespaceSelector :: "LabelSelector option"
  pe_IPBlock :: "IPBlock option"

record NetworkPolicyPort =
  po_Protocol :: "string option"
  po_Port :: "int option"

record NetworkPolicyIngressRule =
  ir_Ports :: "NetworkPolicyPort list"
  ir_From :: "NetworkPolicyPeer list"

record NetworkPolicyEgressRule =
  er_Ports :: "NetworkPolicyPort list"
  er_To :: "NetworkPolicyPeer list"

datatype PolicyType = PolicyTypeIngress | PolicyTypeEgress

record NetworkPolicySpec =
  nps_PodSelector :: LabelSelector
  nps_Ingress :: "NetworkPolicyIngressRule list"
  nps_Egress :: "NetworkPolicyEgressRule list"
  nps_PolicyTypes :: "PolicyType list"

record NetworkPolicy =
  np_Meta :: ObjectMeta
  np_Spec :: NetworkPolicySpec

section \<open>Constructors\<close>

definition ManagedByLabel :: string where "ManagedByLabel = ''krakend-operator''"
definition KrakendNameLabel :: string where "KrakendNameLabel = ''krakend''"
definition DefaultCIDR :: string where "DefaultCIDR = ''0.0.0.0/0''"

text \<open>The fields of a composite literal that are not named are zero.\<close>

definition zero_ObjectMeta :: ObjectMeta where
  "zero_ObjectMeta =
     \<lparr>om_Name = [], om_Namespace = [], om_UID = [], om_ResourceVersion = [],
      om_DeletionTimestamp = None, om_Labels = Map.empty, om_Annotations = Map.empty,
      om_OwnerReferences = None, om_Finalizers = []\<rparr>"

definition zero_Peer :: NetworkPolicyPeer where
  "zero_Peer = \<lparr>pe_PodSelector = None, pe_NamespaceSelector = None, pe_IPBlock = None\<rparr>"

definition any_selector :: LabelSelector where
  "any_selector = \<lparr>ls_MatchLabels = Map.empty\<rparr>"

definition netpol_meta :: "string \<Rightarrow> string \<Rightarrow> ObjectMeta" where
  "netpol_meta name namespace = zero_ObjectMeta
     \<lparr>om_Name := name, om_Namespace := namespace,
      om_Labels := [''app.kubernetes.io/managed-by'' \<mapsto> ManagedByLabel]\<rparr>"

definition KrakendNetpol :: "string \<Rightarrow> string \<Rightarrow> (string \<rightharpoonup> string) \<Rightarrow> NetworkPolicy" where
  "KrakendNetpol name namespace labelSelector =
     \<lparr>np_Meta = netpol_meta name namespace,
      np_Spec =
        \<lparr>nps_PodSelector = \<lparr>ls_MatchLabels = labelSelector\<rparr>,
         nps_Ingress =
           [\<lparr>ir_Ports = [], ir_From = [zero_Peer\<lparr>pe_NamespaceSelector := Some any_selector\<rparr>]\<rparr>],
         nps_Egress =
           [\<lparr>er_Ports = [\<lparr>po_Protocol = Some ''TCP'', po_Port = Some 443\<rparr>],
             er_To = [zero_Peer\<lparr>pe_IPBlock := Some
               \<lparr>ib_CIDR = DefaultCIDR,
                ib_Except = [''10.6.0.0/15'', ''172.16.0.0/12'', ''192.168.0.0/16'']\<rparr>\<rparr>]\<rparr>,
            \<lparr>er_Ports = [],
             er_To = [zero_Peer\<lparr>pe_NamespaceSelector := Some any_selector,
                                pe_PodSelector := Some any_selector\<rparr>]\<rparr>],
         nps_PolicyTypes = [PolicyTypeIngress, PolicyTypeEgress]\<rparr>\<rparr>"

definition AppAllowKrakendIngressNetpol ::
  "string \<Rightarrow> string \<Rightarrow> (string \<rightharpoonup> string) \<Rightarrow> NetworkPolicy" where
  "AppAllowKrakendIngressNetpol name namespace labelSelector =
     \<lparr>np_Meta = netpol_meta name namespace,
      np_Spec =
        \<lparr>nps_PodSelector = \<lparr>ls_MatchLabels = labelSelector\<rparr>,
         nps_Ingress =
           [\<lparr>ir_Ports = [],
             ir_From = [zero_Peer
               \<lparr>pe_PodSelector := Some \<lparr>ls_MatchLabels = [''app.kubernetes.io/name'' \<mapsto> KrakendNameLabel]\<rparr>,
                pe_NamespaceSelector :=
                  Some \<lparr>ls_MatchLabels = [''kubernetes.io/metadata.name'' \<mapsto> namespace]\<rparr>\<rparr>]\<rparr>],
         nps_Egress = [],
         nps_PolicyTypes = [PolicyTypeIngress]\<rparr>\<rparr>"

end
