(* ===== verification/Sample_Resources.thy ===== *)
theory Sample_Resources
  imports Netpol
begin

text \<open>
  Concrete resources for evaluating the model, after the example of the README: a Krakend
  instance with one authentication provider, and ApiEndpoints resources of the same namespace.
\<close>

definition sample_meta :: "string \<Rightarrow> ObjectMeta" where
  "sample_meta name = zero_ObjectMeta
     \<lparr>om_Name := name, om_Namespace := ''ns1'', om_UID := ''uid-'' @ name, om_ResourceVersion := ''1''\<rparr>"

definition sample_krakend :: Krakend where
  "sample_krakend =
     \<lparr>kr_TypeMeta = \<lparr>tm_Kind = ''Krakend'', tm_APIVersion = ''krakend.nais.io/v1''\<rparr>,
      kr_Meta = sample_meta ''ns1'',
      kr_Spec =
        \<lparr>ks_Ingress = \<lparr>ig_Enabled = True, ig_ClassName = [], ig_Annotations = None, ig_Hosts = None\<rparr>,
         ks_IngressHost = ''ns1.nais.io'',
         ks_AuthProviders =
           [\<lparr>ap_Name = ''maskinporten'', ap_Alg = ''RS256'',
             ap_JwkUrl = ''https://jwk'', ap_Issuer = ''https://iss''\<rparr>],
         ks_Deployment =
           \<lparr>kd_DeploymentType = ''deployment'', kd_ReplicaCount = 2, kd_Resources = JObj [],
            kd_Image = \<lparr>im_Registry = [], im_Repository = [], im_Tag = ''2.4.3'', im_PullPolicy = []\<rparr>,
            kd_ExtraEnvVars = None\<rparr>\<rparr>,
      kr_Status = \<lparr>kt_SynchronizationTimestamp = 0, kt_SynchronizationHash = []\<rparr>\<rparr>"

definition sample_endpoint :: "string \<Rightarrow> string \<Rightarrow> v1_Endpoint" where
  "sample_endpoint path host =
     \<lparr>ep_Path = path, ep_Method = ''GET'', ep_BackendHost = host, ep_BackendPath = ''/'',
      ep_ForwardHeaders = [], ep_QueryParams = [], ep_TimeOut = ''2s''\<rparr>"

definition sample_auth :: Auth where
  "sample_auth =
     \<lparr>au_Name = ''maskinporten'', au_Cache = True, au_Debug = False,
      au_Audience = [''aud''], au_Scope = [''s1'']\<rparr>"

definition sample_api :: "string \<Rightarrow> v1_Endpoint list \<Rightarrow> v1_Endpoint list \<Rightarrow> ApiEndpoints" where
  "sample_api name secured unsecured =
     \<lparr>ae_TypeMeta = \<lparr>tm_Kind = ''ApiEndpoints'', tm_APIVersion = ''krakend.nais.io/v1''\<rparr>,
      ae_Meta = sample_meta name,
      ae_Spec =
        \<lparr>as_Krakend = [], as_AppName = name, as_Auth = sample_auth, as_RateLimit = None,
         as_Endpoints = secured, as_OpenEndpoints = unsecured\<rparr>,
      ae_Status = \<lparr>es_SynchronizationTimestamp = 0, es_SynchronizationHash = []\<rparr>\<rparr>"

definition sample_app1 :: ApiEndpoints where
  "sample_app1 = sample_api ''app1''
     [sample_endpoint ''/app1/secure'' ''http://app1''] [sample_endpoint ''/doc'' ''http://app1'']"

definition sample_app2 :: ApiEndpoints where
  "sample_app2 = sample_api ''app2'' [sample_endpoint ''/app2'' ''http://app2.ns1''] []"

lemmas sample_defs =
  sample_meta_def sample_krakend_def sample_endpoint_def sample_auth_def sample_api_def
  sample_app1_def sample_app2_def zero_ObjectMeta_def

end
