(* ===== verification/Krakend_Parser.thy ===== *)
theory Krakend_Parser
  imports Sample_Resources
begin

text \<open>
  \<^verbatim>\<open>internal/krakend/parser.go\<close>: the KrakenD endpoint configuration, its JSON encoding by
  struct tags, and the conversion of \<^verbatim>\<open>ApiEndpoints\<close> resources into it. The lemmas
  characterise the conversion on every branch: when it succeeds, what it emits and in which
  order, which error it returns; and that authentication follows the list an endpoint
  was declared in.
\<close>

section \<open>Data\<close>

record Backend =
  be_Method :: string
  be_Host :: "string list"
  be_UrlPattern :: string
  be_Encoding :: string

record AuthValidator =
  av_OperationDebug :: bool
  av_Alg :: string
  av_Cache :: bool
  av_JwkUrl :: string
  av_Issuer :: string
  av_Audience :: "string list"
  av_Scope :: "string list"
  av_ScopesKey :: string

record QosRatelimitRouter =
  qr_MaxRate :: int
  qr_ClientMaxRate :: int
  qr_Every :: string
  qr_Key :: string
  qr_Strategy :: string
  qr_Capacity :: int
  qr_ClientCapacity :: int

record ExtraConfig =
  xc_AuthValidator :: "AuthValidator option"
  xc_QosRatelimitRouter :: "QosRatelimitRouter option"

record Endpoint =
  en_Endpoint :: string
  en_Method :: string
  en_OutputEncoding :: string
  en_InputQueryStrings :: "string list"
  en_InputHeaders :: "string list"
  en_ExtraConfig :: "ExtraConfig option"
  en_Backend :: "Backend option list"
  en_Timeout :: string

definition DefaultOutputEncoding :: string where "DefaultOutputEncoding = ''no-op''"
definition DefaultScopesKey :: string where "DefaultScopesKey = ''scope''"

section \<open>Encoding by struct tags\<close>

definition json_Backend :: "Backend \<Rightarrow> json" where
  "json_Backend b = JObj
     [(''method'', JStr (be_Method b)), (''host'', jstrs (be_Host b)),
      (''url_pattern'', JStr (be_UrlPattern b)), (''encoding'', JStr (be_Encoding b))]"

definition json_AuthValidator :: "AuthValidator \<Rightarrow> json" where
  "json_AuthValidator v = JObj (
     [(''operation_debug'', JBool (av_OperationDebug v)), (''alg'', JStr (av_Alg v)),
      (''cache'', JBool (av_Cache v)), (''jwk_url'', JStr (av_JwkUrl v)),
      (''issuer'', JStr (av_Issuer v))] @
     omit_strs ''audience'' (av_Audience v) @ omit_strs ''scopes'' (av_Scope v) @
     omit_str ''scopes_key'' (av_ScopesKey v))"

definition json_QosRatelimitRouter :: "QosRatelimitRouter \<Rightarrow> json" where
  "json_QosRatelimitRouter q = JObj (
     omit_int ''max_rate'' (qr_MaxRate q) @ omit_int ''client_max_rate'' (qr_ClientMaxRate q) @
     omit_str ''every'' (qr_Every q) @ omit_str ''key'' (qr_Key q) @
     omit_str ''strategy'' (qr_Strategy q) @ omit_int ''capacity'' (qr_Capacity q) @
     omit_int ''client_capacity'' (qr_ClientCapacity q))"

definition json_ExtraConfig :: "ExtraConfig \<Rightarrow> json" where
  "json_ExtraConfig x = JObj (
     omit_ptr ''auth/validator'' json_AuthValidator (xc_AuthValidator x) @
     omit_ptr ''qos/ratelimit/router'' json_QosRatelimitRouter (xc_QosRatelimitRouter x))"

definition json_Endpoint :: "Endpoint \<Rightarrow> json" where
  "json_Endpoint e = JObj (
     [(''endpoint'', JStr (en_Endpoint e)), (''method'', JStr (en_Method e)),
      (''output_encoding'', JStr (en_OutputEncoding e))] @
     omit_strs ''input_query_strings'' (en_InputQueryStrings e) @
     omit_strs ''input_headers'' (en_InputHeaders e) @
     omit_ptr ''extra_config'' json_ExtraConfig (en_ExtraConfig e) @
     [(''backend'', JArr (map (case_option JNull json_Backend) (en_Backend e)))] @
     omit_str ''timeout'' (en_Timeout e))"

definition json_Endpoints :: "Endpoint list \<Rightarrow> json" where
  "json_Endpoints es = JArr (map json_Endpoint es)"

section \<open>Conversion\<close>

definition parseEndpoint :: "v1_Endpoint \<Rightarrow> Endpoint" where
  "parseEndpoint e =
     (let backend =
        [Some \<lparr>be_Method = ep_Method e, be_Host = [ep_BackendHost e],
          be_UrlPattern = ep_BackendPath e, be_Encoding = DefaultOutputEncoding\<rparr>]
      in \<lparr>en_Endpoint = ep_Path e, en_Method = ep_Method e,
          en_OutputEncoding = DefaultOutputEncoding,
          en_InputQueryStrings = ep_QueryParams e, en_InputHeaders = ep_ForwardHeaders e,
          en_ExtraConfig = Some \<lparr>xc_AuthValidator = None, xc_QosRatelimitRouter = None\<rparr>,
          en_Backend = backend, en_Timeout = ep_TimeOut e\<rparr>)"

definition parseRateLimit :: "RateLimit option \<Rightarrow> QosRatelimitRouter option" where
  "parseRateLimit p =
     (case p of None \<Rightarrow> None
      | Some r \<Rightarrow> Some
          \<lparr>qr_MaxRate = rl_MaxRate r, qr_ClientMaxRate = rl_ClientMaxRate r,
           qr_Every = rl_Every r, qr_Key = rl_Key r, qr_Strategy = rl_Strategy r,
           qr_Capacity = rl_Capacity r, qr_ClientCapacity = rl_ClientCapacity r\<rparr>)"

text \<open>The loop of \<^verbatim>\<open>findAuthProvider\<close>: the first provider with the name decides.\<close>

fun findAuthProvider_loop :: "AuthProvider list \<Rightarrow> Auth \<Rightarrow> AuthValidator result" where
  "findAuthProvider_loop [] auth =
     Inl (Msg (''auth provider with name '' @ [CHR 39] @ au_Name auth @ [CHR 39] @ '' not found''))"
| "findAuthProvider_loop (p # ps) auth =
     (if ap_Name p = au_Name auth
      then Inr \<lparr>av_OperationDebug = au_Debug auth, av_Alg = ap_Alg p, av_Cache = au_Cache auth,
                av_JwkUrl = ap_JwkUrl p, av_Issuer = ap_Issuer p, av_Audience = au_Audience auth,
                av_Scope = au_Scope auth, av_ScopesKey = DefaultScopesKey\<rparr>
      else findAuthProvider_loop ps auth)"

definition findAuthProvider :: "Krakend \<Rightarrow> Auth \<Rightarrow> AuthValidator result" where
  "findAuthProvider k auth = findAuthProvider_loop (ks_AuthProviders (kr_Spec k)) auth"

text \<open>The bodies of the two loops of \<^verbatim>\<open>parseKrakendEndpointsSpec\<close>.\<close>

definition with_ExtraConfig :: "(ExtraConfig \<Rightarrow> ExtraConfig) \<Rightarrow> Endpoint \<Rightarrow> Endpoint" where
  "with_ExtraConfig f e = e\<lparr>en_ExtraConfig := map_option f (en_ExtraConfig e)\<rparr>"

definition secured_endpoint :: "AuthValidator \<Rightarrow> RateLimit option \<Rightarrow> v1_Endpoint \<Rightarrow> Endpoint" where
  "secured_endpoint auth rateLimit e =
     (let endpoint = parseEndpoint e;
          endpoint = with_ExtraConfig (\<lambda>x. x\<lparr>xc_AuthValidator := Some auth\<rparr>) endpoint
      in with_ExtraConfig (\<lambda>x. x\<lparr>xc_QosRatelimitRouter := parseRateLimit rateLimit\<rparr>) endpoint)"

definition open_endpoint :: "RateLimit option \<Rightarrow> v1_Endpoint \<Rightarrow> Endpoint" where
  "open_endpoint rateLimit e =
     (let endpoint = parseEndpoint e;
          endpoint = endpoint\<lparr>en_ExtraConfig :=
                        Some \<lparr>xc_AuthValidator = None, xc_QosRatelimitRouter = None\<rparr>\<rparr>
      in with_ExtraConfig (\<lambda>x. x\<lparr>xc_QosRatelimitRouter := parseRateLimit rateLimit\<rparr>) endpoint)"

definition parseKrakendEndpointsSpec :: "Krakend \<Rightarrow> ApiEndpointsSpec \<Rightarrow> Endpoint list result" where
  "parseKrakendEndpointsSpec k spec =
     (case findAuthProvider k (as_Auth spec) of
        Inl err \<Rightarrow> Inl err
      | Inr auth \<Rightarrow>
          Inr (map (secured_endpoint auth (as_RateLimit spec)) (as_Endpoints spec) @
               map (open_endpoint (as_RateLimit spec)) (as_OpenEndpoints spec)))"

definition ToKrakendEndpoints :: "Krakend \<Rightarrow> ApiEndpoints list \<Rightarrow> Endpoint list result" where
  "ToKrakendEndpoints k list = concat_result (\<lambda>item. parseKrakendEndpointsSpec k (ae_Spec item)) list"


section \<open>Vocabulary of the specification\<close>

text \<open>
  What the conversion must produce, said without its loops: the provider an authentication
  block names is the first of that name, an endpoint's security is its validator if it has one,
  and its rate limit is its router block.
\<close>

definition provider_names :: "Krakend \<Rightarrow> string list" where
  "provider_names k = map ap_Name (ks_AuthProviders (kr_Spec k))"

definition provider_for :: "Krakend \<Rightarrow> Auth \<Rightarrow> AuthProvider option" where
  "provider_for k auth = find (\<lambda>p. ap_Name p = au_Name auth) (ks_AuthProviders (kr_Spec k))"

definition validator_of :: "AuthProvider \<Rightarrow> Auth \<Rightarrow> AuthValidator" where
  "validator_of p auth =
     \<lparr>av_OperationDebug = au_Debug auth, av_Alg = ap_Alg p, av_Cache = au_Cache auth,
      av_JwkUrl = ap_JwkUrl p, av_Issuer = ap_Issuer p, av_Audience = au_Audience auth,
      av_Scope = au_Scope auth, av_ScopesKey = DefaultScopesKey\<rparr>"

definition auth_of :: "Endpoint \<Rightarrow> AuthValidator option" where
  "auth_of e = Option.bind (en_ExtraConfig e) xc_AuthValidator"

definition limit_of :: "Endpoint \<Rightarrow> QosRatelimitRouter option" where
  "limit_of e = Option.bind (en_ExtraConfig e) xc_QosRatelimitRouter"

definition provider_missing :: "string \<Rightarrow> error" where
  "provider_missing n = Msg (''auth provider with name '' @ [CHR 39] @ n @ [CHR 39] @ '' not found'')"

lemma provider_for_None:
  "provider_for k auth = None \<longleftrightarrow> au_Name auth \<notin> set (provider_names k)"
  by (force simp: provider_for_def provider_names_def find_None_iff)

text \<open>
  The contract of a provider lookup, shared by the conversion and by the webhook's check: it
  succeeds exactly on the names the Krakend resource declares.
\<close>

locale provider_lookup =
  fixes found :: "Krakend \<Rightarrow> Auth \<Rightarrow> bool"
  assumes found_iff: "found k auth \<longleftrightarrow> au_Name auth \<in> set (provider_names k)"
begin

lemma found_cong: "au_Name auth = au_Name auth' \<Longrightarrow> found k auth = found k auth'"
  by (simp add: found_iff)

lemma found_mono:
  "set (provider_names k) \<subseteq> set (provider_names k') \<Longrightarrow> found k auth \<Longrightarrow> found k' auth"
  by (auto simp: found_iff)

lemma found_provider_for: "found k auth \<longleftrightarrow> provider_for k auth \<noteq> None"
  by (simp add: found_iff provider_for_None)

end

text \<open>Two lookups that keep the contract agree: what one admits the other resolves.\<close>

locale provider_lookups =
  l1: provider_lookup found1 + l2: provider_lookup found2
  for found1 :: "Krakend \<Rightarrow> Auth \<Rightarrow> bool" and found2 :: "Krakend \<Rightarrow> Auth \<Rightarrow> bool"
begin

lemma lookups_agree: "found1 k auth = found2 k auth"
  by (simp add: l1.found_iff l2.found_iff)

end

section \<open>Lemmas\<close>

lemma findAuthProvider_loop_find:
  "findAuthProvider_loop ps auth =
     (case find (\<lambda>p. ap_Name p = au_Name auth) ps of
        None \<Rightarrow> Inl (provider_missing (au_Name auth))
      | Some p \<Rightarrow> Inr (validator_of p auth))"
  by (induction ps) (simp_all add: provider_missing_def validator_of_def)

lemma findAuthProvider_eq:
  "findAuthProvider k auth =
     (case provider_for k auth of
        None \<Rightarrow> Inl (provider_missing (au_Name auth))
      | Some p \<Rightarrow> Inr (validator_of p auth))"
  by (simp add: findAuthProvider_def provider_for_def findAuthProvider_loop_find)

interpretation parser_auth: provider_lookup "\<lambda>k auth. is_ok (findAuthProvider k auth)"
proof unfold_locales
  fix k auth
  show "is_ok (findAuthProvider k auth) \<longleftrightarrow> au_Name auth \<in> set (provider_names k)"
    using provider_for_None[of k auth]
    by (cases "provider_for k auth") (simp_all add: findAuthProvider_eq)
qed

lemma parseEndpoint_simps [simp]:
  "en_Endpoint (parseEndpoint e) = ep_Path e"
  "en_Method (parseEndpoint e) = ep_Method e"
  "en_OutputEncoding (parseEndpoint e) = DefaultOutputEncoding"
  "en_InputQueryStrings (parseEndpoint e) = ep_QueryParams e"
  "en_InputHeaders (parseEndpoint e) = ep_ForwardHeaders e"
  "en_ExtraConfig (parseEndpoint e) = Some \<lparr>xc_AuthValidator = None, xc_QosRatelimitRouter = None\<rparr>"
  "en_Timeout (parseEndpoint e) = ep_TimeOut e"
  by (simp_all add: parseEndpoint_def Let_def)

lemma secured_endpoint_simps [simp]:
  "en_Endpoint (secured_endpoint auth rl e) = ep_Path e"
  "auth_of (secured_endpoint auth rl e) = Some auth"
  "limit_of (secured_endpoint auth rl e) = parseRateLimit rl"
  "en_Backend (secured_endpoint auth rl e) = en_Backend (parseEndpoint e)"
  by (simp_all add: secured_endpoint_def with_ExtraConfig_def auth_of_def limit_of_def Let_def)

lemma open_endpoint_simps [simp]:
  "en_Endpoint (open_endpoint rl e) = ep_Path e"
  "auth_of (open_endpoint rl e) = None"
  "limit_of (open_endpoint rl e) = parseRateLimit rl"
  "en_Backend (open_endpoint rl e) = en_Backend (parseEndpoint e)"
  by (simp_all add: open_endpoint_def with_ExtraConfig_def auth_of_def limit_of_def Let_def)

lemma parseKrakendEndpointsSpec_ok:
  "is_ok (parseKrakendEndpointsSpec k spec) \<longleftrightarrow> au_Name (as_Auth spec) \<in> set (provider_names k)"
  by (simp add: parseKrakendEndpointsSpec_def parser_auth.found_iff[symmetric] split: sum.split)

lemma parseKrakendEndpointsSpec_Inl:
  "parseKrakendEndpointsSpec k spec = Inl e \<longleftrightarrow>
     au_Name (as_Auth spec) \<notin> set (provider_names k) \<and> e = provider_missing (au_Name (as_Auth spec))"
  using parser_auth.found_iff[of k "as_Auth spec"]
  by (auto simp: parseKrakendEndpointsSpec_def findAuthProvider_eq split: sum.splits option.splits)

lemma ToKrakendEndpoints_Inr:
  "ToKrakendEndpoints k items = Inr eps \<longleftrightarrow>
     (\<forall>a \<in> set items. au_Name (as_Auth (ae_Spec a)) \<in> set (provider_names k)) \<and>
     eps = concat (map (\<lambda>a. projr (parseKrakendEndpointsSpec k (ae_Spec a))) items)"
  by (simp add: ToKrakendEndpoints_def concat_result_Inr parseKrakendEndpointsSpec_ok)

lemma conversion_offender:
  "ToKrakendEndpoints k items = Inl err \<Longrightarrow>
     \<exists>a \<in> set items. au_Name (as_Auth (ae_Spec a)) \<notin> set (provider_names k) \<and>
       err = provider_missing (au_Name (as_Auth (ae_Spec a)))"
  by (auto simp: ToKrakendEndpoints_def concat_result_Inl parseKrakendEndpointsSpec_Inl)

lemma parsed_paths:
  "is_ok (parseKrakendEndpointsSpec k (ae_Spec a)) \<Longrightarrow>
     map en_Endpoint (projr (parseKrakendEndpointsSpec k (ae_Spec a))) = ae_paths a"
  by (auto simp: parseKrakendEndpointsSpec_def ae_paths_def comp_def split: sum.splits)

text \<open>An observation of every endpoint of one resource lifts to the whole published list.\<close>

lemma ToKrakendEndpoints_map:
  assumes "ToKrakendEndpoints k items = Inr eps"
    and "\<And>a. is_ok (parseKrakendEndpointsSpec k (ae_Spec a)) \<Longrightarrow>
      map f (projr (parseKrakendEndpointsSpec k (ae_Spec a))) = g a"
  shows "map f eps = concat (map g items)"
proof -
  from assms(1) have ok: "\<forall>a \<in> set items. is_ok (parseKrakendEndpointsSpec k (ae_Spec a))"
    and eps: "eps = concat (map (\<lambda>a. projr (parseKrakendEndpointsSpec k (ae_Spec a))) items)"
    by (auto simp: ToKrakendEndpoints_Inr parseKrakendEndpointsSpec_ok)
  from ok have "map (\<lambda>a. map f (projr (parseKrakendEndpointsSpec k (ae_Spec a)))) items = map g items"
    by (intro map_cong refl assms(2)) blast
  then show ?thesis unfolding eps map_concat map_map comp_def by (rule arg_cong)
qed

lemma ToKrakendEndpoints_paths:
  assumes "ToKrakendEndpoints k items = Inr eps"
  shows "map en_Endpoint eps = concat (map ae_paths items)"
  using assms by (rule ToKrakendEndpoints_map) (rule parsed_paths)

lemma parsed_security:
  assumes "is_ok (parseKrakendEndpointsSpec k spec)"
  shows "map (\<lambda>e. (en_Endpoint e, auth_of e)) (projr (parseKrakendEndpointsSpec k spec)) =
    map (\<lambda>x. (ep_Path x, map_option (\<lambda>p. validator_of p (as_Auth spec)) (provider_for k (as_Auth spec))))
      (as_Endpoints spec) @
    map (\<lambda>x. (ep_Path x, None)) (as_OpenEndpoints spec)"
proof -
  from assms have "provider_for k (as_Auth spec) \<noteq> None"
    by (simp add: parseKrakendEndpointsSpec_ok provider_for_None)
  then show ?thesis
    by (auto simp: parseKrakendEndpointsSpec_def findAuthProvider_eq)
qed

section \<open>Properties\<close>

text \<open>
  C1. Security of the published configuration: when the conversion succeeds, the endpoints come
  out in the order of the resources, each endpoint of \<^verbatim>\<open>spec.endpoints\<close> carries the validator
  built from the first provider its resource names (and that provider exists), and each endpoint
  of \<^verbatim>\<open>spec.openEndpoints\<close> carries none.
\<close>

theorem published_security:
  assumes "ToKrakendEndpoints k items = Inr eps"
  shows "map (\<lambda>e. (en_Endpoint e, auth_of e)) eps =
      concat (map (\<lambda>a. let spec = ae_Spec a in
        map (\<lambda>x. (ep_Path x, map_option (\<lambda>p. validator_of p (as_Auth spec)) (provider_for k (as_Auth spec))))
          (as_Endpoints spec) @
        map (\<lambda>x. (ep_Path x, None)) (as_OpenEndpoints spec)) items)
    \<and> (\<forall>a \<in> set items. provider_for k (as_Auth (ae_Spec a)) \<noteq> None)"
proof
  show "\<forall>a \<in> set items. provider_for k (as_Auth (ae_Spec a)) \<noteq> None"
    using assms by (simp add: ToKrakendEndpoints_Inr provider_for_None)
qed (rule ToKrakendEndpoints_map[OF assms], simp add: Let_def parsed_security)

theorem published_security_witness:
  "\<exists>eps. ToKrakendEndpoints sample_krakend [sample_app1] = Inr eps \<and>
     map auth_of eps =
       [Some (validator_of (hd (ks_AuthProviders (kr_Spec sample_krakend))) sample_auth), None]"
proof -
  obtain eps where eps: "ToKrakendEndpoints sample_krakend [sample_app1] = Inr eps"
    by (simp add: ToKrakendEndpoints_Inr provider_names_def sample_defs)
  have "map (\<lambda>e. (en_Endpoint e, auth_of e)) eps =
      [(''/app1/secure'', Some (validator_of (hd (ks_AuthProviders (kr_Spec sample_krakend))) sample_auth)),
       (''/doc'', None)]"
    using published_security[OF eps] by (simp add: provider_for_def sample_defs)
  then have "map snd (map (\<lambda>e. (en_Endpoint e, auth_of e)) eps) =
      [Some (validator_of (hd (ks_AuthProviders (kr_Spec sample_krakend))) sample_auth), None]"
    by simp
  with eps show ?thesis by (auto simp: comp_def)
qed

text \<open>
  C2. The only way the conversion fails is a resource that names an authentication provider the
  Krakend instance does not declare, and the error returned names the provider of the first such
  resource; nothing is published for the others either.
\<close>

theorem conversion_error:
  "ToKrakendEndpoints k items = Inl err \<longleftrightarrow>
     (\<exists>ys a zs. items = ys @ a # zs \<and>
        (\<forall>y \<in> set ys. au_Name (as_Auth (ae_Spec y)) \<in> set (provider_names k)) \<and>
        au_Name (as_Auth (ae_Spec a)) \<notin> set (provider_names k) \<and>
        err = provider_missing (au_Name (as_Auth (ae_Spec a))))"
  by (simp add: ToKrakendEndpoints_def concat_result_Inl parseKrakendEndpointsSpec_ok
      parseKrakendEndpointsSpec_Inl)

theorem conversion_error_witness:
  "ToKrakendEndpoints (sample_krakend\<lparr>kr_Spec := (kr_Spec sample_krakend)\<lparr>ks_AuthProviders := []\<rparr>\<rparr>)
     [sample_app1] = Inl (provider_missing ''maskinporten'')"
proof -
  have "\<exists>ys a zs. [sample_app1] = ys @ a # zs \<and>
      (\<forall>y \<in> set ys. au_Name (as_Auth (ae_Spec y)) \<in> set (provider_names
         (sample_krakend\<lparr>kr_Spec := (kr_Spec sample_krakend)\<lparr>ks_AuthProviders := []\<rparr>\<rparr>))) \<and>
      au_Name (as_Auth (ae_Spec a)) \<notin> set (provider_names
         (sample_krakend\<lparr>kr_Spec := (kr_Spec sample_krakend)\<lparr>ks_AuthProviders := []\<rparr>\<rparr>)) \<and>
      provider_missing ''maskinporten'' = provider_missing (au_Name (as_Auth (ae_Spec a)))"
    by (intro exI[of _ "[]"] exI[of _ sample_app1]) (simp add: provider_names_def sample_defs)
  then show ?thesis by (simp only: conversion_error)
qed

text \<open>
  C3. Every published endpoint is the one declared: its path, method, timeout, query parameters and
  headers, proxied without re-encoding to exactly one backend with the declared host, path and method,
  and, whether or not it requires authentication, limited by the seven settings of the rate limit of
  its resource, unlimited when the resource has none.
\<close>

theorem published_proxying:
  assumes "ToKrakendEndpoints k items = Inr eps"
  shows "map (\<lambda>e. (en_Endpoint e, en_Method e, en_OutputEncoding e, en_Backend e, limit_of e)) eps =
      concat (map (\<lambda>a. map (\<lambda>x.
          (ep_Path x, ep_Method x, ''no-op'',
           [Some \<lparr>be_Method = ep_Method x, be_Host = [ep_BackendHost x],
             be_UrlPattern = ep_BackendPath x, be_Encoding = ''no-op''\<rparr>],
           map_option (\<lambda>r. \<lparr>qr_MaxRate = rl_MaxRate r, qr_ClientMaxRate = rl_ClientMaxRate r,
             qr_Every = rl_Every r, qr_Key = rl_Key r, qr_Strategy = rl_Strategy r,
             qr_Capacity = rl_Capacity r, qr_ClientCapacity = rl_ClientCapacity r\<rparr>) (as_RateLimit (ae_Spec a))))
        (as_Endpoints (ae_Spec a) @ as_OpenEndpoints (ae_Spec a))) items) \<and>
    map (\<lambda>e. (en_InputQueryStrings e, en_InputHeaders e, en_Timeout e)) eps =
      concat (map (\<lambda>a. map (\<lambda>x. (ep_QueryParams x, ep_ForwardHeaders x, ep_TimeOut x))
        (as_Endpoints (ae_Spec a) @ as_OpenEndpoints (ae_Spec a))) items)" (is "?proxied \<and> ?passed")
proof -
  have "parseRateLimit = map_option (\<lambda>r. \<lparr>qr_MaxRate = rl_MaxRate r, qr_ClientMaxRate = rl_ClientMaxRate r,
      qr_Every = rl_Every r, qr_Key = rl_Key r, qr_Strategy = rl_Strategy r,
      qr_Capacity = rl_Capacity r, qr_ClientCapacity = rl_ClientCapacity r\<rparr>)"
    by (rule ext) (simp add: parseRateLimit_def split: option.split)
  note defs = this parseKrakendEndpointsSpec_def secured_endpoint_def open_endpoint_def
    with_ExtraConfig_def parseEndpoint_def DefaultOutputEncoding_def limit_of_def
  have ?proxied using assms by (rule ToKrakendEndpoints_map) (auto simp: defs split: sum.splits)
  moreover have ?passed using assms by (rule ToKrakendEndpoints_map) (auto simp: defs split: sum.splits)
  ultimately show ?thesis ..
qed

theorem published_proxying_witness:
  "\<exists>eps. ToKrakendEndpoints sample_krakend [sample_app2] = Inr eps \<and>
     map (map_option be_Host) (concat (map en_Backend eps)) = [Some [''http://app2.ns1'']]"
proof -
  obtain eps where eps: "ToKrakendEndpoints sample_krakend [sample_app2] = Inr eps"
    by (simp add: ToKrakendEndpoints_Inr provider_names_def sample_defs)
  show ?thesis
    using eps published_proxying[OF eps] by (auto simp: sample_defs)
qed

end
