(* ===== verification/Kube_Client.thy ===== *)
theory Kube_Client
  imports Krakend_Parser
begin

text \<open>
  The cluster as the code sees it: the calls of controller-runtime's client that the webhook
  and the ApiEndpoints controller make, and the clock they read, as a record of state transformers over an arbitrary
  cluster state \<open>'s\<close>. The client is a parameter of every definition that uses it, so
  a theorem with no further hypothesis holds for every cluster behaviour: failures, stale reads
  and concurrent writers included, since \<open>'s\<close> may hold any environment.
\<close>

record ConfigMap =
  cm_TypeMeta :: TypeMeta
  cm_Meta :: ObjectMeta
  cm_Data :: "string \<rightharpoonup> string"

record 's Client =
  Get_ApiEndpoints :: "NamespacedName \<Rightarrow> ('s, ApiEndpoints result) io"
  Get_Krakend :: "NamespacedName \<Rightarrow> ('s, Krakend result) io"
  Get_ConfigMap :: "NamespacedName \<Rightarrow> ('s, ConfigMap result) io"
  Get_NetworkPolicy :: "NamespacedName \<Rightarrow> ('s, NetworkPolicy result) io"
  List_ApiEndpoints :: "string \<Rightarrow> ('s, ApiEndpointsList result) io"
  Create_NetworkPolicy :: "NetworkPolicy \<Rightarrow> ('s, unit result) io"
  Update_NetworkPolicy :: "NetworkPolicy \<Rightarrow> ('s, unit result) io"
  Update_ConfigMap :: "ConfigMap \<Rightarrow> ('s, unit result) io"
  Update_ApiEndpoints :: "ApiEndpoints \<Rightarrow> ('s, unit result) io"
  Status_Update_ApiEndpoints :: "ApiEndpoints \<Rightarrow> ('s, unit result) io"
  Now :: "('s, int) io"

end
