(* ===== verification/Webhook.thy ===== *)
theory Webhook
  imports Kube_Client
begin

text \<open>
  \<^verbatim>\<open>internal/webhook/apiendpoints_webhook.go\<close>: the validating admission webhook. The decoder of
  the admission request is a parameter. The lemmas give the exact condition of every answer.
\<close>

section \<open>Definitions\<close>

datatype Response =
    Allowed string
  | Denied string
  | Errored int error

definition MsgKrakendDoesNotExist :: string where
  "MsgKrakendDoesNotExist = ''the referenced Krakend does not exist''"

definition MsgPathDuplicate :: string where
  "MsgPathDuplicate = ''duplicate paths in apiendpoints resource''"

definition StatusBadRequest :: int where "StatusBadRequest = 400"

subsection \<open>Authentication providers\<close>

fun validateAuth_loop :: "AuthProvider list \<Rightarrow> Auth \<Rightarrow> bool" where
  "validateAuth_loop [] auth = False"
| "validateAuth_loop (p # ps) auth = (if ap_Name p = au_Name auth then True else validateAuth_loop ps auth)"

definition validateAuth :: "Krakend \<Rightarrow> Auth \<Rightarrow> error option" where
  "validateAuth k auth =
     (let found = validateAuth_loop (ks_AuthProviders (kr_Spec k)) auth in
      if \<not> found
      then Some (Msg (''auth provider '' @ au_Name auth @ '' not found in krakendinstance '' @ kr_Name k))
      else None)"

subsection \<open>Unique paths\<close>

definition duplicate_path_error :: "string \<Rightarrow> string \<Rightarrow> string \<Rightarrow> error" where
  "duplicate_path_error p name other =
     Msg (''duplicate path '' @ p @ '' in endpoints '' @ name @ '' and '' @ other)"

text \<open>The inner loops: \<open>paths\<close> maps each path seen so far to the resource that claims it.\<close>

fun uniquePaths_inner ::
  "string \<Rightarrow> v1_Endpoint list \<Rightarrow> (string \<rightharpoonup> string) \<Rightarrow> (string \<rightharpoonup> string) result" where
  "uniquePaths_inner name [] paths = Inr paths"
| "uniquePaths_inner name (p # ps) paths =
     (case paths (ep_Path p) of
        Some other \<Rightarrow> Inl (duplicate_path_error (ep_Path p) name other)
      | None \<Rightarrow> uniquePaths_inner name ps (paths(ep_Path p \<mapsto> name)))"

fun uniquePaths_loop :: "ApiEndpoints list \<Rightarrow> (string \<rightharpoonup> string) \<Rightarrow> (string \<rightharpoonup> string) result" where
  "uniquePaths_loop [] paths = Inr paths"
| "uniquePaths_loop (e # es) paths =
     (if om_DeletionTimestamp (ae_Meta e) = None
      then (case uniquePaths_inner (ae_Name e) (as_Endpoints (ae_Spec e)) paths of
              Inl err \<Rightarrow> Inl err
            | Inr paths' \<Rightarrow>
                (case uniquePaths_inner (ae_Name e) (as_OpenEndpoints (ae_Spec e)) paths' of
                   Inl err \<Rightarrow> Inl err
                 | Inr paths'' \<Rightarrow> uniquePaths_loop es paths''))
      else uniquePaths_loop es paths)"

definition uniquePaths :: "ApiEndpointsList \<Rightarrow> error option" where
  "uniquePaths list =
     (case uniquePaths_loop (ael_Items list) Map.empty of Inl err \<Rightarrow> Some err | Inr _ \<Rightarrow> None)"

subsection \<open>The list as it would be after the write\<close>

text \<open>
  The loop of \<^verbatim>\<open>validateEndpointsList\<close> walks down the indices; \<open>Suc i\<close> stands for the loop
  header with index \<open>i\<close>. Each item of the same name is cut out and the new object appended.
\<close>

fun validateEndpointsList_loop ::
  "nat \<Rightarrow> ApiEndpoints list \<Rightarrow> ApiEndpoints \<Rightarrow> bool \<Rightarrow> ApiEndpoints list \<times> bool" where
  "validateEndpointsList_loop 0 items e endpointUpdated = (items, endpointUpdated)"
| "validateEndpointsList_loop (Suc i) items e endpointUpdated =
     (let endpoint = items ! i in
      if ae_Name endpoint = ae_Name e
      then validateEndpointsList_loop i ((take i items @ drop (Suc i) items) @ [e]) e True
      else validateEndpointsList_loop i items e endpointUpdated)"

definition replaced_items :: "ApiEndpoints list \<Rightarrow> ApiEndpoints \<Rightarrow> ApiEndpoints list" where
  "replaced_items items e =
     (case validateEndpointsList_loop (length items) items e False of
        (items', endpointUpdated) \<Rightarrow> if \<not> endpointUpdated then items' @ [e] else items')"

definition validateEndpointsList :: "ApiEndpointsList \<Rightarrow> ApiEndpoints \<Rightarrow> error option" where
  "validateEndpointsList el e =
     (case uniquePaths (el\<lparr>ael_Items := replaced_items (ael_Items el) e\<rparr>) of
        Some err \<Rightarrow> Some (Msg MsgPathDuplicate)
      | None \<Rightarrow> None)"

subsection \<open>Validation and the handler\<close>

definition krakendName :: "ApiEndpoints \<Rightarrow> string" where
  "krakendName a =
     (if as_Krakend (ae_Spec a) = [] then ae_Namespace a else as_Krakend (ae_Spec a))"

definition validate :: "'s Client \<Rightarrow> ApiEndpoints \<Rightarrow> ('s, error option) io" where
  "validate c a = do {
     r \<leftarrow> Get_Krakend c \<lparr>nn_Namespace = ae_Namespace a, nn_Name = krakendName a\<rparr>;
     (case r of
        Inl err \<Rightarrow>
          (if IgnoreNotFound err \<noteq> None
           then State_Monad.return (Some (WrapW ''getting krakendinstance'' err))
           else State_Monad.return (Some (Msg MsgKrakendDoesNotExist)))
      | Inr k \<Rightarrow>
          (case validateAuth k (as_Auth (ae_Spec a)) of
             Some err \<Rightarrow> State_Monad.return (Some err)
           | None \<Rightarrow> do {
               l \<leftarrow> List_ApiEndpoints c (kr_Namespace k);
               (case l of
                  Inl err \<Rightarrow> State_Monad.return (Some (WrapW ''getting list of apiendpoints'' err))
                | Inr el \<Rightarrow> State_Monad.return (validateEndpointsList el a))
             }))
   }"

definition Handle ::
  "'s Client \<Rightarrow> ('req \<Rightarrow> ApiEndpoints result) \<Rightarrow> 'req \<Rightarrow> ('s, Response) io" where
  "Handle c Decode req =
     (case Decode req of
        Inl err \<Rightarrow> State_Monad.return (Errored StatusBadRequest err)
      | Inr a \<Rightarrow>
          (if om_DeletionTimestamp (ae_Meta a) \<noteq> None
           then State_Monad.return (Allowed '''')
           else do {
             r \<leftarrow> validate c a;
             (case r of
                Some err \<Rightarrow> State_Monad.return (Denied (error_text err))
              | None \<Rightarrow> State_Monad.return (Allowed ''''))
           }))"

section \<open>Lemmas\<close>

subsection \<open>Providers\<close>

interpretation webhook_auth: provider_lookup "\<lambda>k auth. validateAuth k auth = None"
proof unfold_locales
  fix k auth
  have "validateAuth_loop ps auth \<longleftrightarrow> au_Name auth \<in> set (map ap_Name ps)" for ps
    by (induction ps) auto
  then show "validateAuth k auth = None \<longleftrightarrow> au_Name auth \<in> set (provider_names k)"
    by (simp add: validateAuth_def provider_names_def Let_def)
qed

interpretation auth_checks: provider_lookups
  "\<lambda>k auth. validateAuth k auth = None" "\<lambda>k auth. is_ok (findAuthProvider k auth)"
  by unfold_locales

subsection \<open>The path check\<close>

lemma uniquePaths_inner_dom:
  "uniquePaths_inner name ps paths = Inr paths' \<Longrightarrow> dom paths' = dom paths \<union> set (map ep_Path ps)"
  by (induction ps arbitrary: paths) (auto split: option.splits)

lemma uniquePaths_inner_ok:
  "is_ok (uniquePaths_inner name ps paths) \<longleftrightarrow>
     distinct (map ep_Path ps) \<and> set (map ep_Path ps) \<inter> dom paths = {}"
proof (induction ps arbitrary: paths)
  case Nil
  then show ?case by simp
next
  case (Cons p ps)
  show ?case
  proof (cases "paths (ep_Path p)")
    case None
    then have "is_ok (uniquePaths_inner name (p # ps) paths) \<longleftrightarrow>
        is_ok (uniquePaths_inner name ps (paths(ep_Path p \<mapsto> name)))"
      by simp
    also have "\<dots> \<longleftrightarrow> distinct (map ep_Path ps) \<and>
        set (map ep_Path ps) \<inter> dom (paths(ep_Path p \<mapsto> name)) = {}"
      by (rule Cons.IH)
    finally show ?thesis
      using None by auto
  next
    case (Some other)
    then show ?thesis by (simp add: domIff)
  qed
qed

lemma uniquePaths_loop_ok:
  "is_ok (uniquePaths_loop es paths) \<longleftrightarrow>
     distinct (live_paths es) \<and> set (live_paths es) \<inter> dom paths = {}"
proof (induction es arbitrary: paths)
  case Nil
  then show ?case by simp
next
  case (Cons e es)
  let ?E = "as_Endpoints (ae_Spec e)" and ?O = "as_OpenEndpoints (ae_Spec e)"
  show ?case
  proof (cases "ae_deleted e")
    case True
    with Cons.IH[of paths] show ?thesis by auto
  next
    case live: False
    show ?thesis
    proof (cases "uniquePaths_inner (ae_Name e) ?E paths")
      case (Inl err)
      with uniquePaths_inner_ok[of "ae_Name e" ?E paths] live show ?thesis
        by (auto simp: ae_paths_def)
    next
      case E: (Inr paths')
      note E' = uniquePaths_inner_ok[of "ae_Name e" ?E paths] uniquePaths_inner_dom[OF E]
      show ?thesis
      proof (cases "uniquePaths_inner (ae_Name e) ?O paths'")
        case (Inl err)
        with E E' uniquePaths_inner_ok[of "ae_Name e" ?O paths'] live show ?thesis
          by (auto simp: ae_paths_def)
      next
        case O: (Inr paths'')
        note O' = uniquePaths_inner_ok[of "ae_Name e" ?O paths'] uniquePaths_inner_dom[OF O]
        from E O live have "is_ok (uniquePaths_loop (e # es) paths) =
            is_ok (uniquePaths_loop es paths'')" by simp
        also have "\<dots> \<longleftrightarrow> distinct (live_paths es) \<and> set (live_paths es) \<inter> dom paths'' = {}"
          by (rule Cons.IH)
        also have "dom paths'' = dom paths \<union> set (ae_paths e)"
          using E'(2) O'(2) by (auto simp: ae_paths_def)
        finally show ?thesis
          using live E O E' O' by (auto simp: ae_paths_def)
      qed
    qed
  qed
qed

lemma uniquePaths_None_iff: "uniquePaths el = None \<longleftrightarrow> distinct (live_paths (ael_Items el))"
  using uniquePaths_loop_ok[of "ael_Items el" Map.empty]
  by (cases "uniquePaths_loop (ael_Items el) Map.empty") (simp_all add: uniquePaths_def)

subsection \<open>The list after the write\<close>

abbreviation same_name :: "ApiEndpoints \<Rightarrow> ApiEndpoints \<Rightarrow> bool" where
  "same_name e a \<equiv> ae_Name a = ae_Name e"

lemma validateEndpointsList_loop_eq:
  assumes "i \<le> length items"
  shows "validateEndpointsList_loop i items e upd =
    (let k = length (filter (same_name e) (take i items)) in
     (filter (\<lambda>a. \<not> same_name e a) (take i items) @ drop i items @ replicate k e, upd \<or> 0 < k))"
  using assms
proof (induction i arbitrary: items upd)
  case 0
  then show ?case by simp
next
  case (Suc i)
  from Suc.prems have i: "i < length items" and step: "take (Suc i) items = take i items @ [items ! i]"
    by (simp_all add: take_Suc_conv_app_nth)
  show ?case
  proof (cases "same_name e (items ! i)")
    case True
    define items' where "items' = (take i items @ drop (Suc i) items) @ [e]"
    have "i \<le> length items'" and items': "take i items' = take i items" "drop i items' = drop (Suc i) items @ [e]"
      using i by (simp_all add: items'_def)
    then have "validateEndpointsList_loop i items' e True =
        (let k = length (filter (same_name e) (take i items)) in
         (filter (\<lambda>a. \<not> same_name e a) (take i items) @ (drop (Suc i) items @ [e]) @ replicate k e, True))"
      using Suc.IH[of items' True] by simp
    with True step show ?thesis
      by (simp add: Let_def items'_def)
  next
    case False
    with i step Suc.IH[of items upd] show ?thesis
      by (simp add: Let_def Cons_nth_drop_Suc)
  qed
qed

lemma replaced_items_eq:
  "replaced_items items e =
     filter (\<lambda>a. \<not> same_name e a) items @
     replicate (max 1 (length (filter (same_name e) items))) e"
  by (cases "filter (same_name e) items")
    (auto simp: replaced_items_def validateEndpointsList_loop_eq Let_def)

lemma unique_names_count:
  "distinct (map ae_Name items) \<Longrightarrow> length (filter (same_name e) items) \<le> 1"
proof (induction items)
  case (Cons a items)
  then show ?case
    by (cases "same_name e a") (auto simp: filter_empty_conv image_iff)
qed simp

lemma replaced_items_unique:
  "distinct (map ae_Name items) \<Longrightarrow>
     replaced_items items e = filter (\<lambda>a. \<not> same_name e a) items @ [e]"
  using unique_names_count[of items e] by (simp add: replaced_items_eq max_def)

lemma validateEndpointsList_eq:
  "validateEndpointsList el e =
     (if distinct (live_paths (replaced_items (ael_Items el) e)) then None
      else Some (Msg MsgPathDuplicate))"
  using uniquePaths_None_iff[of "el\<lparr>ael_Items := replaced_items (ael_Items el) e\<rparr>"]
  by (auto simp: validateEndpointsList_def split: option.splits)

subsection \<open>Running the handler\<close>

lemma validate_run:
  "run_state (validate c a) s =
     (case run_state (Get_Krakend c \<lparr>nn_Namespace = ae_Namespace a, nn_Name = krakendName a\<rparr>) s of
        (Inl err, s') \<Rightarrow>
          (Some (if IsNotFound err then Msg MsgKrakendDoesNotExist
                 else WrapW ''getting krakendinstance'' err), s')
      | (Inr k, s') \<Rightarrow>
          (case validateAuth k (as_Auth (ae_Spec a)) of
             Some err \<Rightarrow> (Some err, s')
           | None \<Rightarrow>
               (case run_state (List_ApiEndpoints c (kr_Namespace k)) s' of
                  (Inl err, s'') \<Rightarrow> (Some (WrapW ''getting list of apiendpoints'' err), s'')
                | (Inr el, s'') \<Rightarrow> (validateEndpointsList el a, s''))))"
  by (auto simp: validate_def run_simps split: prod.split sum.split option.split)

lemma Handle_run:
  "run_state (Handle c Decode req) s =
     (case Decode req of
        Inl err \<Rightarrow> (Errored StatusBadRequest err, s)
      | Inr a \<Rightarrow>
          (if ae_deleted a then (Allowed '''', s)
           else (case run_state (validate c a) s of
              (Some err, s') \<Rightarrow> (Denied (error_text err), s')
            | (None, s') \<Rightarrow> (Allowed '''', s'))))"
  by (auto simp: Handle_def run_simps split: prod.split sum.split option.split)

section \<open>Properties\<close>

text \<open>
  C4. The path check is exact: it passes precisely when no path is claimed twice by the
  resources that are not being deleted, counting secured and open endpoints alike, within one
  resource as across resources.
\<close>

theorem uniquePaths_correct:
  "uniquePaths el = None \<longleftrightarrow>
     distinct (concat (map ae_paths (filter (\<lambda>a. om_DeletionTimestamp (ae_Meta a) = None) (ael_Items el))))"
  using uniquePaths_None_iff[of el] by (simp add: live_paths_def live_def)

text \<open>
  C5. The in-place editing loop of the list validation computes the list as it will be after the
  write: where names are unique, as they are in a namespace, the stored version of the resource is
  taken out wherever it stands, the new version is appended once, and the answer is the path
  check of that list.
\<close>

theorem validateEndpointsList_correct:
  assumes "distinct (map ae_Name (ael_Items el))"
  shows "validateEndpointsList el e =
    (if distinct (live_paths (filter (\<lambda>a. ae_Name a \<noteq> ae_Name e) (ael_Items el) @ [e])) then None
     else Some (Msg MsgPathDuplicate))"
  using assms by (simp add: validateEndpointsList_eq replaced_items_unique)

theorem validateEndpointsList_correct_witness:
  "validateEndpointsList \<lparr>ael_Items = [sample_app1, sample_app2]\<rparr> sample_app1 = None"
proof -
  have "distinct (map ae_Name (ael_Items \<lparr>ael_Items = [sample_app1, sample_app2]\<rparr>))"
    by (simp add: sample_defs)
  from validateEndpointsList_correct[OF this, of sample_app1] show ?thesis
    by (simp add: sample_defs ae_paths_def)
qed

text \<open>
  C6. The admission decision, for every cluster behaviour: a request is allowed if and only if it
  decodes and either the resource is already being deleted, or the referenced Krakend is found in
  the resource's namespace, declares the named provider, the resources of the namespace are
  listed, and no path is claimed twice once the resource replaces its stored version. In
  particular every failing call refuses the request.
\<close>

theorem Handle_allows_iff:
  "fst (run_state (Handle c Decode req) s) = Allowed '''' \<longleftrightarrow>
     (\<exists>a. Decode req = Inr a \<and>
       ((\<exists>t. om_DeletionTimestamp (ae_Meta a) = Some t) \<or>
        (\<exists>k s1 el s2.
           run_state (Get_Krakend c \<lparr>nn_Namespace = ae_Namespace a, nn_Name = krakendName a\<rparr>) s = (Inr k, s1) \<and>
           au_Name (as_Auth (ae_Spec a)) \<in> set (provider_names k) \<and>
           run_state (List_ApiEndpoints c (kr_Namespace k)) s1 = (Inr el, s2) \<and>
           distinct (live_paths (replaced_items (ael_Items el) a)))))"
  by (auto simp: Handle_run validate_run validateEndpointsList_eq webhook_auth.found_iff[symmetric]
      split: sum.splits prod.splits option.splits if_splits)

text \<open>
  C7. Every refusal says why: a request that does not decode is answered with status 400; of the
  resources not being deleted, one whose Krakend does not exist, whose provider is not declared or
  whose paths collide is denied with the message of that check, and a failing read is denied with
  the error of the read.
\<close>

theorem Handle_refusals:
  "run_state (Handle c Decode req) s =
     (case Decode req of
        Inl err \<Rightarrow> (Errored 400 err, s)
      | Inr a \<Rightarrow>
          if om_DeletionTimestamp (ae_Meta a) \<noteq> None then (Allowed '''', s)
          else (case run_state (Get_Krakend c \<lparr>nn_Namespace = ae_Namespace a, nn_Name = krakendName a\<rparr>) s of
              (Inl err, s1) \<Rightarrow>
                (Denied (if IsNotFound err then ''the referenced Krakend does not exist''
                         else ''getting krakendinstance: '' @ error_text err), s1)
            | (Inr k, s1) \<Rightarrow>
                if au_Name (as_Auth (ae_Spec a)) \<notin> set (provider_names k)
                then (Denied (''auth provider '' @ au_Name (as_Auth (ae_Spec a)) @
                              '' not found in krakendinstance '' @ kr_Name k), s1)
                else (case run_state (List_ApiEndpoints c (kr_Namespace k)) s1 of
                    (Inl err, s2) \<Rightarrow> (Denied (''getting list of apiendpoints: '' @ error_text err), s2)
                  | (Inr el, s2) \<Rightarrow>
                      (if distinct (live_paths (replaced_items (ael_Items el) a)) then Allowed ''''
                       else Denied ''duplicate paths in apiendpoints resource'', s2))))"
proof -
  have auth: "validateAuth k auth =
      (if au_Name auth \<in> set (provider_names k) then None
       else Some (Msg (''auth provider '' @ au_Name auth @ '' not found in krakendinstance '' @ kr_Name k)))"
    for k auth
    using webhook_auth.found_iff[of k auth] by (auto simp: validateAuth_def Let_def)
  show ?thesis
    by (simp add: Handle_run validate_run auth validateEndpointsList_eq StatusBadRequest_def
        MsgKrakendDoesNotExist_def MsgPathDuplicate_def split: sum.split prod.split)
qed

end
