(* ===== verification/Admission.thy ===== *)
theory Admission
  imports Webhook "HOL-Library.Multiset"
begin

text \<open>
  The webhook and the conversion together: how a namespace evolves when every write of an
  ApiEndpoints resource goes through the webhook. A state is the Krakend instances of the namespace
  by name, its resources in list order, and the providers that were taken from an instance so far;
  the steps are the writes the API server performs, on the resources and on the instances. The
  invariant of the reachable states is what the controller needs to publish a configuration.
\<close>

section \<open>Definitions\<close>

record namespace =
  ns_name :: string
  ns_krakends :: "string \<rightharpoonup> Krakend"
  ns_items :: "ApiEndpoints list"
  ns_dropped :: "(string \<times> string) list"

text \<open>The client whose reads see one state of the namespace; it is never written through.\<close>

definition snapshot :: "namespace \<Rightarrow> unit Client" where
  "snapshot n =
     \<lparr>Get_ApiEndpoints = (\<lambda>nn. State_Monad.return
        (case find (\<lambda>a. ae_key a = nn) (ns_items n) of Some a \<Rightarrow> Inr a | None \<Rightarrow> Inl (KubeErr (NotFound [])))),
      Get_Krakend = (\<lambda>nn. State_Monad.return
        (case if nn_Namespace nn = ns_name n then ns_krakends n (nn_Name nn) else None of
           Some k \<Rightarrow> Inr k | None \<Rightarrow> Inl (KubeErr (NotFound [])))),
      Get_ConfigMap = (\<lambda>nn. State_Monad.return (Inl (KubeErr (NotFound [])))),
      Get_NetworkPolicy = (\<lambda>nn. State_Monad.return (Inl (KubeErr (NotFound [])))),
      List_ApiEndpoints = (\<lambda>ns. State_Monad.return
        (Inr \<lparr>ael_Items = (if ns = ns_name n then ns_items n else [])\<rparr>)),
      Create_NetworkPolicy = (\<lambda>_. State_Monad.return (Inl (KubeErr (OtherApiError [])))),
      Update_NetworkPolicy = (\<lambda>_. State_Monad.return (Inl (KubeErr (OtherApiError [])))),
      Update_ConfigMap = (\<lambda>_. State_Monad.return (Inl (KubeErr (OtherApiError [])))),
      Update_ApiEndpoints = (\<lambda>_. State_Monad.return (Inl (KubeErr (OtherApiError [])))),
      Status_Update_ApiEndpoints = (\<lambda>_. State_Monad.return (Inl (KubeErr (OtherApiError [])))),
      Now = State_Monad.return 0\<rparr>"

definition admits :: "namespace \<Rightarrow> ApiEndpoints \<Rightarrow> bool" where
  "admits n a \<longleftrightarrow> fst (run_state (Handle (snapshot n) Inr a) ()) = Allowed ''''"

text \<open>Storing a resource: in place of its stored version, or as a new last item.\<close>

fun put :: "ApiEndpoints list \<Rightarrow> ApiEndpoints \<Rightarrow> ApiEndpoints list" where
  "put [] a = [a]"
| "put (b # bs) a = (if ae_Name b = ae_Name a then a # bs else b # put bs a)"

definition mark_deleted :: "int \<Rightarrow> ApiEndpoints \<Rightarrow> ApiEndpoints" where
  "mark_deleted t a = a\<lparr>ae_Meta := (ae_Meta a)\<lparr>om_DeletionTimestamp := Some t\<rparr>\<rparr>"

definition provider_of :: "ApiEndpoints \<Rightarrow> string" where
  "provider_of a = au_Name (as_Auth (ae_Spec a))"

definition providers_at :: "Krakend option \<Rightarrow> string list" where
  "providers_at ko = (case ko of Some k \<Rightarrow> provider_names k | None \<Rightarrow> [])"

text \<open>Writing or removing the instance of a name; the providers it loses are remembered.\<close>

definition set_krakend :: "namespace \<Rightarrow> string \<Rightarrow> Krakend option \<Rightarrow> namespace" where
  "set_krakend n kn ko =
     n\<lparr>ns_krakends := (ns_krakends n)(kn := ko),
       ns_dropped := ns_dropped n @
         map (Pair kn) (filter (\<lambda>p. p \<notin> set (providers_at ko)) (providers_at (ns_krakends n kn)))\<rparr>"

definition store :: "namespace \<Rightarrow> ApiEndpoints \<Rightarrow> namespace" where
  "store n a = n\<lparr>ns_items := put (ns_items n) a\<rparr>"

inductive ns_step :: "namespace \<Rightarrow> namespace \<Rightarrow> bool" where
  apply_step: "admits n a \<Longrightarrow> ae_Namespace a = ns_name n \<Longrightarrow> ns_step n (store n a)"
| status_step: "b \<in> set (ns_items n) \<Longrightarrow> ae_Meta a = ae_Meta b \<Longrightarrow> ae_Spec a = ae_Spec b \<Longrightarrow> ns_step n (store n a)"
| delete_step: "a \<in> set (ns_items n) \<Longrightarrow> ns_step n (store n (mark_deleted t a))"
| remove_step: "ns_step n (n\<lparr>ns_items := filter (\<lambda>a. ae_Name a \<noteq> name) (ns_items n)\<rparr>)"
| krakend_step: "kr_Namespace k = ns_name n \<Longrightarrow> ns_step n (set_krakend n (kr_Name k) (Some k))"
| krakend_gone: "ns_step n (set_krakend n kn None)"

inductive ns_reachable :: "namespace \<Rightarrow> bool" where
  start: "ns_reachable \<lparr>ns_name = ns, ns_krakends = Map.empty, ns_items = [], ns_dropped = []\<rparr>"
| step: "ns_reachable n \<Longrightarrow> ns_step n n' \<Longrightarrow> ns_reachable n'"

definition krakends_ok :: "namespace \<Rightarrow> bool" where
  "krakends_ok n \<longleftrightarrow> (\<forall>kn k. ns_krakends n kn = Some k \<longrightarrow> kr_Name k = kn \<and> kr_Namespace k = ns_name n)"

text \<open>Every provider in use was declared by the named instance, and is unless it was taken from it.\<close>

definition providers_ok :: "namespace \<Rightarrow> bool" where
  "providers_ok n \<longleftrightarrow> (\<forall>a \<in> set (live (ns_items n)).
     provider_of a \<in> set (providers_at (ns_krakends n (krakendName a))) \<or>
     (krakendName a, provider_of a) \<in> set (ns_dropped n))"

definition ns_inv :: "namespace \<Rightarrow> bool" where
  "ns_inv n \<longleftrightarrow> krakends_ok n \<and> distinct (map ae_Name (ns_items n)) \<and> distinct (live_paths (ns_items n)) \<and> providers_ok n"

section \<open>Lemmas\<close>

lemma admits_iff:
  assumes "krakends_ok n" "ae_Namespace a = ns_name n"
  shows "admits n a \<longleftrightarrow> ae_deleted a \<or>
    (provider_of a \<in> set (providers_at (ns_krakends n (krakendName a))) \<and>
     distinct (live_paths (replaced_items (ns_items n) a)))"
  using assms
  by (auto simp: admits_def snapshot_def Handle_run validate_run krakends_ok_def provider_of_def providers_at_def
      validateEndpointsList_eq webhook_auth.found_iff[symmetric] split: option.splits)

lemma snapshot_lists:
  "run_state (List_ApiEndpoints (snapshot n) ns) s = (Inr \<lparr>ael_Items = (if ns = ns_name n then ns_items n else [])\<rparr>, s)"
  by (simp add: snapshot_def run_simps)

lemma set_put: "set (put items a) \<subseteq> insert a (set items)"
  by (induction items) auto

lemma set_put_unique:
  "distinct (map ae_Name items) \<Longrightarrow> set (put items a) = insert a {b \<in> set items. ae_Name b \<noteq> ae_Name a}"
proof (induction items)
  case Nil
  then show ?case by simp
next
  case (Cons b bs)
  then show ?case by (auto simp: image_iff)
qed

lemma names_put:
  "map ae_Name (put items a) =
     (if ae_Name a \<in> ae_Name ` set items then map ae_Name items else map ae_Name items @ [ae_Name a])"
  by (induction items) auto

lemma distinct_names_put: "distinct (map ae_Name items) \<Longrightarrow> distinct (map ae_Name (put items a))"
  by (auto simp: names_put)

lemma mset_put:
  "distinct (map ae_Name items) \<Longrightarrow>
     mset (put items a) = mset (filter (\<lambda>b. ae_Name b \<noteq> ae_Name a) items @ [a])"
proof (induction items)
  case Nil
  then show ?case by simp
next
  case (Cons b bs)
  show ?case
  proof (cases "ae_Name b = ae_Name a")
    case True
    with Cons.prems have "filter (\<lambda>c. ae_Name c \<noteq> ae_Name a) bs = bs"
      by (auto simp: filter_id_conv image_iff)
    with True show ?thesis by simp
  next
    case False
    with Cons show ?thesis by simp
  qed
qed

lemma mset_live_paths_cong:
  assumes "mset xs = mset ys"
  shows "mset (live_paths xs) = mset (live_paths ys)"
proof -
  have "mset (live_paths zs) = (\<Sum>a \<in># filter_mset (\<lambda>a. \<not> ae_deleted a) (mset zs). mset (ae_paths a))" for zs
    by (simp add: live_paths_def live_def mset_concat sum_mset_sum_list[symmetric] comp_def)
  with assms show ?thesis by simp
qed

lemma distinct_live_paths_cong: "mset xs = mset ys \<Longrightarrow> distinct (live_paths xs) = distinct (live_paths ys)"
  by (rule mset_eq_imp_distinct_iff) (rule mset_live_paths_cong)

lemma distinct_live_paths_filter: "distinct (live_paths xs) \<Longrightarrow> distinct (live_paths (filter P xs))"
  by (induction xs) (auto simp: set_live_paths)

lemma live_paths_put:
  "distinct (map ae_Name items) \<Longrightarrow>
     distinct (live_paths (put items a)) =
     distinct (live_paths (filter (\<lambda>b. ae_Name b \<noteq> ae_Name a) items @ [a]))"
  by (intro distinct_live_paths_cong mset_put)

lemma live_paths_put_same:
  "ae_Meta a = ae_Meta b \<Longrightarrow> ae_Spec a = ae_Spec b \<Longrightarrow> live_paths (put items a) = live_paths (put items b)"
  by (induction items) (auto simp: ae_paths_def)

lemma mset_put_member:
  "distinct (map ae_Name items) \<Longrightarrow> b \<in> set items \<Longrightarrow> mset (put items b) = mset items"
  by (induction items) (auto simp: image_iff)

lemma store_simps [simp]:
  "ns_name (store n a) = ns_name n" "ns_krakends (store n a) = ns_krakends n"
  "ns_items (store n a) = put (ns_items n) a" "ns_dropped (store n a) = ns_dropped n"
  by (simp_all add: store_def)

lemma set_krakend_simps [simp]:
  "ns_name (set_krakend n kn ko) = ns_name n" "ns_items (set_krakend n kn ko) = ns_items n"
  "ns_krakends (set_krakend n kn ko) = (ns_krakends n)(kn := ko)"
  by (simp_all add: set_krakend_def)

lemma ns_step_krakends: "ns_step n n' \<Longrightarrow> krakends_ok n \<Longrightarrow> krakends_ok n'"
  by (induction rule: ns_step.induct) (auto simp: krakends_ok_def)

lemma ns_step_names: "ns_step n n' \<Longrightarrow> distinct (map ae_Name (ns_items n)) \<Longrightarrow> distinct (map ae_Name (ns_items n'))"
  by (induction rule: ns_step.induct) (auto simp: distinct_names_put distinct_map_filter)

lemma apply_paths:
  assumes "distinct (map ae_Name items)" "distinct (live_paths items)"
    and "ae_deleted a \<or> distinct (live_paths (replaced_items items a))"
  shows "distinct (live_paths (put items a))"
  using assms
  by (auto simp: live_paths_put replaced_items_unique distinct_live_paths_filter)

lemma ns_step_paths:
  assumes "ns_step n n'" "krakends_ok n" "distinct (map ae_Name (ns_items n))" "distinct (live_paths (ns_items n))"
  shows "distinct (live_paths (ns_items n'))"
  using assms
proof (induction rule: ns_step.induct)
  case (apply_step n a)
  then show ?case by (auto simp: admits_iff intro: apply_paths)
next
  case (status_step b n a)
  then have "distinct (live_paths (put (ns_items n) b))"
    by (simp add: distinct_live_paths_cong[OF mset_put_member])
  with status_step.hyps show ?case by (simp add: live_paths_put_same[of a b])
next
  case (delete_step a n t)
  then show ?case by (auto simp: mark_deleted_def intro: apply_paths)
qed (simp_all add: distinct_live_paths_filter)

lemma same_use:
  "ae_Meta a = ae_Meta b \<Longrightarrow> ae_Spec a = ae_Spec b \<Longrightarrow>
     krakendName a = krakendName b \<and> provider_of a = provider_of b \<and> ae_deleted a = ae_deleted b"
  by (simp add: krakendName_def provider_of_def)

lemma providers_ok_store:
  assumes "providers_ok n"
    and "ae_deleted a \<or> provider_of a \<in> set (providers_at (ns_krakends n (krakendName a))) \<or>
      (krakendName a, provider_of a) \<in> set (ns_dropped n)"
  shows "providers_ok (store n a)"
  unfolding providers_ok_def
proof (intro ballI)
  fix b assume "b \<in> set (live (ns_items (store n a)))"
  then have "b = a \<and> \<not> ae_deleted a \<or> b \<in> set (live (ns_items n))" using set_put[of "ns_items n" a] by auto
  with assms show "provider_of b \<in> set (providers_at (ns_krakends (store n a) (krakendName b))) \<or>
      (krakendName b, provider_of b) \<in> set (ns_dropped (store n a))"
    unfolding providers_ok_def by auto
qed

lemma ns_step_providers:
  assumes "ns_step n n'" "krakends_ok n" "providers_ok n"
  shows "providers_ok n'"
  using assms
proof (induction rule: ns_step.induct)
  case (apply_step n a)
  then show ?case by (auto simp: admits_iff intro: providers_ok_store)
next
  case (status_step b n a)
  then have "ae_deleted b \<or> provider_of b \<in> set (providers_at (ns_krakends n (krakendName b))) \<or>
      (krakendName b, provider_of b) \<in> set (ns_dropped n)"
    by (auto simp: providers_ok_def)
  with status_step.prems same_use[OF status_step.hyps(2,3)] show ?case by (intro providers_ok_store) auto
next
  case (delete_step a n t)
  then show ?case by (auto simp: mark_deleted_def intro: providers_ok_store)
next
  case (remove_step n name)
  then show ?case by (auto simp: providers_ok_def)
next
  case (krakend_step k n)
  then show ?case by (auto simp: providers_ok_def set_krakend_def)
next
  case (krakend_gone n kn)
  then show ?case by (auto simp: providers_ok_def set_krakend_def)
qed

lemma ns_reachable_inv: "ns_reachable n \<Longrightarrow> ns_inv n"
proof (induction rule: ns_reachable.induct)
  case (start ns)
  show ?case by (simp add: ns_inv_def krakends_ok_def providers_ok_def)
next
  case (step n n')
  then show ?case
    unfolding ns_inv_def using ns_step_krakends ns_step_names ns_step_paths ns_step_providers by blast
qed

lemma converts_distinct:
  assumes "ToKrakendEndpoints k (live items) = Inr eps"
  shows "distinct (map en_Endpoint eps) \<longleftrightarrow> distinct (live_paths items)"
  using ToKrakendEndpoints_paths[OF assms] by (simp add: live_paths_def)

lemma put_member: "a \<in> set (put items a)"
  by (induction items) auto

lemma stored_offender:
  assumes "ToKrakendEndpoints k (live items) = Inr eps" "provider_of a \<notin> set (provider_names k)" "\<not> ae_deleted a"
  shows "ToKrakendEndpoints k (live (put items a)) = Inl (provider_missing (provider_of a))"
proof -
  have "a \<in> set (live (put items a))" using assms(3) put_member by simp
  then have no: "ToKrakendEndpoints k (live (put items a)) \<noteq> Inr eps'" for eps'
    using assms(2) by (auto simp: ToKrakendEndpoints_Inr provider_of_def)
  then obtain err where err: "ToKrakendEndpoints k (live (put items a)) = Inl err"
    by (cases "ToKrakendEndpoints k (live (put items a))") auto
  from conversion_offender[OF this] obtain b where b: "b \<in> set (live (put items a))"
    "provider_of b \<notin> set (provider_names k)" "err = provider_missing (provider_of b)"
    by (auto simp: provider_of_def)
  with assms(1) set_put[of items a] have "b = a" by (auto simp: ToKrakendEndpoints_Inr provider_of_def)
  with b(3) err show ?thesis by simp
qed

lemma put_put_members:
  assumes "distinct (map ae_Name items)" "ae_Name a \<noteq> ae_Name b"
  shows "mset (put (put items a) b) = mset (filter (\<lambda>c. ae_Name c \<notin> {ae_Name a, ae_Name b}) items @ [a, b])"
proof -
  have "mset (put (put items a) b) = filter_mset (\<lambda>c. ae_Name c \<noteq> ae_Name b) (mset (put items a)) + {#b#}"
    by (simp add: mset_put[OF distinct_names_put[OF assms(1)]])
  also have "\<dots> = mset (filter (\<lambda>c. ae_Name c \<notin> {ae_Name a, ae_Name b}) items @ [a, b])"
    using assms(2) by (simp add: mset_put[OF assms(1)] filter_filter_mset[symmetric] conj_commute)
  finally show ?thesis .
qed

lemma admitted_paths:
  assumes "ns_inv n" "admits n a" "ae_Namespace a = ns_name n" "\<not> ae_deleted a"
  shows "distinct (live_paths (filter (\<lambda>c. ae_Name c \<noteq> ae_Name a) (ns_items n) @ [a]))"
    "provider_of a \<in> set (providers_at (ns_krakends n (krakendName a)))"
  using assms by (auto simp: ns_inv_def admits_iff replaced_items_unique)

lemma race_paths:
  assumes "ns_inv n" "ae_Name a \<noteq> ae_Name b"
    and a: "admits n a" "ae_Namespace a = ns_name n" "\<not> ae_deleted a"
    and b: "admits n b" "ae_Namespace b = ns_name n" "\<not> ae_deleted b"
  shows "distinct (live_paths (ns_items (store (store n a) b))) \<longleftrightarrow> set (ae_paths a) \<inter> set (ae_paths b) = {}"
proof -
  let ?rest = "filter (\<lambda>c. ae_Name c \<notin> {ae_Name a, ae_Name b}) (ns_items n)"
  have rest: "?rest = filter (\<lambda>c. ae_Name c \<noteq> ae_Name b) (filter (\<lambda>c. ae_Name c \<noteq> ae_Name a) (ns_items n))"
    "?rest = filter (\<lambda>c. ae_Name c \<noteq> ae_Name a) (filter (\<lambda>c. ae_Name c \<noteq> ae_Name b) (ns_items n))"
    by (auto intro!: filter_cong)
  have "distinct (live_paths (ns_items (store (store n a) b))) = distinct (live_paths (?rest @ [a, b]))"
    using assms(1,2) by (intro distinct_live_paths_cong) (simp add: ns_inv_def put_put_members)
  moreover have "distinct (live_paths (?rest @ [a]))" "distinct (live_paths (?rest @ [b]))"
    using distinct_live_paths_filter[OF admitted_paths(1)[OF assms(1) a], of "\<lambda>c. ae_Name c \<noteq> ae_Name b"]
      distinct_live_paths_filter[OF admitted_paths(1)[OF assms(1) b], of "\<lambda>c. ae_Name c \<noteq> ae_Name a"]
      assms(2) rest by simp_all
  ultimately show ?thesis using a(3) b(3) by auto
qed

section \<open>A namespace with two instances\<close>

definition other_krakend :: Krakend where
  "other_krakend = sample_krakend
     \<lparr>kr_Meta := sample_meta ''k2'',
      kr_Spec := (kr_Spec sample_krakend)\<lparr>ks_AuthProviders :=
        [\<lparr>ap_Name = ''idporten'', ap_Alg = ''RS256'', ap_JwkUrl = ''https://jwk2'', ap_Issuer = ''https://iss2''\<rparr>]\<rparr>\<rparr>"

definition two_krakends :: namespace where
  "two_krakends = set_krakend (set_krakend
     \<lparr>ns_name = ''ns1'', ns_krakends = Map.empty, ns_items = [], ns_dropped = []\<rparr>
     ''ns1'' (Some sample_krakend)) ''k2'' (Some other_krakend)"

definition two_instances :: namespace where
  "two_instances = store two_krakends sample_app1"

lemma other_krakend_facts:
  "kr_Name other_krakend = ''k2''" "kr_Namespace other_krakend = ''ns1''" "provider_names other_krakend = [''idporten'']"
  by (simp_all add: other_krakend_def sample_defs provider_names_def)

lemma two_krakends_facts:
  "ns_krakends two_krakends ''ns1'' = Some sample_krakend" "ns_krakends two_krakends ''k2'' = Some other_krakend"
  "ns_items two_krakends = []" "ns_name two_krakends = ''ns1''"
  by (simp_all add: two_krakends_def)

lemma two_krakends_reachable: "ns_reachable two_krakends"
proof -
  let ?n0 = "\<lparr>ns_name = ''ns1'', ns_krakends = Map.empty, ns_items = [], ns_dropped = []\<rparr>"
  have "ns_step ?n0 (set_krakend ?n0 ''ns1'' (Some sample_krakend))"
    using ns_step.krakend_step[of sample_krakend ?n0] by (simp add: sample_defs)
  moreover have "ns_step (set_krakend ?n0 ''ns1'' (Some sample_krakend)) two_krakends"
    using ns_step.krakend_step[of other_krakend "set_krakend ?n0 ''ns1'' (Some sample_krakend)"]
    by (simp add: other_krakend_facts two_krakends_def)
  ultimately show ?thesis using ns_reachable.step[OF ns_reachable.step[OF ns_reachable.start]] by blast
qed

lemma two_instances_facts:
  "ns_krakends two_instances ''ns1'' = Some sample_krakend" "ns_krakends two_instances ''k2'' = Some other_krakend"
  "ns_items two_instances = [sample_app1]" "ns_name two_instances = ''ns1''"
  by (simp_all add: two_instances_def two_krakends_facts)

lemma two_instances_reachable: "ns_reachable two_instances"
proof -
  have "krakends_ok two_krakends" using ns_reachable_inv[OF two_krakends_reachable] by (simp add: ns_inv_def)
  then have "admits two_krakends sample_app1"
    by (subst admits_iff) (simp_all add: two_krakends_facts krakendName_def provider_of_def providers_at_def
        provider_names_def replaced_items_eq ae_paths_def sample_defs)
  then have "ns_step two_krakends two_instances"
    unfolding two_instances_def by (rule ns_step.apply_step) (simp add: two_krakends_facts sample_defs)
  with two_krakends_reachable show ?thesis by (rule ns_reachable.step)
qed

text \<open>A resource of the second instance.\<close>

definition idporten_resource :: ApiEndpoints where
  "idporten_resource = (let a = sample_api ''app3'' [sample_endpoint ''/app3'' ''http://app3''] [] in
     a\<lparr>ae_Spec := (ae_Spec a)\<lparr>as_Krakend := ''k2'', as_Auth := sample_auth\<lparr>au_Name := ''idporten''\<rparr>\<rparr>\<rparr>)"

lemma idporten_facts:
  "krakendName idporten_resource = ''k2''" "provider_of idporten_resource = ''idporten''"
  "ae_Namespace idporten_resource = ''ns1''" "om_DeletionTimestamp (ae_Meta idporten_resource) = None"
  "ae_Name idporten_resource = ''app3''" "ae_paths idporten_resource = [''/app3'']"
  "''idporten'' \<notin> set (provider_names sample_krakend)" "kr_Namespace sample_krakend = ''ns1''"
  "ae_Name sample_app1 = ''app1''" "om_DeletionTimestamp (ae_Meta sample_app1) = None"
  "ae_paths sample_app1 = [''/app1/secure'', ''/doc'']"
  by (simp_all add: idporten_resource_def krakendName_def provider_of_def ae_paths_def provider_names_def live_paths_def
      live_def sample_defs)

section \<open>Properties\<close>

text \<open>
  C8. Admission keeps the namespace publishable. Take any state reachable by writes: resources that
  pass the webhook one at a time, for whichever Krakend of the namespace, status updates, deletions,
  removals, and any creation, change or removal of Krakends. No two live resources claim a path, and
  for every Krakend of the namespace the conversion of the live resources publishes exactly the
  claimed paths, each once, or fails for a provider the Krakend lacks; and then the resource that
  asks for the provider names another instance, or the provider was taken from this one.
\<close>

theorem reachable_publishable:
  assumes "ns_reachable n" "ns_krakends n kn = Some k"
  shows "distinct (live_paths (ns_items n)) \<and>
    (case ToKrakendEndpoints k (live (ns_items n)) of
       Inr eps \<Rightarrow> map en_Endpoint eps = live_paths (ns_items n) \<and> distinct (map en_Endpoint eps)
     | Inl err \<Rightarrow> \<exists>a \<in> set (live (ns_items n)).
         err = provider_missing (provider_of a) \<and> provider_of a \<notin> set (provider_names k) \<and>
         (krakendName a \<noteq> kn \<or> (kn, provider_of a) \<in> set (ns_dropped n)))"
proof -
  from ns_reachable_inv[OF assms(1)] have inv: "distinct (live_paths (ns_items n))" "providers_ok n"
    by (simp_all add: ns_inv_def)
  show ?thesis
  proof (cases "ToKrakendEndpoints k (live (ns_items n))")
    case (Inl err)
    from conversion_offender[OF this] obtain a where a: "a \<in> set (live (ns_items n))"
      "provider_of a \<notin> set (provider_names k)" "err = provider_missing (provider_of a)"
      by (auto simp: provider_of_def)
    then have "krakendName a \<noteq> kn \<or> (kn, provider_of a) \<in> set (ns_dropped n)"
      using inv(2) assms(2) unfolding providers_ok_def by (force simp: providers_at_def)
    with a inv(1) Inl show ?thesis by auto
  next
    case (Inr eps)
    with inv(1) ToKrakendEndpoints_paths[OF Inr] show ?thesis by (simp add: live_paths_def)
  qed
qed

theorem reachable_publishable_witness:
  "ns_reachable two_instances \<and> ns_krakends two_instances ''ns1'' = Some sample_krakend \<and>
   ns_krakends two_instances ''k2'' = Some other_krakend \<and>
   (\<exists>eps. ToKrakendEndpoints sample_krakend (live (ns_items two_instances)) = Inr eps \<and>
      map en_Endpoint eps = [''/app1/secure'', ''/doc'']) \<and>
   ToKrakendEndpoints other_krakend (live (ns_items two_instances)) = Inl (provider_missing ''maskinporten'')"
proof -
  obtain eps where eps: "ToKrakendEndpoints sample_krakend (live (ns_items two_instances)) = Inr eps"
    by (auto simp: ToKrakendEndpoints_Inr two_instances_facts provider_names_def sample_defs)
  have "\<forall>eps. ToKrakendEndpoints other_krakend (live (ns_items two_instances)) \<noteq> Inr eps"
    by (simp add: ToKrakendEndpoints_Inr two_instances_facts other_krakend_facts sample_defs)
  then obtain err where err: "ToKrakendEndpoints other_krakend (live (ns_items two_instances)) = Inl err"
    by (cases "ToKrakendEndpoints other_krakend (live (ns_items two_instances))") auto
  from reachable_publishable[OF two_instances_reachable two_instances_facts(1)] eps
    reachable_publishable[OF two_instances_reachable two_instances_facts(2)] err
  show ?thesis
    by (auto simp: two_instances_facts two_instances_reachable provider_of_def sample_defs ae_paths_def)
qed

text \<open>
  C9. The guarantee rests on writes being validated one at a time. Take a reachable namespace and two
  new versions of different resources of the same Krakend, each validated against that namespace.
  Once both are stored the conversion for the Krakend still succeeds, but the published paths are
  distinct exactly when the two resources claim no path in common, which nothing has checked.
\<close>

theorem admission_race:
  assumes "ns_reachable n" "ns_krakends n kn = Some k" "ToKrakendEndpoints k (live (ns_items n)) = Inr eps0"
    and "ae_Name a \<noteq> ae_Name b"
    and a: "admits n a" "ae_Namespace a = ns_name n" "\<not> ae_deleted a" "krakendName a = kn"
    and b: "admits n b" "ae_Namespace b = ns_name n" "\<not> ae_deleted b" "krakendName b = kn"
  shows "\<exists>eps. ToKrakendEndpoints k (live (ns_items (store (store n a) b))) = Inr eps \<and>
    (distinct (map en_Endpoint eps) \<longleftrightarrow> set (ae_paths a) \<inter> set (ae_paths b) = {})"
proof -
  from assms(1) have inv: "ns_inv n" by (rule ns_reachable_inv)
  have prov: "provider_of a \<in> set (provider_names k)" "provider_of b \<in> set (provider_names k)"
    using admitted_paths(2)[OF inv a(1-3)] admitted_paths(2)[OF inv b(1-3)] a(4) b(4) assms(2)
    by (simp_all add: providers_at_def)
  have "set (ns_items (store (store n a) b)) \<subseteq> insert a (insert b (set (ns_items n)))"
    using set_put[of "put (ns_items n) a" b] set_put[of "ns_items n" a] by auto
  then have "\<forall>c \<in> set (live (ns_items (store (store n a) b))). provider_of c \<in> set (provider_names k)"
    using prov assms(3) by (auto simp: ToKrakendEndpoints_Inr provider_of_def)
  then obtain eps where eps: "ToKrakendEndpoints k (live (ns_items (store (store n a) b))) = Inr eps"
    by (auto simp: ToKrakendEndpoints_Inr provider_of_def)
  with converts_distinct[OF eps] race_paths[OF inv assms(4) a(1-3) b(1-3)] show ?thesis by auto
qed

theorem admission_race_witness:
  "let a = sample_api ''app1'' [sample_endpoint ''/p'' ''http://app1''] [];
       b = sample_api ''app2'' [sample_endpoint ''/p'' ''http://app2''] [] in
   admits two_krakends a \<and> admits two_krakends b \<and>
   (\<exists>eps. ToKrakendEndpoints sample_krakend (live (ns_items (store (store two_krakends a) b))) = Inr eps \<and>
      \<not> distinct (map en_Endpoint eps))"
proof -
  let ?a = "sample_api ''app1'' [sample_endpoint ''/p'' ''http://app1''] []"
  let ?b = "sample_api ''app2'' [sample_endpoint ''/p'' ''http://app2''] []"
  have ok: "krakends_ok two_krakends" using ns_reachable_inv[OF two_krakends_reachable] by (simp add: ns_inv_def)
  have adm: "admits two_krakends ?a" "admits two_krakends ?b"
    using ok by (subst admits_iff; simp add: two_krakends_facts krakendName_def provider_of_def providers_at_def
        provider_names_def replaced_items_eq ae_paths_def sample_defs)+
  have empty: "ToKrakendEndpoints sample_krakend (live (ns_items two_krakends)) = Inr []"
    by (simp add: ToKrakendEndpoints_Inr two_krakends_facts)
  have kn: "krakendName ?a = ''ns1''" "krakendName ?b = ''ns1''" "ae_Namespace ?a = ns_name two_krakends"
    "ae_Namespace ?b = ns_name two_krakends" "ae_Name ?a \<noteq> ae_Name ?b" "\<not> ae_deleted ?a" "\<not> ae_deleted ?b"
    "\<not> set (ae_paths ?a) \<inter> set (ae_paths ?b) = {}"
    by (simp_all add: krakendName_def two_krakends_facts ae_paths_def sample_defs)
  from admission_race[OF two_krakends_reachable two_krakends_facts(1) empty kn(5) adm(1) kn(3,6,1) adm(2) kn(4,7,2)] kn(8) adm
  show ?thesis unfolding Let_def by blast
qed

end
