(* ===== verification/Go_Url.thy ===== *)
theory Go_Url
  imports Go_Strings
begin

text \<open>
  The part of Go's \<^verbatim>\<open>net/url\<close> the program relies on: \<^verbatim>\<open>url.Parse\<close> with its error cases, the
  scheme and host it finds, and \<^verbatim>\<open>URL.Hostname\<close>, as in Go 1.24. The path, query, fragment and
  user information are read only as far as they can make the parse fail. An error is \<open>None\<close>: the
  callers log its text and go on.
\<close>

section \<open>Characters\<close>

definition is_alpha :: "char \<Rightarrow> bool" where
  "is_alpha c \<longleftrightarrow> 97 \<le> byte c \<and> byte c \<le> 122 \<or> 65 \<le> byte c \<and> byte c \<le> 90"

definition is_digit :: "char \<Rightarrow> bool" where
  "is_digit c \<longleftrightarrow> 48 \<le> byte c \<and> byte c \<le> 57"

definition ishex :: "char \<Rightarrow> bool" where
  "ishex c \<longleftrightarrow> is_digit c \<or> 97 \<le> byte c \<and> byte c \<le> 102 \<or> 65 \<le> byte c \<and> byte c \<le> 70"

definition unhex :: "char \<Rightarrow> nat" where
  "unhex c = (if is_digit c then byte c - 48 else if 97 \<le> byte c then byte c - 87 else byte c - 55)"

definition is_ctl :: "char \<Rightarrow> bool" where
  "is_ctl c \<longleftrightarrow> byte c < 32 \<or> byte c = 127"

text \<open>\<^verbatim>\<open>shouldEscape(c, encodeHost)\<close>, the same in zone mode: every byte a host may not hold as it is.\<close>

definition host_safe :: "char \<Rightarrow> bool" where
  "host_safe c \<longleftrightarrow> is_alpha c \<or> is_digit c \<or>
     c \<in> set (''!$&()*+,;=:[]<>-_.~'' @ [CHR 39, CHR 34])"

section \<open>Unescaping\<close>

datatype encoding = encodeHost | encodeZone | encodeOther

text \<open>\<^verbatim>\<open>unescape\<close>: the checks and the decoding in one pass. Only query components turn a plus sign into a space, and no query is unescaped here.\<close>

fun unescape :: "encoding \<Rightarrow> string \<Rightarrow> string option" where
  "unescape m [] = Some []"
| "unescape m (c # cs) =
     (if c = CHR ''%'' then
        (case cs of
           a # b # rest \<Rightarrow>
             (if \<not> ishex a \<or> \<not> ishex b then None
              else let v = char_of (unhex a * 16 + unhex b) in
                if m = encodeHost \<and> unhex a < 8 \<and> \<not> (a = CHR ''2'' \<and> b = CHR ''5'') then None
                else if m = encodeZone \<and> \<not> (a = CHR ''2'' \<and> b = CHR ''5'') \<and> v \<noteq> CHR '' '' \<and> \<not> host_safe v
                then None
                else map_option ((#) v) (unescape m rest))
         | _ \<Rightarrow> None)
      else if (m = encodeHost \<or> m = encodeZone) \<and> byte c < 128 \<and> \<not> host_safe c then None
      else map_option ((#) c) (unescape m cs))"

section \<open>Scheme and authority\<close>

text \<open>\<^verbatim>\<open>getScheme\<close>; \<open>first\<close> tells the first byte, \<open>seen\<close> holds the bytes before it, reversed.\<close>

fun getScheme_loop :: "string \<Rightarrow> string \<Rightarrow> string \<Rightarrow> (string \<times> string) option" where
  "getScheme_loop raw seen [] = Some ([], raw)"
| "getScheme_loop raw seen (c # cs) =
     (if is_alpha c then getScheme_loop raw (c # seen) cs
      else if is_digit c \<or> c = CHR ''+'' \<or> c = CHR ''-'' \<or> c = CHR ''.'' then
        (if seen = [] then Some ([], raw) else getScheme_loop raw (c # seen) cs)
      else if c = CHR '':'' then
        (if seen = [] then None else Some (rev seen, cs))
      else Some ([], raw))"

definition getScheme :: "string \<Rightarrow> (string \<times> string) option" where
  "getScheme raw = getScheme_loop raw [] raw"

definition validOptionalPort :: "string \<Rightarrow> bool" where
  "validOptionalPort port \<longleftrightarrow>
     (case port of [] \<Rightarrow> True | c # cs \<Rightarrow> c = CHR '':'' \<and> list_all is_digit cs)"

definition parseHost :: "string \<Rightarrow> string option" where
  "parseHost host =
     (if str_HasPrefix host ''['' then
        (case str_LastIndex host (CHR '']'') of
           None \<Rightarrow> None
         | Some i \<Rightarrow>
             (if \<not> validOptionalPort (drop (i + 1) host) then None
              else (case str_Index (take i host) ''%25'' of
                  Some zone \<Rightarrow>
                    (case (unescape encodeHost (take zone host),
                           unescape encodeZone (drop zone (take i host)),
                           unescape encodeHost (drop i host)) of
                       (Some h1, Some h2, Some h3) \<Rightarrow> Some (h1 @ h2 @ h3)
                     | _ \<Rightarrow> None)
                | None \<Rightarrow> unescape encodeHost host)))
      else (case str_LastIndex host (CHR '':'') of
          Some i \<Rightarrow> if \<not> validOptionalPort (drop i host) then None else unescape encodeHost host
        | None \<Rightarrow> unescape encodeHost host))"

definition validUserinfo :: "string \<Rightarrow> bool" where
  "validUserinfo s \<longleftrightarrow>
     list_all (\<lambda>c. is_alpha c \<or> is_digit c \<or> c \<in> set (''-._:~!$&()*+,;=%@'' @ [CHR 39])) s"

definition parseAuthority :: "string \<Rightarrow> string option" where
  "parseAuthority authority =
     (case str_LastIndex authority (CHR ''@'') of
        None \<Rightarrow> parseHost authority
      | Some i \<Rightarrow>
          (case parseHost (drop (i + 1) authority) of
             None \<Rightarrow> None
           | Some host \<Rightarrow>
               (let userinfo = take i authority in
                if \<not> validUserinfo userinfo then None
                else if CHR '':'' \<notin> set userinfo then
                  (if unescape encodeOther userinfo = None then None else Some host)
                else (case str_Cut userinfo (CHR '':'') of (username, password) \<Rightarrow>
                  (if unescape encodeOther username = None \<or> unescape encodeOther password = None
                   then None else Some host)))))"

section \<open>Parsing\<close>

record URL =
  url_Scheme :: string
  url_Host :: string

text \<open>The query is cut off at the first question mark; a single trailing one leaves no query either way.\<close>

definition parse_rest :: "string \<Rightarrow> string \<Rightarrow> URL option" where
  "parse_rest scheme rest =
     (if \<not> str_HasPrefix rest ''/'' \<and> scheme \<noteq> [] then
        Some \<lparr>url_Scheme = scheme, url_Host = []\<rparr>
      else if \<not> str_HasPrefix rest ''/'' \<and> CHR '':'' \<in> set (fst (str_Cut rest (CHR ''/''))) then None
      else if (scheme \<noteq> [] \<or> \<not> str_HasPrefix rest ''///'') \<and> str_HasPrefix rest ''//'' then
        (let authority = fst (str_Cut (drop 2 rest) (CHR ''/''));
             path = drop (length authority) (drop 2 rest)
         in case parseAuthority authority of
              None \<Rightarrow> None
            | Some host \<Rightarrow>
                (if unescape encodeOther path = None then None
                 else Some \<lparr>url_Scheme = scheme, url_Host = host\<rparr>))
      else (if unescape encodeOther rest = None then None
            else Some \<lparr>url_Scheme = scheme, url_Host = []\<rparr>))"

definition parse_url :: "string \<Rightarrow> URL option" where
  "parse_url raw =
     (if \<not> list_all (\<lambda>c. \<not> is_ctl c) raw then None
      else if raw = ''*'' then Some \<lparr>url_Scheme = [], url_Host = []\<rparr>
      else (case getScheme raw of
          None \<Rightarrow> None
        | Some (scheme, rest) \<Rightarrow>
            parse_rest (str_ToLower scheme) (fst (str_Cut rest (CHR ''?'')))))"

definition Parse :: "string \<Rightarrow> URL option" where
  "Parse rawURL =
     (case str_Cut rawURL (CHR ''#'') of (u, frag) \<Rightarrow>
        (case parse_url u of
           None \<Rightarrow> None
         | Some url \<Rightarrow>
             (if frag = [] then Some url
              else if unescape encodeOther frag = None then None else Some url)))"

definition Hostname :: "URL \<Rightarrow> string" where
  "Hostname u =
     (let hostPort = url_Host u;
          host = (case str_LastIndex hostPort (CHR '':'') of
                    Some colon \<Rightarrow>
                      if validOptionalPort (drop colon hostPort) then take colon hostPort else hostPort
                  | None \<Rightarrow> hostPort)
      in if str_HasPrefix host ''['' \<and> str_HasSuffix host '']''
         then take (length host - 2) (drop 1 host) else host)"

section \<open>Plain hosts\<close>

text \<open>
  What service discovery relies on: a URL made of \<^verbatim>\<open>http://\<close>, a host name of letters, digits,
  hyphens and dots, and an optional port parses, and its host name is the one written.
\<close>

definition plain :: "char \<Rightarrow> bool" where
  "plain c \<longleftrightarrow> is_alpha c \<or> is_digit c \<or> c = CHR ''-'' \<or> c = CHR ''.''"

lemma str_Cut_notin: "c \<notin> set s \<Longrightarrow> str_Cut s c = (s, [])"
  by (induction s) auto

lemma str_LastIndex_notin: "c \<notin> set s \<Longrightarrow> str_LastIndex s c = None"
  by (induction s) auto

lemma str_LastIndex_append_Cons: "c \<notin> set t \<Longrightarrow> str_LastIndex (s @ c # t) c = Some (length s)"
  by (induction s) (auto simp: str_LastIndex_notin)

lemma plain_not:
  assumes "list_all plain h"
  shows "CHR ''#'' \<notin> set h" "CHR ''?'' \<notin> set h" "CHR ''/'' \<notin> set h" "CHR ''@'' \<notin> set h"
    "CHR '':'' \<notin> set h" "CHR ''['' \<notin> set h" "list_all (\<lambda>c. \<not> is_ctl c) h"
  using assms
  by (auto simp: list_all_iff plain_def is_alpha_def is_digit_def is_ctl_def)

lemma digits_not:
  assumes "list_all is_digit ds"
  shows "CHR ''#'' \<notin> set ds" "CHR ''?'' \<notin> set ds" "CHR ''/'' \<notin> set ds" "CHR ''@'' \<notin> set ds"
    "CHR '':'' \<notin> set ds" "list_all (\<lambda>c. \<not> is_ctl c) ds"
  using assms by (auto simp: list_all_iff is_digit_def is_ctl_def)

lemma unescape_plain:
  "list_all (\<lambda>c. plain c \<or> c = CHR '':'') h \<Longrightarrow> unescape encodeHost h = Some h"
proof (induction h)
  case (Cons c cs)
  then have "c \<noteq> CHR ''%''" "host_safe c"
    by (auto simp: plain_def is_alpha_def is_digit_def host_safe_def)
  with Cons show ?case by simp
qed simp

lemma parseHost_plain:
  assumes "list_all plain h" "validOptionalPort p"
  shows "parseHost (h @ p) = Some (h @ p)"
proof -
  have "list_all (\<lambda>c. plain c \<or> c = CHR '':'') (h @ p)"
    using assms by (auto simp: list_all_iff validOptionalPort_def plain_def split: list.splits)
  moreover have "\<not> str_HasPrefix (h @ p) ''[''"
    using assms plain_not[of h]
    by (cases h; cases p) (auto simp: str_HasPrefix_def validOptionalPort_def)
  moreover have "str_LastIndex (h @ p) (CHR '':'') = (if p = [] then None else Some (length h))"
    using assms plain_not[of h] digits_not[of "tl p"]
    by (cases p) (auto simp: validOptionalPort_def str_LastIndex_notin str_LastIndex_append_Cons)
  ultimately show ?thesis
    using assms by (simp add: parseHost_def unescape_plain)
qed

lemma Parse_plain:
  assumes "list_all plain h" "validOptionalPort p"
  shows "Parse (''http://'' @ h @ p) = Some \<lparr>url_Scheme = ''http'', url_Host = h @ p\<rparr>"
proof -
  let ?a = "h @ p"
  have no: "CHR ''#'' \<notin> set ?a" "CHR ''?'' \<notin> set ?a" "CHR ''/'' \<notin> set ?a" "CHR ''@'' \<notin> set ?a"
    "list_all (\<lambda>c. \<not> is_ctl c) ?a"
    using assms plain_not[of h] digits_not[of "tl p"]
    by (cases p; auto simp: validOptionalPort_def is_ctl_def)+
  have "getScheme (''http://'' @ ?a) = Some (''http'', ''//'' @ ?a)"
    by (simp add: getScheme_def is_alpha_def is_digit_def)
  moreover have "str_ToLower ''http'' = ''http''"
    by (simp add: str_ToLower_def lower_byte_def)
  moreover have "parseAuthority ?a = Some ?a"
    using no parseHost_plain[OF assms] by (simp add: parseAuthority_def str_LastIndex_notin)
  moreover have "str_HasPrefix (''//'' @ ?a) ''/''" "str_HasPrefix (''//'' @ ?a) ''//''"
    by (simp_all add: str_HasPrefix_def)
  ultimately have "parse_url (''http://'' @ ?a) = Some \<lparr>url_Scheme = ''http'', url_Host = ?a\<rparr>"
    using no by (simp add: parse_url_def parse_rest_def str_Cut_notin is_ctl_def Let_def)
  moreover have "str_Cut (''http://'' @ ?a) (CHR ''#'') = (''http://'' @ ?a, [])"
    using no by (intro str_Cut_notin) simp
  ultimately show ?thesis by (simp add: Parse_def)
qed

lemma Hostname_plain:
  assumes "list_all plain h" "validOptionalPort p"
  shows "Hostname \<lparr>url_Scheme = sc, url_Host = h @ p\<rparr> = h"
proof -
  have "str_LastIndex (h @ p) (CHR '':'') = (if p = [] then None else Some (length h))"
    using assms plain_not[of h] digits_not[of "tl p"]
    by (cases p) (auto simp: validOptionalPort_def str_LastIndex_notin str_LastIndex_append_Cons)
  moreover have "\<not> str_HasPrefix h ''[''"
    using plain_not[OF assms(1)] by (cases h) (auto simp: str_HasPrefix_def)
  ultimately show ?thesis using assms by (simp add: Hostname_def)
qed

end
