(* ===== verification/ApiEndpoints_Controller.thy ===== *)
theory ApiEndpoints_Controller
  imports Webhook Go_Url
begin

text \<open>
  \<^verbatim>\<open>internal/controller/apiendpoints_controller.go\<close>: reconciliation of an ApiEndpoints resource.
  The client and the clock are parameters (\<^verbatim>\<open>Kube_Client\<close>); so are the hash of
  \<^verbatim>\<open>hashstructure\<close> and the finalizer helpers of controller-runtime (\<open>Lib\<close>). A reconciliation
  answers the error it returns (\<open>None\<close> for nil); the accompanying \<^verbatim>\<open>ctrl.Result\<close> is always the
  zero value. Logging is not modelled.
\<close>

section \<open>Parameters and configuration\<close>

record Lib =
  Hash :: "ApiEndpointsSpec \<Rightarrow> (64 word) result"
  AddFinalizer :: "ApiEndpoints \<Rightarrow> string \<Rightarrow> bool \<times> ApiEndpoints"
  RemoveFinalizer :: "ApiEndpoints \<Rightarrow> string \<Rightarrow> bool \<times> ApiEndpoints"

text \<open>A \<^verbatim>\<open>time.Duration\<close> is a signed 64-bit count of nanoseconds.\<close>

record ApiEndpointsReconciler =
  ar_SyncInterval :: "64 word"
  ar_NetpolEnabled :: bool
  ar_ClusterDomain :: string

definition AppLabelName :: string where "AppLabelName = ''app''"
definition KrakendFinalizer :: string where "KrakendFinalizer = ''finalizer.krakend.nais.io''"
definition KrakendConfigMapKey :: string where "KrakendConfigMapKey = ''endpoints.tmpl''"

section \<open>Hash and synchronisation window\<close>

definition hashEndpoints :: "Lib \<Rightarrow> ApiEndpointsSpec \<Rightarrow> string result" where
  "hashEndpoints lib a = (case Hash lib a of Inl err \<Rightarrow> Inl err | Inr h \<Rightarrow> Inr (Sprintf_x h))"

definition outside_window :: "64 word \<Rightarrow> int \<Rightarrow> int \<Rightarrow> bool" where
  "outside_window interval now timestamp = (let window = now + sint (- interval) in timestamp < window)"

definition needsSync :: "'s Client \<Rightarrow> ApiEndpointsReconciler \<Rightarrow> int \<Rightarrow> ('s, bool) io" where
  "needsSync c r timestamp = do {
     now \<leftarrow> Now c;
     State_Monad.return (outside_window (ar_SyncInterval r) now timestamp)
   }"

section \<open>Apps of the namespace\<close>

text \<open>The app a host name stands for, by its number of labels.\<close>

definition app_of_host :: "string \<Rightarrow> string \<Rightarrow> string \<Rightarrow> string" where
  "app_of_host clusterDomain namespace hostname =
     (let parts = str_Split (CHR ''.'') hostname; num = length parts in
      if num = 1 then parts ! 0
      else if num = 2 then (if parts ! 1 = namespace then parts ! 0 else [])
      else if num > 3 then
        (let rest = str_Join (drop 2 parts) ''.'' in
         if parts ! 1 = namespace \<and> rest = ''svc.'' @ clusterDomain then parts ! 0 else [])
      else [])"

fun appsInNamespace_loop ::
  "string \<Rightarrow> string \<Rightarrow> v1_Endpoint list \<Rightarrow> (string \<rightharpoonup> bool) \<Rightarrow> string list \<Rightarrow> string list" where
  "appsInNamespace_loop clusterDomain namespace [] seen apps = apps"
| "appsInNamespace_loop clusterDomain namespace (e # es) seen apps =
     (case Parse (ep_BackendHost e) of
        None \<Rightarrow> appsInNamespace_loop clusterDomain namespace es seen apps
      | Some u \<Rightarrow>
          (if url_Scheme u = ''http'' \<and> Hostname u \<noteq> [] then
             (let app = app_of_host clusterDomain namespace (Hostname u) in
              if seen app = None \<and> app \<noteq> []
              then appsInNamespace_loop clusterDomain namespace es (seen(app \<mapsto> True)) (apps @ [app])
              else appsInNamespace_loop clusterDomain namespace es seen apps)
           else appsInNamespace_loop clusterDomain namespace es seen apps))"

definition appsInNamespace :: "ApiEndpointsReconciler \<Rightarrow> ApiEndpoints \<Rightarrow> string list" where
  "appsInNamespace r endpoints =
     appsInNamespace_loop (ar_ClusterDomain r) (ae_Namespace endpoints)
       (as_Endpoints (ae_Spec endpoints)) Map.empty []"

section \<open>Ingress network policies\<close>

definition ae_ownerRef :: "ApiEndpoints \<Rightarrow> OwnerReference list" where
  "ae_ownerRef endpoints =
     [\<lparr>or_APIVersion = tm_APIVersion (ae_TypeMeta endpoints), or_Kind = tm_Kind (ae_TypeMeta endpoints),
       or_Name = ae_Name endpoints, or_UID = om_UID (ae_Meta endpoints)\<rparr>]"

definition SetOwnerReferences_np :: "OwnerReference list \<Rightarrow> NetworkPolicy \<Rightarrow> NetworkPolicy" where
  "SetOwnerReferences_np refs np = np\<lparr>np_Meta := (np_Meta np)\<lparr>om_OwnerReferences := Some refs\<rparr>\<rparr>"

definition npName :: "ApiEndpoints \<Rightarrow> string \<Rightarrow> string" where
  "npName endpoints app = ''allow-'' @ krakendName endpoints @ ''-'' @ app"

definition app_netpol :: "ApiEndpoints \<Rightarrow> string \<Rightarrow> NetworkPolicy" where
  "app_netpol endpoints app = SetOwnerReferences_np (ae_ownerRef endpoints)
     (AppAllowKrakendIngressNetpol (npName endpoints app) (ae_Namespace endpoints) [AppLabelName \<mapsto> app])"

fun ensureAppIngressNetpol_loop ::
  "'s Client \<Rightarrow> ApiEndpoints \<Rightarrow> string list \<Rightarrow> ('s, error option) io" where
  "ensureAppIngressNetpol_loop c endpoints [] = State_Monad.return None"
| "ensureAppIngressNetpol_loop c endpoints (app # apps) = do {
     g \<leftarrow> Get_NetworkPolicy c
            \<lparr>nn_Namespace = ae_Namespace endpoints, nn_Name = npName endpoints app\<rparr>;
     (case g of
        Inl err \<Rightarrow>
          (if IgnoreNotFound err \<noteq> None then State_Monad.return (Some err)
           else do {
             r \<leftarrow> Create_NetworkPolicy c (app_netpol endpoints app);
             (case r of
                Inl err' \<Rightarrow> State_Monad.return (Some (WrapV ''create netpol'' err'))
              | Inr _ \<Rightarrow> ensureAppIngressNetpol_loop c endpoints apps)
           })
      | Inr np \<Rightarrow> do {
          r \<leftarrow> Update_NetworkPolicy c np;
          (case r of
             Inl err' \<Rightarrow> State_Monad.return (Some (WrapV ''update netpol'' err'))
           | Inr _ \<Rightarrow> ensureAppIngressNetpol_loop c endpoints apps)
        })
   }"

definition ensureAppIngressNetpol ::
  "'s Client \<Rightarrow> ApiEndpointsReconciler \<Rightarrow> ApiEndpoints \<Rightarrow> ('s, error option) io" where
  "ensureAppIngressNetpol c r endpoints =
     ensureAppIngressNetpol_loop c endpoints (appsInNamespace r endpoints)"

section \<open>The configuration of a Krakend instance\<close>

definition quoted :: "string \<Rightarrow> string" where
  "quoted s = [CHR 39] @ s @ [CHR 39]"

definition cmName :: "Krakend \<Rightarrow> string" where
  "cmName k = kr_Name k @ ''-krakend-partials''"

definition cm_entry :: "ConfigMap \<Rightarrow> string \<Rightarrow> string" where
  "cm_entry cm key = (case cm_Data cm key of None \<Rightarrow> [] | Some v \<Rightarrow> v)"

text \<open>The text that is published for the listed resources: those marked for deletion are left out.\<close>

definition partials_text :: "Krakend \<Rightarrow> ApiEndpointsList \<Rightarrow> string result" where
  "partials_text k list =
     (let filtered = filter (\<lambda>e. om_DeletionTimestamp (ae_Meta e) = None) (ael_Items list) in
      case ToKrakendEndpoints k filtered of
        Inl err \<Rightarrow> Inl (WrapV ''convert ApiEndpoints to Krakend endpoints'' err)
      | Inr allEndpoints \<Rightarrow> json_Marshal (json_Endpoints allEndpoints))"

definition publish_partials :: "'s Client \<Rightarrow> Krakend \<Rightarrow> ConfigMap \<Rightarrow> ('s, error option) io" where
  "publish_partials c k cm = do {
     l \<leftarrow> List_ApiEndpoints c (kr_Namespace k);
     (case l of
        Inl err \<Rightarrow> State_Monad.return (Some (WrapV ''list all ApiEndpoints'' err))
      | Inr list \<Rightarrow>
          (case partials_text k list of
             Inl err \<Rightarrow> State_Monad.return (Some err)
           | Inr partials \<Rightarrow> do {
               u \<leftarrow> Update_ConfigMap c (cm\<lparr>cm_Data := (cm_Data cm)(KrakendConfigMapKey \<mapsto> partials)\<rparr>);
               (case u of
                  Inl err \<Rightarrow> State_Monad.return
                    (Some (WrapV (''update ConfigMap '' @ quoted (cmName k)) err))
                | Inr _ \<Rightarrow> State_Monad.return None)
             }))
   }"

definition updateKrakendConfigMap :: "'s Client \<Rightarrow> Krakend \<Rightarrow> ('s, error option) io" where
  "updateKrakendConfigMap c k = do {
     g \<leftarrow> Get_ConfigMap c \<lparr>nn_Namespace = kr_Namespace k, nn_Name = cmName k\<rparr>;
     (case g of
        Inl err \<Rightarrow> State_Monad.return (Some (WrapV (''get ConfigMap '' @ quoted (cmName k)) err))
      | Inr cm \<Rightarrow>
          (if cm_entry cm KrakendConfigMapKey = []
           then State_Monad.return
             (Some (Msg (KrakendConfigMapKey @ '' not found in ConfigMap with name '' @ cmName k)))
           else publish_partials c k cm))
   }"

section \<open>Reconcile\<close>

text \<open>The branch of a resource that is marked for deletion.\<close>

definition remove_finalizer :: "'s Client \<Rightarrow> Lib \<Rightarrow> ApiEndpoints \<Rightarrow> ('s, error option) io" where
  "remove_finalizer c lib endpoints =
     (case RemoveFinalizer lib endpoints KrakendFinalizer of (removed, endpoints') \<Rightarrow>
        (if removed then do {
           u \<leftarrow> Update_ApiEndpoints c endpoints';
           (case u of
              Inl err \<Rightarrow> State_Monad.return (Some (WrapW ''failed to remove finalizer'' err))
            | Inr _ \<Rightarrow> State_Monad.return None)
         }
         else State_Monad.return None))"

definition Reconcile_deleted :: "'s Client \<Rightarrow> Lib \<Rightarrow> ApiEndpoints \<Rightarrow> ('s, error option) io" where
  "Reconcile_deleted c lib endpoints = do {
     g \<leftarrow> Get_Krakend c \<lparr>nn_Namespace = ae_Namespace endpoints, nn_Name = krakendName endpoints\<rparr>;
     (case g of
        Inl err \<Rightarrow>
          (if \<not> IsNotFound err then State_Monad.return (Some err)
           else remove_finalizer c lib endpoints)
      | Inr k \<Rightarrow> do {
          u \<leftarrow> updateKrakendConfigMap c k;
          (case u of
             Some err \<Rightarrow> State_Monad.return (Some err)
           | None \<Rightarrow> remove_finalizer c lib endpoints)
        })
   }"

text \<open>The end of a synchronisation: finalizer and owner on the refetched object, then its status.\<close>

definition kr_ownerRef :: "Krakend \<Rightarrow> OwnerReference list" where
  "kr_ownerRef k =
     [\<lparr>or_APIVersion = tm_APIVersion (kr_TypeMeta k), or_Kind = tm_Kind (kr_TypeMeta k),
       or_Name = kr_Name k, or_UID = om_UID (kr_Meta k)\<rparr>]"

definition ensure_metadata :: "Lib \<Rightarrow> Krakend \<Rightarrow> ApiEndpoints \<Rightarrow> bool \<times> ApiEndpoints" where
  "ensure_metadata lib k endpoints =
     (case AddFinalizer lib endpoints KrakendFinalizer of (needsUpdate, endpoints') \<Rightarrow>
        (if om_OwnerReferences (ae_Meta endpoints') = None
         then (True, endpoints'\<lparr>ae_Meta := (ae_Meta endpoints')\<lparr>om_OwnerReferences := Some (kr_ownerRef k)\<rparr>\<rparr>)
         else (needsUpdate, endpoints')))"

definition write_status ::
  "'s Client \<Rightarrow> NamespacedName \<Rightarrow> string \<Rightarrow> ('s, error option) io" where
  "write_status c req hash = do {
     g \<leftarrow> Get_ApiEndpoints c req;
     (case g of
        Inl err \<Rightarrow> State_Monad.return (Some err)
      | Inr endpoints \<Rightarrow> do {
          now \<leftarrow> Now c;
          u \<leftarrow> Status_Update_ApiEndpoints c
                 (endpoints\<lparr>ae_Status :=
                    \<lparr>es_SynchronizationTimestamp = now, es_SynchronizationHash = hash\<rparr>\<rparr>);
          (case u of
             Inl err \<Rightarrow> State_Monad.return (Some err)
           | Inr _ \<Rightarrow> State_Monad.return None)
        })
   }"

definition finish_sync ::
  "'s Client \<Rightarrow> Lib \<Rightarrow> NamespacedName \<Rightarrow> Krakend \<Rightarrow> string \<Rightarrow> ('s, error option) io" where
  "finish_sync c lib req k hash = do {
     g \<leftarrow> Get_ApiEndpoints c req;
     (case g of
        Inl err \<Rightarrow> State_Monad.return (Some err)
      | Inr endpoints \<Rightarrow>
          (case ensure_metadata lib k endpoints of (needsUpdate, endpoints') \<Rightarrow>
             (if needsUpdate then do {
                u \<leftarrow> Update_ApiEndpoints c endpoints';
                (case u of
                   Inl err \<Rightarrow> State_Monad.return (Some err)
                 | Inr _ \<Rightarrow> write_status c req hash)
              }
              else write_status c req hash)))
   }"

text \<open>A failing network policy ends the run without an error, and without a status.\<close>

definition Reconcile_sync ::
  "'s Client \<Rightarrow> Lib \<Rightarrow> ApiEndpointsReconciler \<Rightarrow> NamespacedName \<Rightarrow> ApiEndpoints \<Rightarrow> string \<Rightarrow>
   ('s, error option) io" where
  "Reconcile_sync c lib r req endpoints hash = do {
     g \<leftarrow> Get_Krakend c \<lparr>nn_Namespace = ae_Namespace endpoints, nn_Name = krakendName endpoints\<rparr>;
     (case g of
        Inl err \<Rightarrow> State_Monad.return
          (Some (WrapV (''get Krakend instance '' @ quoted (krakendName endpoints)) err))
      | Inr k \<Rightarrow> do {
          u \<leftarrow> updateKrakendConfigMap c k;
          (case u of
             Some err \<Rightarrow> State_Monad.return (Some err)
           | None \<Rightarrow>
               (if ar_NetpolEnabled r then do {
                  n \<leftarrow> ensureAppIngressNetpol c r endpoints;
                  (case n of
                     Some err \<Rightarrow> State_Monad.return None
                   | None \<Rightarrow> finish_sync c lib req k hash)
                }
                else finish_sync c lib req k hash))
        })
   }"

text \<open>
  The branch of a resource that is not marked for deletion. When the run is not skipped, the
  message that is logged reads the clock once more; its outcome is not used.
\<close>

definition Reconcile_live ::
  "'s Client \<Rightarrow> Lib \<Rightarrow> ApiEndpointsReconciler \<Rightarrow> NamespacedName \<Rightarrow> ApiEndpoints \<Rightarrow> ('s, error option) io" where
  "Reconcile_live c lib r req endpoints =
     (case hashEndpoints lib (ae_Spec endpoints) of
        Inl err \<Rightarrow> State_Monad.return (Some err)
      | Inr hash \<Rightarrow> do {
          skip \<leftarrow> (if es_SynchronizationHash (ae_Status endpoints) = hash then do {
                     needs \<leftarrow> needsSync c r (es_SynchronizationTimestamp (ae_Status endpoints));
                     State_Monad.return (\<not> needs)
                   }
                   else State_Monad.return False);
          (if skip then State_Monad.return None
           else do {
             _ \<leftarrow> needsSync c r (es_SynchronizationTimestamp (ae_Status endpoints));
             Reconcile_sync c lib r req endpoints hash
           })
        })"

definition Reconcile ::
  "'s Client \<Rightarrow> Lib \<Rightarrow> ApiEndpointsReconciler \<Rightarrow> NamespacedName \<Rightarrow> ('s, error option) io" where
  "Reconcile c lib r req = do {
     g \<leftarrow> Get_ApiEndpoints c req;
     (case g of
        Inl err \<Rightarrow> State_Monad.return (IgnoreNotFound err)
      | Inr endpoints \<Rightarrow>
          (if om_DeletionTimestamp (ae_Meta endpoints) \<noteq> None
           then Reconcile_deleted c lib endpoints
           else Reconcile_live c lib r req endpoints))
   }"

section \<open>The reconciler the manager starts\<close>

text \<open>
  \<^verbatim>\<open>cmd/main.go\<close> names the client, the scheme, the interval and the network policy switch; the
  field it does not name, the cluster domain, is the empty string.
\<close>

definition main_ApiEndpointsReconciler :: "64 word \<Rightarrow> bool \<Rightarrow> ApiEndpointsReconciler" where
  "main_ApiEndpointsReconciler interval netpolEnabled =
     \<lparr>ar_SyncInterval = interval, ar_NetpolEnabled = netpolEnabled, ar_ClusterDomain = []\<rparr>"

section \<open>Lemmas on service discovery\<close>

definition candidate :: "string \<Rightarrow> string \<Rightarrow> v1_Endpoint \<Rightarrow> string option" where
  "candidate clusterDomain namespace e =
     (case Parse (ep_BackendHost e) of
        None \<Rightarrow> None
      | Some u \<Rightarrow>
          (if url_Scheme u = ''http'' \<and> Hostname u \<noteq> [] \<and> app_of_host clusterDomain namespace (Hostname u) \<noteq> []
           then Some (app_of_host clusterDomain namespace (Hostname u)) else None))"

lemma appsInNamespace_loop_eq:
  assumes "dom seen = set apps"
  shows "appsInNamespace_loop cd ns es seen apps = collect_new apps (List.map_filter (candidate cd ns) es)"
  using assms
proof (induction es arbitrary: seen apps)
  case Nil
  then show ?case by (simp add: map_filter_def)
next
  case (Cons e es)
  show ?case
  proof (cases "candidate cd ns e")
    case None
    then have "appsInNamespace_loop cd ns (e # es) seen apps = appsInNamespace_loop cd ns es seen apps"
      by (auto simp: candidate_def Let_def split: option.splits if_splits)
    with None Cons show ?thesis by (simp add: map_filter_simps)
  next
    case (Some app)
    then have "appsInNamespace_loop cd ns (e # es) seen apps =
        (if seen app = None then appsInNamespace_loop cd ns es (seen(app \<mapsto> True)) (apps @ [app])
         else appsInNamespace_loop cd ns es seen apps)"
      by (auto simp: candidate_def Let_def split: option.splits if_splits)
    moreover have "seen app = None \<longleftrightarrow> app \<notin> set apps"
      using Cons.prems by (auto simp: domIff)
    moreover have "dom (seen(app \<mapsto> True)) = set (apps @ [app])"
      using Cons.prems by auto
    then have "appsInNamespace_loop cd ns es (seen(app \<mapsto> True)) (apps @ [app]) =
        collect_new (apps @ [app]) (List.map_filter (candidate cd ns) es)"
      by (rule Cons.IH)
    moreover have "appsInNamespace_loop cd ns es seen apps =
        collect_new apps (List.map_filter (candidate cd ns) es)"
      using Cons.prems by (rule Cons.IH)
    ultimately show ?thesis
      using Some by (simp add: map_filter_simps del: appsInNamespace_loop.simps)
  qed
qed

lemma appsInNamespace_eq:
  "appsInNamespace r a = collect_new []
     (List.map_filter (candidate (ar_ClusterDomain r) (ae_Namespace a)) (as_Endpoints (ae_Spec a)))"
  by (simp add: appsInNamespace_def appsInNamespace_loop_eq)

lemma Split_service:
  assumes "CHR ''.'' \<notin> set app" "CHR ''.'' \<notin> set ns"
  shows "str_Split (CHR ''.'') app = [app]"
    "str_Split (CHR ''.'') (app @ ''.'' @ ns) = [app, ns]"
    "str_Split (CHR ''.'') (app @ ''.'' @ ns @ ''.svc.'' @ cd) =
       app # ns # ''svc'' # str_Split (CHR ''.'') cd"
  using assms by (simp_all add: str_Split_single str_Split_append_sep)

text \<open>The three spellings of a service that stand for an app of the namespace.\<close>

definition names_app :: "string \<Rightarrow> string \<Rightarrow> string \<Rightarrow> string \<Rightarrow> bool" where
  "names_app clusterDomain namespace app hostname \<longleftrightarrow>
     app \<noteq> [] \<and> CHR ''.'' \<notin> set app \<and>
     (hostname = app \<or> hostname = app @ ''.'' @ namespace \<or>
      hostname = app @ ''.'' @ namespace @ ''.svc.'' @ clusterDomain)"

lemma app_of_host_sound:
  assumes "app_of_host cd ns h = app" "app \<noteq> []"
  shows "names_app cd ns app h"
proof -
  let ?parts = "str_Split (CHR ''.'') h"
  have h: "h = str_Join ?parts ''.''" by simp
  have nodot: "\<And>p. p \<in> set ?parts \<Longrightarrow> CHR ''.'' \<notin> set p" by (rule str_Split_no_sep)
  consider "\<exists>p. ?parts = [p]" | "\<exists>p q. ?parts = [p, q]" | "\<exists>p q r. ?parts = [p, q, r]"
    | "\<exists>p q r t ts. ?parts = p # q # r # t # ts"
    by (metis str_Split_not_Nil list.exhaust)
  then show ?thesis
  proof cases
    case 1
    then obtain p where parts: "?parts = [p]" by blast
    then have "h = p" using h by (metis str_Join.simps(2))
    with parts nodot[of p] assms show ?thesis by (simp add: app_of_host_def names_app_def)
  next
    case 2
    then obtain p q where parts: "?parts = [p, q]" by blast
    with assms have "q = ns" "p = app" by (auto simp: app_of_host_def Let_def split: if_splits)
    with parts h nodot[of p] assms(2) show ?thesis by (simp add: names_app_def)
  next
    case 3
    with assms show ?thesis by (auto simp: app_of_host_def Let_def)
  next
    case 4
    then obtain p q r t ts where parts: "?parts = p # q # r # t # ts" by blast
    with assms have "q = ns" "p = app" "str_Join (r # t # ts) ''.'' = ''svc.'' @ cd"
      by (auto simp: app_of_host_def Let_def split: if_splits)
    with parts h nodot[of p] assms(2) show ?thesis
      by (simp add: names_app_def)
  qed
qed

lemma app_of_host_complete:
  assumes "names_app cd ns app h" "CHR ''.'' \<notin> set ns"
  shows "app_of_host cd ns h = app"
  using assms Split_service[of app ns]
  by (auto simp: names_app_def app_of_host_def Let_def str_Join_Cons)

lemma app_of_host_iff:
  "CHR ''.'' \<notin> set ns \<Longrightarrow> app_of_host cd ns h = app \<and> app \<noteq> [] \<longleftrightarrow> names_app cd ns app h"
  using app_of_host_sound app_of_host_complete by (auto simp: names_app_def)

lemma candidate_Some:
  assumes "CHR ''.'' \<notin> set ns"
  shows "candidate cd ns e = Some app \<longleftrightarrow>
    (\<exists>u. Parse (ep_BackendHost e) = Some u \<and> url_Scheme u = ''http'' \<and> names_app cd ns app (Hostname u))"
proof -
  have "candidate cd ns e = Some app \<longleftrightarrow>
    (\<exists>u. Parse (ep_BackendHost e) = Some u \<and> url_Scheme u = ''http'' \<and> Hostname u \<noteq> [] \<and>
       app_of_host cd ns (Hostname u) = app \<and> app \<noteq> [])"
    by (auto simp: candidate_def split: option.splits)
  also have "\<dots> \<longleftrightarrow> (\<exists>u. Parse (ep_BackendHost e) = Some u \<and> url_Scheme u = ''http'' \<and>
      Hostname u \<noteq> [] \<and> names_app cd ns app (Hostname u))"
    using app_of_host_iff[OF assms] by blast
  also have "\<dots> \<longleftrightarrow> (\<exists>u. Parse (ep_BackendHost e) = Some u \<and> url_Scheme u = ''http'' \<and>
      names_app cd ns app (Hostname u))"
    by (auto simp: names_app_def)
  finally show ?thesis .
qed

section \<open>Properties of service discovery\<close>

text \<open>
  C10. The apps that get an ingress policy are listed once each, and an app is listed exactly when
  some secured endpoint of the resource has an http backend whose host name spells a service of the
  resource's own namespace: \<^verbatim>\<open>app\<close>, \<^verbatim>\<open>app.ns\<close> or \<^verbatim>\<open>app.ns.svc.<cluster domain>\<close>.
  Backends that do not parse are skipped.
\<close>

theorem appsInNamespace_correct:
  assumes "CHR ''.'' \<notin> set (ae_Namespace a)"
  shows "distinct (appsInNamespace r a) \<and>
    (\<forall>app. app \<in> set (appsInNamespace r a) \<longleftrightarrow>
      (\<exists>e \<in> set (as_Endpoints (ae_Spec a)). \<exists>u. Parse (ep_BackendHost e) = Some u \<and>
         url_Scheme u = ''http'' \<and>
         names_app (ar_ClusterDomain r) (ae_Namespace a) app (Hostname u)))"
proof (intro conjI allI)
  show "distinct (appsInNamespace r a)"
    by (simp add: appsInNamespace_eq distinct_collect_new)
next
  fix app
  have "app \<in> set (appsInNamespace r a) \<longleftrightarrow>
      (\<exists>e \<in> set (as_Endpoints (ae_Spec a)). candidate (ar_ClusterDomain r) (ae_Namespace a) e = Some app)"
    by (auto simp: appsInNamespace_eq set_map_filter)
  then show "app \<in> set (appsInNamespace r a) \<longleftrightarrow>
      (\<exists>e \<in> set (as_Endpoints (ae_Spec a)). \<exists>u. Parse (ep_BackendHost e) = Some u \<and>
         url_Scheme u = ''http'' \<and>
         names_app (ar_ClusterDomain r) (ae_Namespace a) app (Hostname u))"
    by (simp only: candidate_Some[OF assms])
qed

theorem appsInNamespace_correct_witness:
  "set (appsInNamespace \<lparr>ar_SyncInterval = 0, ar_NetpolEnabled = True, ar_ClusterDomain = ''cluster.local''\<rparr>
     (sample_api ''x'' [sample_endpoint ''/a'' ''http://app1'', sample_endpoint ''/b'' ''http://app5.ns2''] []))
   = {''app1''}"
proof -
  let ?r = "\<lparr>ar_SyncInterval = 0, ar_NetpolEnabled = True, ar_ClusterDomain = ''cluster.local''\<rparr>"
  let ?a = "sample_api ''x'' [sample_endpoint ''/a'' ''http://app1'', sample_endpoint ''/b'' ''http://app5.ns2''] []"
  have plain: "list_all plain ''app1''" "list_all plain ''app5.ns2''" "validOptionalPort []"
    by (simp_all add: plain_def is_alpha_def is_digit_def validOptionalPort_def)
  have parse: "Parse ''http://app1'' = Some \<lparr>url_Scheme = ''http'', url_Host = ''app1''\<rparr>"
    "Parse ''http://app5.ns2'' = Some \<lparr>url_Scheme = ''http'', url_Host = ''app5.ns2''\<rparr>"
    using Parse_plain[OF plain(1,3)] Parse_plain[OF plain(2,3)] by simp_all
  have host: "Hostname \<lparr>url_Scheme = ''http'', url_Host = ''app1''\<rparr> = ''app1''"
    "Hostname \<lparr>url_Scheme = ''http'', url_Host = ''app5.ns2''\<rparr> = ''app5.ns2''"
    using Hostname_plain[OF plain(1,3)] Hostname_plain[OF plain(2,3)] by simp_all
  have "CHR ''.'' \<notin> set (ae_Namespace ?a)"
    by (simp add: sample_defs)
  note apps = appsInNamespace_correct[OF this, of ?r]
  have "app \<in> set (appsInNamespace ?r ?a) \<longleftrightarrow>
      names_app ''cluster.local'' ''ns1'' app ''app1'' \<or> names_app ''cluster.local'' ''ns1'' app ''app5.ns2''" for app
    using apps parse host by (simp add: sample_defs)
  moreover have "names_app ''cluster.local'' ''ns1'' app ''app1'' \<longleftrightarrow> app = ''app1''" for app
    by (auto simp: app_of_host_iff[symmetric] app_of_host_def)
  moreover have "\<not> names_app ''cluster.local'' ''ns1'' app ''app5.ns2''" for app
    by (auto simp: app_of_host_iff[symmetric] app_of_host_def)
  ultimately show ?thesis by blast
qed

text \<open>
  C11. With the reconciler the manager starts, a backend written with the full service name of
  any non-empty cluster domain is never recognised, although a reconciler that knows the domain
  recognises it: no policy is created for such a backend.
\<close>

theorem main_misses_full_service_names:
  assumes "list_all plain (app @ ''.'' @ ns @ ''.svc.'' @ domain)" "domain \<noteq> []"
    and "app \<noteq> []" "CHR ''.'' \<notin> set app" "CHR ''.'' \<notin> set ns"
    and "ae_Namespace a = ns" "as_Endpoints (ae_Spec a) = [e]"
    and "ep_BackendHost e = ''http://'' @ app @ ''.'' @ ns @ ''.svc.'' @ domain"
  shows "appsInNamespace (main_ApiEndpointsReconciler interval netpolEnabled) a = [] \<and>
    appsInNamespace ((main_ApiEndpointsReconciler interval netpolEnabled)\<lparr>ar_ClusterDomain := domain\<rparr>) a = [app]"
proof -
  let ?h = "app @ ''.'' @ ns @ ''.svc.'' @ domain"
  have port: "validOptionalPort []" by (simp add: validOptionalPort_def)
  have u: "Parse (ep_BackendHost e) = Some \<lparr>url_Scheme = ''http'', url_Host = ?h\<rparr>"
    using Parse_plain[OF assms(1) port] assms(8) by simp
  have h: "Hostname \<lparr>url_Scheme = ''http'', url_Host = ?h\<rparr> = ?h"
    using Hostname_plain[OF assms(1) port] by simp
  have "app_of_host cd ns ?h = (if domain = cd then app else [])" for cd
    using Split_service(3)[OF assms(4,5), of domain]
    by (auto simp: app_of_host_def Let_def str_Join_Cons)
  with u h assms(2,3,6,7) show ?thesis
    by (simp add: appsInNamespace_eq main_ApiEndpointsReconciler_def candidate_def map_filter_def)
qed

theorem main_misses_full_service_names_witness:
  "appsInNamespace (main_ApiEndpointsReconciler 60000000000 True)
     (sample_api ''x'' [sample_endpoint ''/a'' ''http://app1.ns1.svc.cluster.local''] []) = []"
proof -
  have "list_all plain (''app1'' @ ''.'' @ ''ns1'' @ ''.svc.'' @ ''cluster.local'')"
    by (simp add: plain_def is_alpha_def is_digit_def)
  from main_misses_full_service_names[OF this, of
      "sample_api ''x'' [sample_endpoint ''/a'' ''http://app1.ns1.svc.cluster.local''] []"
      "sample_endpoint ''/a'' ''http://app1.ns1.svc.cluster.local''" 60000000000 True]
  show ?thesis by (simp add: sample_defs)
qed

lemma outside_window_iff:
  "outside_window d now t \<longleftrightarrow>
     (if sint d = - (2 ^ 63) then t < now - 2 ^ 63 else sint d < now - t)"
proof (cases "sint d = - (2 ^ 63)")
  case True
  have "d = of_int (sint d)" by (simp add: scast_id)
  also have "\<dots> = - (2 ^ 63)" by (simp add: True)
  finally have "sint (- d) = - (2 ^ 63)" by simp
  with True show ?thesis by (simp add: outside_window_def)
next
  case False
  have "- (2 ^ 63) \<le> sint d" "sint d < 2 ^ 63"
    using sint_range_size[of d] by (simp_all add: word_size)
  with False have "sint (- d) = - sint d"
    by (simp add: sint_word_ariths signed_take_bit_int_eq_self)
  with False show ?thesis by (auto simp: outside_window_def)
qed

text \<open>
  C12. The synchronisation window: for every interval but the smallest 64-bit value, whose
  negation wraps around to itself, a timestamp is outside the window exactly when it is more than
  the interval old; for that smallest value, a negative interval, the wrap-around makes the window
  reach back 2 to the 63 nanoseconds.
\<close>

theorem outside_window_correct:
  "outside_window d now t \<longleftrightarrow>
     (if sint d = - (2 ^ 63) then t < now - 2 ^ 63 else sint d < now - t)"
  by (rule outside_window_iff)

end
