(* ===== verification/Store_Laws.thy ===== *)
theory Store_Laws
  imports ApiEndpoints_Controller
begin

text \<open>
  What the ApiEndpoints controller achieves on a cluster that keeps what is written to it. The
  client stays a parameter; the locale \<open>kube_store\<close> states the documented behaviour of the
  Kubernetes API that the controller relies on, for a cluster that no one else writes to during
  the run: reads and lists answer from the stored objects or fail, a write is stored or fails, the
  status is a subresource, a deleted object stays until its finalizers are gone, times are stored to
  the second, and the clock does not run backwards. A failed write may or may not have been stored.
\<close>

section \<open>Weakest preconditions\<close>

definition wp :: "('s, 'a) io \<Rightarrow> ('a \<Rightarrow> 's \<Rightarrow> bool) \<Rightarrow> 's \<Rightarrow> bool" where
  "wp m P s = (case run_state m s of (r, s') \<Rightarrow> P r s')"

lemma wp_return [simp]: "wp (State_Monad.return x) P s \<longleftrightarrow> P x s"
  by (simp add: wp_def)

lemma wp_bind [simp]: "wp (State_Monad.bind m f) P s \<longleftrightarrow> wp m (\<lambda>x. wp (f x) P) s"
  by (simp add: wp_def run_bind split: prod.split)

lemma wp_mono: "wp m P s \<Longrightarrow> (\<And>r s'. P r s' \<Longrightarrow> Q r s') \<Longrightarrow> wp m Q s"
  by (auto simp: wp_def split: prod.splits)

lemma wpI: "(\<And>r s'. run_state m s = (r, s') \<Longrightarrow> P r s') \<Longrightarrow> wp m P s"
  by (simp add: wp_def split: prod.split)

lemma wpD: "wp m P s \<Longrightarrow> run_state m s = (r, s') \<Longrightarrow> P r s'"
  by (simp add: wp_def)

section \<open>The stored objects\<close>

record cluster_view =
  vw_api :: "NamespacedName \<rightharpoonup> ApiEndpoints"
  vw_krakend :: "NamespacedName \<rightharpoonup> Krakend"
  vw_cm :: "NamespacedName \<rightharpoonup> ConfigMap"
  vw_np :: "NamespacedName \<rightharpoonup> NetworkPolicy"

definition meta_key :: "ObjectMeta \<Rightarrow> NamespacedName" where
  "meta_key m = \<lparr>nn_Namespace = om_Namespace m, nn_Name = om_Name m\<rparr>"

lemma ae_key_meta: "ae_key a = meta_key (ae_Meta a)"
  by (simp add: ae_key_def meta_key_def)

definition answers :: "'a result \<Rightarrow> 'a option \<Rightarrow> bool" where
  "answers r stored = (case r of Inr x \<Rightarrow> stored = Some x | Inl err \<Rightarrow> IsNotFound err \<longrightarrow> stored = None)"

lemma answers_simps [simp]:
  "answers (Inr x) stored \<longleftrightarrow> stored = Some x"
  "answers (Inl err) stored \<longleftrightarrow> (IsNotFound err \<longrightarrow> stored = None)"
  by (simp_all add: answers_def)

text \<open>The server gives every stored object a new resource version.\<close>

definition stamped :: "string \<Rightarrow> ObjectMeta \<Rightarrow> ObjectMeta" where
  "stamped v m = m\<lparr>om_ResourceVersion := v\<rparr>"

definition stored_cm :: "string \<Rightarrow> ConfigMap \<Rightarrow> ConfigMap" where
  "stored_cm v cm = cm\<lparr>cm_Meta := stamped v (cm_Meta cm)\<rparr>"

definition stored_np :: "string \<Rightarrow> NetworkPolicy \<Rightarrow> NetworkPolicy" where
  "stored_np v np = np\<lparr>np_Meta := stamped v (np_Meta np)\<rparr>"

text \<open>An update of the resource keeps its stored status and deletion mark, and ends a deletion when
  no finalizer is left.\<close>

definition stored_api :: "string \<Rightarrow> ApiEndpoints \<Rightarrow> ApiEndpoints \<Rightarrow> ApiEndpoints option" where
  "stored_api v old a =
     (if ae_deleted old \<and> om_Finalizers (ae_Meta a) = [] then None
      else Some (a\<lparr>ae_Meta := stamped v (ae_Meta a)\<lparr>om_DeletionTimestamp := om_DeletionTimestamp (ae_Meta old)\<rparr>,
                   ae_Status := ae_Status old\<rparr>))"

text \<open>An update of the status subresource changes the status only; times are kept to the second.\<close>

definition to_second :: "int \<Rightarrow> int" where
  "to_second t = (t div 1000000000) * 1000000000"

definition stored_status :: "string \<Rightarrow> ApiEndpoints \<Rightarrow> ApiEndpoints \<Rightarrow> ApiEndpoints" where
  "stored_status v old a =
     old\<lparr>ae_Meta := stamped v (ae_Meta old),
         ae_Status := (ae_Status a)\<lparr>es_SynchronizationTimestamp :=
           to_second (es_SynchronizationTimestamp (ae_Status a))\<rparr>\<rparr>"

definition in_namespace :: "cluster_view \<Rightarrow> string \<Rightarrow> ApiEndpoints set" where
  "in_namespace vw ns = {a. \<exists>nn. vw_api vw nn = Some a \<and> nn_Namespace nn = ns}"

section \<open>The laws\<close>

locale kube_store =
  fixes c :: "'s Client" and view :: "'s \<Rightarrow> cluster_view" and clock :: "'s \<Rightarrow> int"
  assumes get_api: "wp (Get_ApiEndpoints c nn)
      (\<lambda>r s'. view s' = view s \<and> clock s \<le> clock s' \<and> answers r (vw_api (view s) nn)) s"
    and get_krakend: "wp (Get_Krakend c nn)
      (\<lambda>r s'. view s' = view s \<and> clock s \<le> clock s' \<and> answers r (vw_krakend (view s) nn)) s"
    and get_cm: "wp (Get_ConfigMap c nn)
      (\<lambda>r s'. view s' = view s \<and> clock s \<le> clock s' \<and> answers r (vw_cm (view s) nn)) s"
    and get_np: "wp (Get_NetworkPolicy c nn)
      (\<lambda>r s'. view s' = view s \<and> clock s \<le> clock s' \<and> answers r (vw_np (view s) nn)) s"
    and list_api: "wp (List_ApiEndpoints c ns)
      (\<lambda>r s'. view s' = view s \<and> clock s \<le> clock s' \<and>
        (\<forall>l. r = Inr l \<longrightarrow> distinct (ael_Items l) \<and> set (ael_Items l) = in_namespace (view s) ns)) s"
    and now: "wp (Now c) (\<lambda>t s'. view s' = view s \<and> clock s \<le> t \<and> t \<le> clock s') s"
    and create_np: "wp (Create_NetworkPolicy c np)
      (\<lambda>r s'. clock s \<le> clock s' \<and>
        (view s' = view s \<and> \<not> is_ok r \<or>
         vw_np (view s) (meta_key (np_Meta np)) = None \<and>
         (\<exists>v. view s' = (view s)\<lparr>vw_np := (vw_np (view s))(meta_key (np_Meta np) \<mapsto> stored_np v np)\<rparr>))) s"
    and update_np: "wp (Update_NetworkPolicy c np)
      (\<lambda>r s'. clock s \<le> clock s' \<and>
        (view s' = view s \<and> \<not> is_ok r \<or>
         (\<exists>v. view s' = (view s)\<lparr>vw_np := (vw_np (view s))(meta_key (np_Meta np) \<mapsto> stored_np v np)\<rparr>))) s"
    and update_cm: "wp (Update_ConfigMap c cm)
      (\<lambda>r s'. clock s \<le> clock s' \<and>
        (view s' = view s \<and> \<not> is_ok r \<or>
         (\<exists>v. view s' = (view s)\<lparr>vw_cm := (vw_cm (view s))(meta_key (cm_Meta cm) \<mapsto> stored_cm v cm)\<rparr>))) s"
    and update_api: "wp (Update_ApiEndpoints c a)
      (\<lambda>r s'. clock s \<le> clock s' \<and>
        (view s' = view s \<and> \<not> is_ok r \<or>
         (\<exists>v old. vw_api (view s) (ae_key a) = Some old \<and>
           view s' = (view s)\<lparr>vw_api := (vw_api (view s))(ae_key a := stored_api v old a)\<rparr>))) s"
    and update_status: "wp (Status_Update_ApiEndpoints c a)
      (\<lambda>r s'. clock s \<le> clock s' \<and>
        (view s' = view s \<and> \<not> is_ok r \<or>
         (\<exists>v old. vw_api (view s) (ae_key a) = Some old \<and>
           view s' = (view s)\<lparr>vw_api := (vw_api (view s))(ae_key a \<mapsto> stored_status v old a)\<rparr>))) s"
    and api_key: "vw_api (view s) nn = Some a \<Longrightarrow> meta_key (ae_Meta a) = nn"
    and krakend_key: "vw_krakend (view s) nn = Some k \<Longrightarrow> meta_key (kr_Meta k) = nn"
    and cm_key: "vw_cm (view s) nn = Some cm \<Longrightarrow> meta_key (cm_Meta cm) = nn"
    and np_key: "vw_np (view s) nn = Some np \<Longrightarrow> meta_key (np_Meta np) = nn"

text \<open>The finalizer helpers of controller-runtime, as documented.\<close>

locale finalizer_ops =
  fixes lib :: Lib
  assumes add: "AddFinalizer lib a f =
      (f \<notin> set (om_Finalizers (ae_Meta a)),
       if f \<in> set (om_Finalizers (ae_Meta a)) then a
       else a\<lparr>ae_Meta := (ae_Meta a)\<lparr>om_Finalizers := om_Finalizers (ae_Meta a) @ [f]\<rparr>\<rparr>)"
    and remove: "RemoveFinalizer lib a f =
      (f \<in> set (om_Finalizers (ae_Meta a)),
       a\<lparr>ae_Meta := (ae_Meta a)\<lparr>om_Finalizers := filter (\<lambda>g. g \<noteq> f) (om_Finalizers (ae_Meta a))\<rparr>\<rparr>)"

section \<open>What a configuration in step with the cluster is\<close>

text \<open>
  A text renders the live resources of a Krakend's namespace when it is the JSON of their
  conversion, in some order; the Krakend is in step when its ConfigMap holds such a text.
\<close>

definition renders :: "Krakend \<Rightarrow> cluster_view \<Rightarrow> string \<Rightarrow> bool" where
  "renders k vw txt \<longleftrightarrow>
     (\<exists>items es. distinct items \<and> set items = {a \<in> in_namespace vw (kr_Namespace k). \<not> ae_deleted a} \<and>
        ToKrakendEndpoints k items = Inr es \<and> json_Marshal (json_Endpoints es) = Inr txt)"

definition cm_nn :: "Krakend \<Rightarrow> NamespacedName" where
  "cm_nn k = \<lparr>nn_Namespace = kr_Namespace k, nn_Name = cmName k\<rparr>"

definition in_step :: "Krakend \<Rightarrow> cluster_view \<Rightarrow> bool" where
  "in_step k vw \<longleftrightarrow>
     (\<exists>cm txt. vw_cm vw (cm_nn k) = Some cm \<and> cm_Data cm KrakendConfigMapKey = Some txt \<and> renders k vw txt)"

section \<open>Lemmas on configurations\<close>

definition well_keyed :: "cluster_view \<Rightarrow> bool" where
  "well_keyed vw \<longleftrightarrow> (\<forall>nn a. vw_api vw nn = Some a \<longrightarrow> meta_key (ae_Meta a) = nn)"

definition live_spec :: "cluster_view \<Rightarrow> NamespacedName \<rightharpoonup> ApiEndpointsSpec" where
  "live_spec vw nn =
     (case vw_api vw nn of None \<Rightarrow> None | Some a \<Rightarrow> (if ae_deleted a then None else Some (ae_Spec a)))"

lemma live_spec_Some:
  "live_spec vw nn = Some sp \<longleftrightarrow> (\<exists>a. vw_api vw nn = Some a \<and> \<not> ae_deleted a \<and> ae_Spec a = sp)"
  by (auto simp: live_spec_def split: option.splits if_splits)

lemma concat_result_map: "concat_result f (map g xs) = concat_result (\<lambda>x. f (g x)) xs"
  by (induction xs) (auto split: sum.split)

lemma concat_result_cong:
  "(\<And>x. x \<in> set xs \<Longrightarrow> f x = g x) \<Longrightarrow> concat_result f xs = concat_result g xs"
  by (induction xs) (auto split: sum.split)

lemma ToKrakendEndpoints_specs:
  assumes "\<And>a. a \<in> set items \<Longrightarrow> ae_Spec (f a) = ae_Spec a"
  shows "ToKrakendEndpoints k (map f items) = ToKrakendEndpoints k items"
  unfolding ToKrakendEndpoints_def concat_result_map by (rule concat_result_cong) (simp add: assms)

text \<open>A rendering depends on the names and specs of the live resources only.\<close>

lemma renders_mono:
  assumes "well_keyed vw" "well_keyed vw'" "live_spec vw = live_spec vw'" "renders k vw txt"
  shows "renders k vw' txt"
proof -
  obtain items es where items: "distinct items"
      "set items = {a \<in> in_namespace vw (kr_Namespace k). \<not> ae_deleted a}"
    and es: "ToKrakendEndpoints k items = Inr es" "json_Marshal (json_Endpoints es) = Inr txt"
    using assms(4) by (auto simp: renders_def)
  define f where "f a = the (vw_api vw' (ae_key a))" for a
  have at_key: "vw_api vw (ae_key a) = Some a \<and> nn_Namespace (ae_key a) = kr_Namespace k"
    if "a \<in> set items" for a
    using that items(2) assms(1) by (auto simp: in_namespace_def well_keyed_def ae_key_meta)
  have f: "vw_api vw' (ae_key a) = Some (f a)" "\<not> ae_deleted (f a)" "ae_Spec (f a) = ae_Spec a"
    "ae_key (f a) = ae_key a" if "a \<in> set items" for a
  proof -
    have "live_spec vw (ae_key a) = Some (ae_Spec a)"
      using that at_key items(2) by (auto simp: live_spec_Some)
    then obtain b where "vw_api vw' (ae_key a) = Some b" "\<not> ae_deleted b" "ae_Spec b = ae_Spec a"
      unfolding assms(3) live_spec_Some by blast
    with assms(2) show "vw_api vw' (ae_key a) = Some (f a)" "\<not> ae_deleted (f a)"
      "ae_Spec (f a) = ae_Spec a" "ae_key (f a) = ae_key a"
      by (auto simp: f_def well_keyed_def ae_key_meta)
  qed
  have "inj_on f (set items)"
    by (rule inj_onI) (metis at_key f(4) option.inject)
  then have "distinct (map f items)" using items(1) by (simp add: distinct_map)
  moreover have "set (map f items) = {a \<in> in_namespace vw' (kr_Namespace k). \<not> ae_deleted a}"
  proof (intro equalityI subsetI)
    fix b assume "b \<in> set (map f items)"
    then show "b \<in> {a \<in> in_namespace vw' (kr_Namespace k). \<not> ae_deleted a}"
      using f at_key by (fastforce simp: in_namespace_def)
  next
    fix b assume "b \<in> {a \<in> in_namespace vw' (kr_Namespace k). \<not> ae_deleted a}"
    then obtain nn where b: "vw_api vw' nn = Some b" "nn_Namespace nn = kr_Namespace k" "\<not> ae_deleted b"
      by (auto simp: in_namespace_def)
    then have "live_spec vw nn = Some (ae_Spec b)" by (simp add: assms(3) live_spec_Some)
    then obtain a where a: "vw_api vw nn = Some a" "\<not> ae_deleted a" unfolding live_spec_Some by blast
    then have "a \<in> set items" using b(2) items(2) by (auto simp: in_namespace_def)
    moreover have "f a = b" using a b(1) assms(1) by (auto simp: f_def well_keyed_def ae_key_meta)
    ultimately show "b \<in> set (map f items)" by auto
  qed
  moreover have "ToKrakendEndpoints k (map f items) = Inr es"
    using ToKrakendEndpoints_specs[of items f k] f(3) es(1) by simp
  ultimately show ?thesis using es(2) unfolding renders_def by blast
qed

lemma in_step_mono:
  assumes "in_step k vw" "well_keyed vw" "well_keyed vw'" "live_spec vw = live_spec vw'" "vw_cm vw' = vw_cm vw"
  shows "in_step k vw'"
  using assms renders_mono unfolding in_step_def by metis

section \<open>The laws as proof rules\<close>

context kube_store
begin

lemma well_keyed_view [simp]: "well_keyed (view s)"
  by (simp add: well_keyed_def api_key)

lemma wp_get_api:
  "(\<And>r s'. view s' = view s \<Longrightarrow> clock s \<le> clock s' \<Longrightarrow> answers r (vw_api (view s) nn) \<Longrightarrow> P r s') \<Longrightarrow>
     wp (Get_ApiEndpoints c nn) P s"
  by (rule wp_mono[OF get_api]) blast

lemma wp_get_krakend:
  "(\<And>r s'. view s' = view s \<Longrightarrow> clock s \<le> clock s' \<Longrightarrow> answers r (vw_krakend (view s) nn) \<Longrightarrow> P r s') \<Longrightarrow>
     wp (Get_Krakend c nn) P s"
  by (rule wp_mono[OF get_krakend]) blast

lemma wp_get_cm:
  "(\<And>r s'. view s' = view s \<Longrightarrow> clock s \<le> clock s' \<Longrightarrow> answers r (vw_cm (view s) nn) \<Longrightarrow> P r s') \<Longrightarrow>
     wp (Get_ConfigMap c nn) P s"
  by (rule wp_mono[OF get_cm]) blast

lemma wp_get_np:
  "(\<And>r s'. view s' = view s \<Longrightarrow> clock s \<le> clock s' \<Longrightarrow> answers r (vw_np (view s) nn) \<Longrightarrow> P r s') \<Longrightarrow>
     wp (Get_NetworkPolicy c nn) P s"
  by (rule wp_mono[OF get_np]) blast

lemma wp_list_api:
  "(\<And>r s'. view s' = view s \<Longrightarrow> clock s \<le> clock s' \<Longrightarrow>
      (\<And>l. r = Inr l \<Longrightarrow> distinct (ael_Items l) \<and> set (ael_Items l) = in_namespace (view s) ns) \<Longrightarrow> P r s') \<Longrightarrow>
     wp (List_ApiEndpoints c ns) P s"
  by (rule wp_mono[OF list_api]) blast

lemma wp_now:
  "(\<And>t s'. view s' = view s \<Longrightarrow> clock s \<le> t \<Longrightarrow> t \<le> clock s' \<Longrightarrow> P t s') \<Longrightarrow> wp (Now c) P s"
  by (rule wp_mono[OF now]) blast

lemma wp_update_cm:
  assumes "\<And>r s'. clock s \<le> clock s' \<Longrightarrow> view s' = view s \<Longrightarrow> \<not> is_ok r \<Longrightarrow> P r s'"
    and "\<And>r s' v. clock s \<le> clock s' \<Longrightarrow>
      view s' = (view s)\<lparr>vw_cm := (vw_cm (view s))(meta_key (cm_Meta cm) \<mapsto> stored_cm v cm)\<rparr> \<Longrightarrow> P r s'"
  shows "wp (Update_ConfigMap c cm) P s"
  by (rule wp_mono[OF update_cm]) (use assms in blast)

lemma wp_create_np:
  assumes "\<And>r s'. clock s \<le> clock s' \<Longrightarrow> view s' = view s \<Longrightarrow> \<not> is_ok r \<Longrightarrow> P r s'"
    and "\<And>r s' v. clock s \<le> clock s' \<Longrightarrow> vw_np (view s) (meta_key (np_Meta np)) = None \<Longrightarrow>
      view s' = (view s)\<lparr>vw_np := (vw_np (view s))(meta_key (np_Meta np) \<mapsto> stored_np v np)\<rparr> \<Longrightarrow> P r s'"
  shows "wp (Create_NetworkPolicy c np) P s"
  by (rule wp_mono[OF create_np]) (use assms in blast)

lemma wp_update_np:
  assumes "\<And>r s'. clock s \<le> clock s' \<Longrightarrow> view s' = view s \<Longrightarrow> \<not> is_ok r \<Longrightarrow> P r s'"
    and "\<And>r s' v. clock s \<le> clock s' \<Longrightarrow>
      view s' = (view s)\<lparr>vw_np := (vw_np (view s))(meta_key (np_Meta np) \<mapsto> stored_np v np)\<rparr> \<Longrightarrow> P r s'"
  shows "wp (Update_NetworkPolicy c np) P s"
  by (rule wp_mono[OF update_np]) (use assms in blast)

lemma wp_update_api:
  assumes "\<And>r s'. clock s \<le> clock s' \<Longrightarrow> view s' = view s \<Longrightarrow> \<not> is_ok r \<Longrightarrow> P r s'"
    and "\<And>r s' v old. clock s \<le> clock s' \<Longrightarrow> vw_api (view s) (ae_key a) = Some old \<Longrightarrow>
      view s' = (view s)\<lparr>vw_api := (vw_api (view s))(ae_key a := stored_api v old a)\<rparr> \<Longrightarrow> P r s'"
  shows "wp (Update_ApiEndpoints c a) P s"
  by (rule wp_mono[OF update_api]) (use assms in blast)

lemma wp_update_status:
  assumes "\<And>r s'. clock s \<le> clock s' \<Longrightarrow> view s' = view s \<Longrightarrow> \<not> is_ok r \<Longrightarrow> P r s'"
    and "\<And>r s' v old. clock s \<le> clock s' \<Longrightarrow> vw_api (view s) (ae_key a) = Some old \<Longrightarrow>
      view s' = (view s)\<lparr>vw_api := (vw_api (view s))(ae_key a \<mapsto> stored_status v old a)\<rparr> \<Longrightarrow> P r s'"
  shows "wp (Status_Update_ApiEndpoints c a) P s"
  by (rule wp_mono[OF update_status]) (use assms in blast)

lemmas wp_reads = wp_get_api wp_get_krakend wp_get_cm wp_get_np wp_list_api wp_now

end

end
