(* ===== verification/Controller_Store.thy ===== *)
theory Controller_Store
  imports Store_Laws
begin

text \<open>
  What each operation of the ApiEndpoints controller does to a store that obeys the laws of
  \<^verbatim>\<open>Store_Laws\<close>, bottom up to \<open>Reconcile\<close>: publication of the configuration, the network policies,
  the metadata and status of the resource, and its release. The lemmas are proved once, inside the
  locales, for every client that obeys the laws.
\<close>

section \<open>What the operations of the controller do to the store\<close>

text \<open>
  The change a step may make to a single kind of object, with the clock moving forward.
\<close>

definition cm_only :: "cluster_view \<Rightarrow> cluster_view \<Rightarrow> bool" where
  "cm_only vw vw' \<longleftrightarrow> (\<exists>m. vw' = vw\<lparr>vw_cm := m\<rparr>)"

definition np_only :: "cluster_view \<Rightarrow> cluster_view \<Rightarrow> bool" where
  "np_only vw vw' \<longleftrightarrow> (\<exists>m. vw' = vw\<lparr>vw_np := m\<rparr>)"

text \<open>The resource at one key may change, but not what is live of it.\<close>

definition api_only :: "NamespacedName \<Rightarrow> cluster_view \<Rightarrow> cluster_view \<Rightarrow> bool" where
  "api_only nn vw vw' \<longleftrightarrow>
     (\<exists>x. vw' = vw\<lparr>vw_api := (vw_api vw)(nn := x)\<rparr>) \<and> live_spec vw' = live_spec vw"

lemma only_refl [simp]: "cm_only vw vw" "np_only vw vw" "api_only nn vw vw"
  by (auto simp: cm_only_def np_only_def api_only_def intro: exI[of _ "vw_cm vw"] exI[of _ "vw_np vw"]
      exI[of _ "vw_api vw nn"])

lemma np_only_trans: "np_only vw vw' \<Longrightarrow> np_only vw' vw'' \<Longrightarrow> np_only vw vw''"
  by (auto simp: np_only_def)

lemma api_only_trans: "api_only nn vw vw' \<Longrightarrow> api_only nn vw' vw'' \<Longrightarrow> api_only nn vw vw''"
  by (auto simp: api_only_def)

lemma cm_only_simps: 
  assumes "cm_only vw vw'"
  shows "vw_api vw' = vw_api vw" "vw_krakend vw' = vw_krakend vw" "vw_np vw' = vw_np vw" "live_spec vw' = live_spec vw"
  using assms by (auto simp: cm_only_def live_spec_def)

lemma np_only_simps:
  assumes "np_only vw vw'"
  shows "vw_api vw' = vw_api vw" "vw_krakend vw' = vw_krakend vw" "vw_cm vw' = vw_cm vw" "live_spec vw' = live_spec vw"
  using assms by (auto simp: np_only_def live_spec_def)

lemma api_only_simps:
  assumes "api_only nn vw vw'"
  shows "vw_krakend vw' = vw_krakend vw" "vw_cm vw' = vw_cm vw" "vw_np vw' = vw_np vw" "live_spec vw' = live_spec vw"
  using assms by (auto simp: api_only_def)

lemma live_spec_upd:
  "live_spec (vw\<lparr>vw_api := (vw_api vw)(nn := x)\<rparr>) =
     (live_spec vw)(nn := (case x of None \<Rightarrow> None | Some a \<Rightarrow> (if ae_deleted a then None else Some (ae_Spec a))))"
  by (auto simp: live_spec_def fun_eq_iff)

lemma live_spec_stored_api:
  assumes "vw_api vw nn = Some old" "ae_Spec a = ae_Spec old"
  shows "live_spec (vw\<lparr>vw_api := (vw_api vw)(nn := stored_api v old a)\<rparr>) = live_spec vw"
  using assms by (auto simp: live_spec_upd stored_api_def stamped_def fun_eq_iff live_spec_def)

lemma live_spec_stored_status:
  assumes "vw_api vw nn = Some old"
  shows "live_spec (vw\<lparr>vw_api := (vw_api vw)(nn \<mapsto> stored_status v old a)\<rparr>) = live_spec vw"
  using assms by (auto simp: live_spec_upd stored_status_def stamped_def fun_eq_iff live_spec_def)

context kube_store
begin

lemma wp_publish:
  assumes cm: "vw_cm (view s) (cm_nn k) = Some cm"
    and l: "distinct (ael_Items l)" "set (ael_Items l) = in_namespace (view s) (kr_Namespace k)"
    and rendered: "partials_text k l = Inr txt"
  shows "wp (Update_ConfigMap c (cm\<lparr>cm_Data := (cm_Data cm)(KrakendConfigMapKey \<mapsto> txt)\<rparr>))
    (\<lambda>u s'. clock s \<le> clock s' \<and> cm_only (view s) (view s') \<and> (is_ok u \<longrightarrow> in_step k (view s'))) s"
proof (rule wp_update_cm, goal_cases)
  case (1 r s')
  then show ?case by simp
next
  case (2 r s' v)
  have "meta_key (cm_Meta cm) = cm_nn k" using cm by (rule cm_key)
  with 2(2) have vw: "view s' = (view s)\<lparr>vw_cm := (vw_cm (view s))(cm_nn k \<mapsto>
      stored_cm v (cm\<lparr>cm_Data := (cm_Data cm)(KrakendConfigMapKey \<mapsto> txt)\<rparr>))\<rparr>" by simp
  have "renders k (view s') txt"
    using l rendered unfolding renders_def vw
    by (intro exI[of _ "live (ael_Items l)"])
      (auto simp: partials_text_def live_def in_namespace_def split: sum.splits)
  then have "in_step k (view s')" by (simp add: in_step_def vw stored_cm_def)
  moreover have "cm_only (view s) (view s')" using vw unfolding cm_only_def by blast
  ultimately show ?case using 2(1) by blast
qed

lemma wp_publish_partials:
  assumes "vw_cm (view s) (cm_nn k) = Some cm"
  shows "wp (publish_partials c k cm)
     (\<lambda>r s'. clock s \<le> clock s' \<and> cm_only (view s) (view s') \<and> (r = None \<longrightarrow> in_step k (view s'))) s"
  unfolding publish_partials_def wp_bind
proof (rule wp_list_api, goal_cases)
  case (1 l s1)
  show ?case
  proof (cases l)
    case (Inl e)
    with 1 show ?thesis by simp
  next
    case (Inr l')
    then have "distinct (ael_Items l')" "set (ael_Items l') = in_namespace (view s1) (kr_Namespace k)"
      using 1 by auto
    note publish = wp_mono[OF wp_publish[OF _ this]]
    show ?thesis
    proof (cases "partials_text k l'")
      case (Inl e)
      with \<open>l = Inr l'\<close> 1 show ?thesis by simp
    next
      case (Inr partials)
      have "vw_cm (view s1) (cm_nn k) = Some cm" using assms 1 by simp
      from publish[OF this Inr] show ?thesis
        using 1 \<open>l = Inr l'\<close> Inr by (auto split: sum.split)
    qed
  qed
qed

lemma wp_updateKrakendConfigMap:
  "wp (updateKrakendConfigMap c k)
     (\<lambda>r s'. clock s \<le> clock s' \<and> cm_only (view s) (view s') \<and> (r = None \<longrightarrow> in_step k (view s'))) s"
  unfolding updateKrakendConfigMap_def wp_bind cm_nn_def[symmetric]
proof (rule wp_get_cm, goal_cases)
  case (1 g s1)
  then show ?case
    by (cases g) (auto intro: wp_mono[OF wp_publish_partials])
qed

end

definition np_nn :: "ApiEndpoints \<Rightarrow> string \<Rightarrow> NamespacedName" where
  "np_nn a app = \<lparr>nn_Namespace = ae_Namespace a, nn_Name = npName a app\<rparr>"

text \<open>
  The policies after the loop: existing ones are kept, one is there for every app of the list, and
  no other is added. Only the resource version of a policy may differ.
\<close>

definition kept_np :: "cluster_view \<Rightarrow> cluster_view \<Rightarrow> bool" where
  "kept_np vw vw' \<longleftrightarrow>
     (\<forall>nn np. vw_np vw nn = Some np \<longrightarrow> (\<exists>v. vw_np vw' nn = Some (stored_np v np)))"

definition covered :: "ApiEndpoints \<Rightarrow> string list \<Rightarrow> cluster_view \<Rightarrow> cluster_view \<Rightarrow> bool" where
  "covered a apps vw vw' \<longleftrightarrow>
     (\<forall>app \<in> set apps. \<exists>v. vw_np vw' (np_nn a app) =
        Some (stored_np v (case vw_np vw (np_nn a app) of None \<Rightarrow> app_netpol a app | Some np \<Rightarrow> np)))"

definition others_np :: "ApiEndpoints \<Rightarrow> string list \<Rightarrow> cluster_view \<Rightarrow> cluster_view \<Rightarrow> bool" where
  "others_np a apps vw vw' \<longleftrightarrow> (\<forall>nn. nn \<notin> np_nn a ` set apps \<longrightarrow> vw_np vw' nn = vw_np vw nn)"

lemma stored_np_stored [simp]: "stored_np v (stored_np w np) = stored_np v np"
  by (simp add: stored_np_def stamped_def)

lemma stored_np_self: "stored_np (om_ResourceVersion (np_Meta np)) np = np"
  by (simp add: stored_np_def stamped_def)

lemma np_nn_inject [simp]: "np_nn a app = np_nn a app' \<longleftrightarrow> app = app'"
  by (simp add: np_nn_def npName_def)

lemma app_netpol_key [simp]: "meta_key (np_Meta (app_netpol a app)) = np_nn a app"
  by (simp add: app_netpol_def SetOwnerReferences_np_def AppAllowKrakendIngressNetpol_def netpol_meta_def
      meta_key_def np_nn_def zero_ObjectMeta_def)

lemma kept_np_refl [simp]: "kept_np vw vw"
  unfolding kept_np_def using stored_np_self by metis

lemma kept_np_trans: "kept_np vw vw' \<Longrightarrow> kept_np vw' vw'' \<Longrightarrow> kept_np vw vw''"
  unfolding kept_np_def by (metis stored_np_stored)

lemma kept_np_upd:
  assumes "vw_np vw nn = None \<or> vw_np vw nn = Some np"
  shows "kept_np vw (vw\<lparr>vw_np := (vw_np vw)(nn \<mapsto> stored_np v np)\<rparr>)"
  using assms stored_np_self[symmetric] unfolding kept_np_def by (auto intro: exI)

lemma covered_Cons:
  assumes "covered a [app] vw vw1" "kept_np vw1 vw2" "covered a apps vw1 vw2" "others_np a [app] vw vw1"
  shows "covered a (app # apps) vw vw2"
  unfolding covered_def
proof
  fix x assume x: "x \<in> set (app # apps)"
  show "\<exists>v. vw_np vw2 (np_nn a x) =
      Some (stored_np v (case vw_np vw (np_nn a x) of None \<Rightarrow> app_netpol a x | Some np \<Rightarrow> np))"
  proof (cases "x = app")
    case True
    with assms(1,2) show ?thesis by (fastforce simp: covered_def kept_np_def)
  next
    case False
    then have "vw_np vw1 (np_nn a x) = vw_np vw (np_nn a x)"
      using assms(4) by (simp add: others_np_def)
    with x False assms(3) show ?thesis unfolding covered_def by (metis set_ConsD)
  qed
qed

lemma others_np_Cons:
  "others_np a [app] vw vw1 \<Longrightarrow> others_np a apps vw1 vw2 \<Longrightarrow> others_np a (app # apps) vw vw2"
  by (simp add: others_np_def)

definition np_stepped :: "ApiEndpoints \<Rightarrow> string list \<Rightarrow> cluster_view \<Rightarrow> cluster_view \<Rightarrow> bool" where
  "np_stepped a apps vw vw' \<longleftrightarrow> np_only vw vw' \<and> kept_np vw vw' \<and> others_np a apps vw vw'"

lemma np_stepped_refl [simp]: "np_stepped a apps vw vw"
  by (simp add: np_stepped_def others_np_def)

lemma np_stepped_Cons:
  "np_stepped a [app] vw vw1 \<Longrightarrow> np_stepped a apps vw1 vw2 \<Longrightarrow> np_stepped a (app # apps) vw vw2"
  by (auto simp: np_stepped_def intro: np_only_trans kept_np_trans others_np_Cons)

lemma np_stepped_covered:
  "np_stepped a [app] vw vw1 \<Longrightarrow> covered a [app] vw vw1 \<Longrightarrow> np_stepped a apps vw1 vw2 \<Longrightarrow>
     covered a apps vw1 vw2 \<Longrightarrow> covered a (app # apps) vw vw2"
  by (auto simp: np_stepped_def intro: covered_Cons)

lemma np_stepped_one: "np_stepped a [app] vw vw1 \<Longrightarrow> np_stepped a (app # apps) vw vw1"
  by (auto simp: np_stepped_def others_np_def)

lemma np_stepped_upd:
  assumes "vw_np vw (np_nn a app) = None \<or> vw_np vw (np_nn a app) = Some np"
    and "vw' = vw\<lparr>vw_np := (vw_np vw)(np_nn a app \<mapsto> stored_np v np)\<rparr>"
  shows "np_stepped a [app] vw vw'"
  using assms kept_np_upd[OF assms(1), of v]
  by (auto simp: np_stepped_def np_only_def others_np_def)

context kube_store
begin

lemma wp_ensure_one:
  "wp (Get_NetworkPolicy c (np_nn a app))
     (\<lambda>g s1. clock s \<le> clock s1 \<and> view s1 = view s \<and>
        (case g of
           Inl err \<Rightarrow> IsNotFound err \<longrightarrow>
             wp (Create_NetworkPolicy c (app_netpol a app))
               (\<lambda>r s2. clock s \<le> clock s2 \<and> np_stepped a [app] (view s) (view s2) \<and>
                  (is_ok r \<longrightarrow> covered a [app] (view s) (view s2))) s1
         | Inr np \<Rightarrow>
             wp (Update_NetworkPolicy c np)
               (\<lambda>r s2. clock s \<le> clock s2 \<and> np_stepped a [app] (view s) (view s2) \<and>
                  (is_ok r \<longrightarrow> covered a [app] (view s) (view s2))) s1)) s"
proof (rule wp_get_np, goal_cases)
  case (1 g s1)
  have upd: "np_stepped a [app] (view s) vw" "covered a [app] (view s) vw"
    if "vw = (view s)\<lparr>vw_np := (vw_np (view s))(np_nn a app \<mapsto> stored_np v np)\<rparr>"
      "vw_np (view s) (np_nn a app) = None \<and> np = app_netpol a app \<or> vw_np (view s) (np_nn a app) = Some np"
    for vw v np
    using that np_stepped_upd[of "view s" a app np vw v] by (auto simp: covered_def)
  show ?case
  proof (cases g)
    case (Inl err)
    with 1 show ?thesis
      by (auto simp: upd[OF refl] intro!: wp_create_np)
  next
    case (Inr np)
    then have "vw_np (view s) (np_nn a app) = Some np" using 1 by simp
    then have "meta_key (np_Meta np) = np_nn a app" "vw_np (view s) (np_nn a app) = Some np"
      by (auto dest: np_key)
    with 1 Inr show ?thesis
      by (auto simp: upd[OF refl] intro!: wp_update_np)
  qed
qed

lemma wp_ensureAppIngressNetpol_loop:
  "wp (ensureAppIngressNetpol_loop c a apps)
     (\<lambda>r s'. clock s \<le> clock s' \<and> np_stepped a apps (view s) (view s') \<and>
        (r = None \<longrightarrow> covered a apps (view s) (view s'))) s"
proof (induction apps arbitrary: s)
  case Nil
  show ?case by (simp add: covered_def)
next
  case (Cons app apps)
  have rest: "wp (ensureAppIngressNetpol_loop c a apps)
      (\<lambda>r s'. clock s \<le> clock s' \<and> np_stepped a (app # apps) (view s) (view s') \<and>
         (r = None \<longrightarrow> covered a (app # apps) (view s) (view s'))) s2"
    if "clock s \<le> clock s2" "np_stepped a [app] (view s) (view s2)" "covered a [app] (view s) (view s2)" for s2
    using that
    by (auto intro!: wp_mono[OF Cons.IH] intro: np_stepped_Cons np_stepped_covered)
  show ?case
    unfolding ensureAppIngressNetpol_loop.simps wp_bind np_nn_def[symmetric]
  proof (rule wp_mono[OF wp_ensure_one], goal_cases)
    case (1 g s1)
    then show ?case
      by (cases g)
        (auto split: sum.split intro: rest np_stepped_one elim!: wp_mono)
  qed
qed

end

section \<open>Metadata and status\<close>

locale api_sync = kube_store + finalizer_ops

text \<open>The resource after its finalizer was taken away.\<close>

definition released :: "ApiEndpoints \<Rightarrow> cluster_view \<Rightarrow> bool" where
  "released a vw \<longleftrightarrow>
     (case vw_api vw (ae_key a) of
        None \<Rightarrow> True
      | Some a' \<Rightarrow> KrakendFinalizer \<notin> set (om_Finalizers (ae_Meta a')) \<and> om_Finalizers (ae_Meta a) \<noteq> [KrakendFinalizer])"

text \<open>The resource after a complete synchronisation at time \<open>t\<close>.\<close>

definition recorded :: "NamespacedName \<Rightarrow> string \<Rightarrow> int \<Rightarrow> cluster_view \<Rightarrow> cluster_view \<Rightarrow> bool" where
  "recorded req h t vw vw' \<longleftrightarrow>
     (\<exists>a a'. vw_api vw req = Some a \<and> vw_api vw' req = Some a' \<and> ae_Spec a' = ae_Spec a \<and>
        om_DeletionTimestamp (ae_Meta a') = om_DeletionTimestamp (ae_Meta a) \<and>
        KrakendFinalizer \<in> set (om_Finalizers (ae_Meta a')) \<and> om_OwnerReferences (ae_Meta a') \<noteq> None \<and>
        ae_Status a' = \<lparr>es_SynchronizationTimestamp = to_second t, es_SynchronizationHash = h\<rparr>)"

lemma api_onlyI:
  assumes "vw_api vw nn = Some old" "ae_Spec a = ae_Spec old"
    and "vw' = vw\<lparr>vw_api := (vw_api vw)(nn := stored_api v old a)\<rparr>"
  shows "api_only nn vw vw'"
  using assms live_spec_stored_api[OF assms(1,2), of v] unfolding api_only_def by blast

lemma api_onlyI_status:
  assumes "vw_api vw nn = Some old"
    and "vw' = vw\<lparr>vw_api := (vw_api vw)(nn \<mapsto> stored_status v old a)\<rparr>"
  shows "api_only nn vw vw'"
  using assms live_spec_stored_status[OF assms(1), of v a] unfolding api_only_def by blast

context api_sync
begin

lemma wp_remove_finalizer:
  assumes "vw_api (view s) (ae_key a) = Some a" "ae_deleted a"
  shows "wp (remove_finalizer c lib a)
    (\<lambda>r s'. clock s \<le> clock s' \<and> api_only (ae_key a) (view s) (view s') \<and>
       (r = None \<longrightarrow> released a (view s'))) s"
proof (cases "KrakendFinalizer \<in> set (om_Finalizers (ae_Meta a))")
  case False
  with assms show ?thesis
    by (auto simp: remove_finalizer_def remove released_def)
next
  case True
  let ?a = "a\<lparr>ae_Meta := (ae_Meta a)\<lparr>om_Finalizers := filter (\<lambda>g. g \<noteq> KrakendFinalizer) (om_Finalizers (ae_Meta a))\<rparr>\<rparr>"
  have key: "ae_key ?a = ae_key a" by (simp add: ae_key_def)
  have "wp (Update_ApiEndpoints c ?a)
    (\<lambda>u s'. clock s \<le> clock s' \<and> api_only (ae_key a) (view s) (view s') \<and> (is_ok u \<longrightarrow> released a (view s'))) s"
  proof (rule wp_update_api, goal_cases)
    case (1 r s')
    then show ?case by simp
  next
    case (2 r s' v old)
    with assms(1) key have "old = a" by simp
    with 2 key assms(1) have vw: "view s' = (view s)\<lparr>vw_api := (vw_api (view s))(ae_key a := stored_api v a ?a)\<rparr>"
      by simp
    have "api_only (ae_key a) (view s) (view s')"
      by (rule api_onlyI[OF assms(1) _ vw]) simp
    moreover have "released a (view s')"
      using assms(2) by (auto simp: released_def vw stored_api_def stamped_def)
    ultimately show ?case using 2(1) by blast
  qed
  then show ?thesis
    using True by (auto simp: remove_finalizer_def remove split: sum.split elim!: wp_mono)
qed

lemma wp_status_update:
  assumes a: "vw_api (view s) req = Some a"
  shows "wp (Status_Update_ApiEndpoints c
      (a\<lparr>ae_Status := \<lparr>es_SynchronizationTimestamp = t, es_SynchronizationHash = h\<rparr>\<rparr>))
    (\<lambda>u s'. clock s \<le> clock s' \<and> api_only req (view s) (view s') \<and>
       (is_ok u \<longrightarrow> (\<exists>v. vw_api (view s') req = Some (a\<lparr>ae_Meta := stamped v (ae_Meta a),
            ae_Status := \<lparr>es_SynchronizationTimestamp = to_second t, es_SynchronizationHash = h\<rparr>\<rparr>)))) s"
proof (rule wp_update_status, goal_cases)
  case (1 r s')
  then show ?case by simp
next
  case (2 r s' v old)
  let ?a = "a\<lparr>ae_Status := \<lparr>es_SynchronizationTimestamp = t, es_SynchronizationHash = h\<rparr>\<rparr>"
  have key: "ae_key ?a = req" using a by (auto simp: ae_key_meta dest: api_key)
  with 2 a have "old = a" by simp
  with 2 key have vw: "view s' = (view s)\<lparr>vw_api := (vw_api (view s))(req \<mapsto> stored_status v a ?a)\<rparr>"
    by simp
  have "vw_api (view s') req = Some (a\<lparr>ae_Meta := stamped v (ae_Meta a),
      ae_Status := \<lparr>es_SynchronizationTimestamp = to_second t, es_SynchronizationHash = h\<rparr>\<rparr>)"
    by (simp add: vw stored_status_def)
  with 2(1) api_onlyI_status[OF a vw] show ?case by blast
qed

lemma wp_write_status:
  "wp (write_status c req h)
    (\<lambda>r s'. clock s \<le> clock s' \<and> api_only req (view s) (view s') \<and>
       (r = None \<longrightarrow> (\<exists>a t v. clock s \<le> t \<and> t \<le> clock s' \<and> vw_api (view s) req = Some a \<and>
          vw_api (view s') req = Some (a\<lparr>ae_Meta := stamped v (ae_Meta a),
            ae_Status := \<lparr>es_SynchronizationTimestamp = to_second t, es_SynchronizationHash = h\<rparr>\<rparr>)))) s"
  unfolding write_status_def wp_bind
proof (rule wp_get_api)
  fix g s1
  assume s1: "view s1 = view s" "clock s \<le> clock s1" "answers g (vw_api (view s) req)"
  let ?post = "\<lambda>r s'. clock s \<le> clock s' \<and> api_only req (view s) (view s') \<and>
       (r = None \<longrightarrow> (\<exists>a t v. clock s \<le> t \<and> t \<le> clock s' \<and> vw_api (view s) req = Some a \<and>
          vw_api (view s') req = Some (a\<lparr>ae_Meta := stamped v (ae_Meta a),
            ae_Status := \<lparr>es_SynchronizationTimestamp = to_second t, es_SynchronizationHash = h\<rparr>\<rparr>)))"
  have "wp (Status_Update_ApiEndpoints c
        (a\<lparr>ae_Status := \<lparr>es_SynchronizationTimestamp = t, es_SynchronizationHash = h\<rparr>\<rparr>))
      (\<lambda>u. wp (case u of Inl err \<Rightarrow> State_Monad.return (Some err) | Inr _ \<Rightarrow> State_Monad.return None) ?post) s2"
    if "view s2 = view s" "clock s \<le> t" "t \<le> clock s2" "vw_api (view s) req = Some a" for a t s2
  proof -
    have a: "vw_api (view s2) req = Some a" using that by simp
    show ?thesis
    proof (rule wp_mono[OF wp_status_update[OF a]], goal_cases)
      case (1 u s')
      with that show ?case by (cases u) auto
    qed
  qed
  with s1 show "wp (case g of Inl err \<Rightarrow> State_Monad.return (Some err)
      | Inr a \<Rightarrow> do {
          t \<leftarrow> Now c;
          u \<leftarrow> Status_Update_ApiEndpoints c
                 (a\<lparr>ae_Status := \<lparr>es_SynchronizationTimestamp = t, es_SynchronizationHash = h\<rparr>\<rparr>);
          (case u of Inl err \<Rightarrow> State_Monad.return (Some err) | Inr _ \<Rightarrow> State_Monad.return None)
        }) ?post s1"
    by (cases g) (simp, simp add: wp_now)
qed

lemma ensure_metadata_ok:
  assumes "ensure_metadata lib k a = (needs, a')"
  shows "ae_Spec a' = ae_Spec a" "ae_key a' = ae_key a"
    "om_DeletionTimestamp (ae_Meta a') = om_DeletionTimestamp (ae_Meta a)"
    "KrakendFinalizer \<in> set (om_Finalizers (ae_Meta a'))" "om_OwnerReferences (ae_Meta a') \<noteq> None"
    "\<not> needs \<Longrightarrow> a' = a"
  using assms by (auto simp: ensure_metadata_def add ae_key_def split: if_splits)

text \<open>A resource whose metadata is in place is ready for its status.\<close>

lemma wp_write_status_recorded:
  assumes s2: "clock s \<le> clock s2" "api_only req (view s) (view s2)"
    and a: "vw_api (view s) req = Some a" "vw_api (view s2) req = Some a2"
    and ready: "ae_Spec a2 = ae_Spec a" "om_DeletionTimestamp (ae_Meta a2) = om_DeletionTimestamp (ae_Meta a)"
      "KrakendFinalizer \<in> set (om_Finalizers (ae_Meta a2))" "om_OwnerReferences (ae_Meta a2) \<noteq> None"
  shows "wp (write_status c req h)
    (\<lambda>r s'. clock s \<le> clock s' \<and> api_only req (view s) (view s') \<and>
       (r = None \<longrightarrow> (\<exists>t. clock s \<le> t \<and> t \<le> clock s' \<and> recorded req h t (view s) (view s')))) s2"
proof (rule wp_mono[OF wp_write_status], goal_cases)
  case (1 r s')
  have "\<exists>t. clock s \<le> t \<and> t \<le> clock s' \<and> recorded req h t (view s) (view s')" if "r = None"
  proof -
    from 1 that a(2) obtain t v where "clock s2 \<le> t" "t \<le> clock s'"
      "vw_api (view s') req = Some (a2\<lparr>ae_Meta := stamped v (ae_Meta a2),
         ae_Status := \<lparr>es_SynchronizationTimestamp = to_second t, es_SynchronizationHash = h\<rparr>\<rparr>)" by auto
    with s2(1) a(1) ready show ?thesis
      by (intro exI[of _ t]) (auto simp: recorded_def stamped_def)
  qed
  with 1 s2 show ?case by (auto intro: api_only_trans)
qed

lemma wp_finish_sync:
  "wp (finish_sync c lib req k h)
    (\<lambda>r s'. clock s \<le> clock s' \<and> api_only req (view s) (view s') \<and>
       (r = None \<longrightarrow> (\<exists>t. clock s \<le> t \<and> t \<le> clock s' \<and> recorded req h t (view s) (view s')))) s"
  (is "wp _ ?post s")
  unfolding finish_sync_def wp_bind
proof (rule wp_get_api)
  fix g s1
  assume s1: "view s1 = view s" "clock s \<le> clock s1" "answers g (vw_api (view s) req)"
  have written: "wp (Update_ApiEndpoints c a')
      (\<lambda>u. wp (case u of Inl err \<Rightarrow> State_Monad.return (Some err) | Inr _ \<Rightarrow> write_status c req h) ?post) s1"
    if a: "vw_api (view s) req = Some a" and a': "ensure_metadata lib k a = (needs, a')" for a needs a'
  proof (rule wp_update_api, goal_cases)
    case (1 u s2)
    with s1 show ?case by (cases u) auto
  next
    case (2 u s2 v old)
    have "ae_key a' = req" using a ensure_metadata_ok(2)[OF a'] by (auto simp: ae_key_meta dest: api_key)
    with 2 s1 a have old: "old = a"
      and vw: "view s2 = (view s)\<lparr>vw_api := (vw_api (view s))(req := stored_api v a a')\<rparr>" by auto
    have only: "api_only req (view s) (view s2)"
      by (rule api_onlyI[OF a ensure_metadata_ok(1)[OF a'] vw])
    have "wp (write_status c req h) ?post s2"
      using ensure_metadata_ok(1,3-5)[OF a'] 2(1) s1(2)
      by (intro wp_write_status_recorded[OF _ only a, of "the (stored_api v a a')"])
        (auto simp: vw stored_api_def stamped_def)
    with 2(1) s1(2) only show ?case by (cases u) auto
  qed
  show "wp (case g of Inl err \<Rightarrow> State_Monad.return (Some err)
      | Inr endpoints \<Rightarrow> (case ensure_metadata lib k endpoints of (needsUpdate, endpoints') \<Rightarrow>
          (if needsUpdate then do {
             u \<leftarrow> Update_ApiEndpoints c endpoints';
             (case u of Inl err \<Rightarrow> State_Monad.return (Some err) | Inr _ \<Rightarrow> write_status c req h)
           }
           else write_status c req h))) ?post s1"
  proof (cases g)
    case (Inl e)
    with s1 show ?thesis by simp
  next
    case (Inr a)
    with s1 have a: "vw_api (view s) req = Some a" by simp
    obtain needs a' where a': "ensure_metadata lib k a = (needs, a')" by fastforce
    show ?thesis
    proof (cases needs)
      case True
      with Inr a' written[OF a a'] show ?thesis by simp
    next
      case False
      with ensure_metadata_ok(3-6)[OF a'] have "wp (write_status c req h) ?post s1"
        using s1 a by (intro wp_write_status_recorded[OF s1(2) _ a, of a]) auto
      with Inr a' False show ?thesis by simp
    qed
  qed
qed

end

section \<open>Reconcile\<close>

definition kr_nn :: "ApiEndpoints \<Rightarrow> NamespacedName" where
  "kr_nn a = \<lparr>nn_Namespace = ae_Namespace a, nn_Name = krakendName a\<rparr>"

text \<open>
  What a run leaves behind for a resource that is not being deleted: nothing live changes; if it
  answers no error, the Krakend is in step, and either the status is recorded with every policy in
  place, or the policies failed and the resource is as it was.
\<close>

definition unchanged_live :: "cluster_view \<Rightarrow> cluster_view \<Rightarrow> bool" where
  "unchanged_live vw vw' \<longleftrightarrow> live_spec vw' = live_spec vw \<and> vw_krakend vw' = vw_krakend vw"

definition settled ::
  "ApiEndpointsReconciler \<Rightarrow> NamespacedName \<Rightarrow> ApiEndpoints \<Rightarrow> string \<Rightarrow> int \<Rightarrow> int \<Rightarrow>
   cluster_view \<Rightarrow> cluster_view \<Rightarrow> bool" where
  "settled r req a h t0 t1 vw vw' \<longleftrightarrow>
     (\<exists>t. t0 \<le> t \<and> t \<le> t1 \<and> recorded req h t vw vw') \<and>
     (ar_NetpolEnabled r \<longrightarrow> covered a (appsInNamespace r a) vw vw')"

definition synced ::
  "ApiEndpointsReconciler \<Rightarrow> NamespacedName \<Rightarrow> ApiEndpoints \<Rightarrow> string \<Rightarrow> int \<Rightarrow> int \<Rightarrow>
   cluster_view \<Rightarrow> cluster_view \<Rightarrow> bool" where
  "synced r req a h t0 t1 vw vw' \<longleftrightarrow>
     (\<exists>k. vw_krakend vw (kr_nn a) = Some k \<and> in_step k vw') \<and>
     (settled r req a h t0 t1 vw vw' \<or> ar_NetpolEnabled r \<and> vw_api vw' = vw_api vw)"

lemma synced_earlier: "synced r req a h t1 t2 vw vw' \<Longrightarrow> t0 \<le> t1 \<Longrightarrow> synced r req a h t0 t2 vw vw'"
  unfolding synced_def settled_def by (meson order_trans)

lemma recorded_cong: "vw_api vw1 = vw_api vw2 \<Longrightarrow> recorded req h t vw1 vw' \<longleftrightarrow> recorded req h t vw2 vw'"
  by (simp add: recorded_def)

lemma covered_cong:
  "vw_np vw1 = vw_np vw2 \<Longrightarrow> vw_np vw1' = vw_np vw2' \<Longrightarrow> covered a apps vw1 vw1' \<longleftrightarrow> covered a apps vw2 vw2'"
  by (simp add: covered_def)

context api_sync
begin

lemma wp_published_finish:
  assumes s2: "clock s \<le> clock s2" "vw_api (view s2) = vw_api (view s)" "unchanged_live (view s) (view s2)"
    and k: "vw_krakend (view s) (kr_nn a) = Some k" "in_step k (view s2)"
    and np: "ar_NetpolEnabled r \<longrightarrow> covered a (appsInNamespace r a) (view s) (view s2)"
  shows "wp (finish_sync c lib req k h)
    (\<lambda>e s'. clock s \<le> clock s' \<and> unchanged_live (view s) (view s') \<and>
       (e = None \<longrightarrow> synced r req a h (clock s) (clock s') (view s) (view s'))) s2"
proof (rule wp_mono[OF wp_finish_sync], goal_cases)
  case (1 e s')
  then have only: "api_only req (view s2) (view s')" by blast
  note frame = api_only_simps[OF only]
  have "in_step k (view s')"
    by (rule in_step_mono[OF k(2)]) (simp_all add: frame)
  moreover have "unchanged_live (view s) (view s')"
    using s2(3) by (simp add: unchanged_live_def frame)
  moreover have "settled r req a h (clock s) (clock s') (view s) (view s')" if "e = None"
    using 1 that s2(1) np recorded_cong[OF s2(2)] covered_cong[of "view s" "view s" "view s2" "view s'"]
    by (auto simp: settled_def frame intro: order_trans)
  ultimately show ?case using k(1) 1 s2(1) by (auto simp: synced_def)
qed

lemma wp_netpols_finish:
  assumes s1: "clock s \<le> clock s1" "cm_only (view s) (view s1)"
    and k: "vw_krakend (view s) (kr_nn a) = Some k" "in_step k (view s1)" and r: "ar_NetpolEnabled r"
  shows "wp (ensureAppIngressNetpol c r a)
    (\<lambda>n. wp (case n of Some err \<Rightarrow> State_Monad.return None | None \<Rightarrow> finish_sync c lib req k h)
       (\<lambda>e s'. clock s \<le> clock s' \<and> unchanged_live (view s) (view s') \<and>
          (e = None \<longrightarrow> synced r req a h (clock s) (clock s') (view s) (view s')))) s1"
  unfolding ensureAppIngressNetpol_def
proof (rule wp_mono[OF wp_ensureAppIngressNetpol_loop], goal_cases)
  case (1 n s2)
  then have only: "np_only (view s1) (view s2)" by (simp add: np_stepped_def)
  note frame = cm_only_simps[OF s1(2)] np_only_simps[OF only]
  have step: "in_step k (view s2)"
    by (rule in_step_mono[OF k(2)]) (simp_all add: frame)
  have live: "unchanged_live (view s) (view s2)" by (simp add: unchanged_live_def frame)
  have later: "clock s \<le> clock s2" using 1 s1(1) by simp
  show ?case
  proof (cases n)
    case None
    with 1 have "covered a (appsInNamespace r a) (view s) (view s2)"
      using covered_cong[of "view s" "view s1" "view s2" "view s2"] by (simp add: frame)
    with None show ?thesis
      using wp_published_finish[OF later _ live k(1) step] by (simp add: frame)
  next
    case (Some err)
    with live later step k(1) r show ?thesis by (simp add: synced_def frame)
  qed
qed

lemma wp_Reconcile_sync:
  "wp (Reconcile_sync c lib r req a h)
    (\<lambda>e s'. clock s \<le> clock s' \<and> unchanged_live (view s) (view s') \<and>
       (e = None \<longrightarrow> synced r req a h (clock s) (clock s') (view s) (view s'))) s"
  (is "wp _ ?post s")
  unfolding Reconcile_sync_def wp_bind kr_nn_def[symmetric]
proof (rule wp_get_krakend, goal_cases)
  case (1 g s1)
  show ?case
  proof (cases g)
    case (Inl e)
    with 1 show ?thesis by (simp add: unchanged_live_def)
  next
    case (Inr k)
    with 1 have k: "vw_krakend (view s) (kr_nn a) = Some k" by simp
    have "wp (updateKrakendConfigMap c k)
        (\<lambda>u. wp (case u of
           Some err \<Rightarrow> State_Monad.return (Some err)
         | None \<Rightarrow>
             (if ar_NetpolEnabled r then do {
                n \<leftarrow> ensureAppIngressNetpol c r a;
                (case n of Some err \<Rightarrow> State_Monad.return None | None \<Rightarrow> finish_sync c lib req k h)
              }
              else finish_sync c lib req k h)) ?post) s1"
    proof (rule wp_mono[OF wp_updateKrakendConfigMap], goal_cases)
      case (1 u s2)
      then have cm: "clock s \<le> clock s2" "cm_only (view s) (view s2)"
        using \<open>view s1 = view s\<close> \<open>clock s \<le> clock s1\<close> by auto
      have live: "unchanged_live (view s) (view s2)"
        using cm_only_simps[OF cm(2)] by (simp add: unchanged_live_def)
      show ?case
      proof (cases u)
        case (Some err)
        with cm live show ?thesis by simp
      next
        case None
        with 1 have step: "in_step k (view s2)" by simp
        show ?thesis
          using None wp_netpols_finish[OF cm k step] wp_published_finish[OF cm(1) _ live k step]
            cm_only_simps[OF cm(2)] by (cases "ar_NetpolEnabled r") simp_all
      qed
    qed
    with Inr show ?thesis by simp
  qed
qed

lemma wp_cm_remove_finalizer:
  assumes s1: "clock s \<le> clock s1" "view s1 = view s" and a: "vw_api (view s) (ae_key a) = Some a" "ae_deleted a"
  shows "wp (updateKrakendConfigMap c k)
    (\<lambda>u. wp (case u of Some err \<Rightarrow> State_Monad.return (Some err) | None \<Rightarrow> remove_finalizer c lib a)
       (\<lambda>e s'. clock s \<le> clock s' \<and> unchanged_live (view s) (view s') \<and>
          (e = None \<longrightarrow> released a (view s') \<and> in_step k (view s')))) s1"
proof (rule wp_mono[OF wp_updateKrakendConfigMap], goal_cases)
  case (1 u s2)
  then have cm: "clock s \<le> clock s2" "cm_only (view s) (view s2)" using s1 by auto
  note frame = cm_only_simps[OF cm(2)]
  show ?case
  proof (cases u)
    case (Some err)
    with cm frame show ?thesis by (simp add: unchanged_live_def)
  next
    case None
    with 1 have step: "in_step k (view s2)" by simp
    have a2: "vw_api (view s2) (ae_key a) = Some a" using a frame by simp
    show ?thesis
      unfolding None option.case
    proof (rule wp_mono[OF wp_remove_finalizer[OF a2 a(2)]], goal_cases)
      case (1 e s')
      then have only: "api_only (ae_key a) (view s2) (view s')" by blast
      have "in_step k (view s')"
        by (rule in_step_mono[OF step]) (simp_all add: api_only_simps[OF only])
      with 1 cm(1) show ?case by (simp add: unchanged_live_def frame api_only_simps[OF only])
    qed
  qed
qed

lemma wp_Reconcile_deleted:
  assumes a: "vw_api (view s) (ae_key a) = Some a" "ae_deleted a"
  shows "wp (Reconcile_deleted c lib a)
    (\<lambda>e s'. clock s \<le> clock s' \<and> unchanged_live (view s) (view s') \<and>
       (e = None \<longrightarrow> released a (view s') \<and>
          (\<forall>k. vw_krakend (view s) (kr_nn a) = Some k \<longrightarrow> in_step k (view s')))) s"
  unfolding Reconcile_deleted_def wp_bind kr_nn_def[symmetric]
proof (rule wp_get_krakend, goal_cases)
  case (1 g s1)
  show ?case
  proof (cases g)
    case (Inl err)
    have a1: "vw_api (view s1) (ae_key a) = Some a" using a 1 by simp
    have "wp (remove_finalizer c lib a)
        (\<lambda>e s'. clock s \<le> clock s' \<and> unchanged_live (view s) (view s') \<and> (e = None \<longrightarrow> released a (view s'))) s1"
      using 1 by (intro wp_mono[OF wp_remove_finalizer[OF a1 a(2)]])
        (auto simp: unchanged_live_def dest: api_only_simps)
    with 1 Inl show ?thesis by (auto simp: unchanged_live_def elim!: wp_mono)
  next
    case (Inr k)
    with 1 wp_cm_remove_finalizer[OF 1(2,1) a, of k] show ?thesis by (auto elim!: wp_mono)
  qed
qed

lemma wp_needsSync:
  "wp (needsSync c r t) (\<lambda>b s'. view s' = view s \<and>
     (\<exists>now. clock s \<le> now \<and> now \<le> clock s' \<and> b = outside_window (ar_SyncInterval r) now t)) s"
  unfolding needsSync_def wp_bind by (rule wp_now) auto

end

text \<open>A run is due when the spec has changed since it was last recorded, or the record is too old.\<close>

definition due :: "Lib \<Rightarrow> ApiEndpointsReconciler \<Rightarrow> ApiEndpoints \<Rightarrow> int \<Rightarrow> bool" where
  "due lib r a t \<longleftrightarrow>
     hashEndpoints lib (ae_Spec a) \<noteq> Inr (es_SynchronizationHash (ae_Status a)) \<or>
     outside_window (ar_SyncInterval r) t (es_SynchronizationTimestamp (ae_Status a))"

lemma outside_window_mono: "outside_window d t x \<Longrightarrow> t \<le> t' \<Longrightarrow> outside_window d t' x"
  by (simp add: outside_window_def)

lemma due_mono: "due lib r a t \<Longrightarrow> t \<le> t' \<Longrightarrow> due lib r a t'"
  by (auto simp: due_def intro: outside_window_mono)

context api_sync
begin

lemma wp_sync_logged:
  assumes "view s1 = view s" "clock s \<le> clock s1"
  shows "wp (needsSync c r x) (\<lambda>_. wp (Reconcile_sync c lib r req a h)
    (\<lambda>e s'. clock s1 \<le> clock s' \<and> unchanged_live (view s) (view s') \<and>
       (e = None \<longrightarrow> synced r req a h (clock s) (clock s') (view s) (view s')))) s1"
proof (rule wp_mono[OF wp_needsSync], goal_cases)
  case (1 b s2)
  with assms have "clock s \<le> clock s2" "clock s1 \<le> clock s2" "view s2 = view s" by auto
  then show ?case
    by (intro wp_mono[OF wp_Reconcile_sync]) (auto intro: synced_earlier)
qed

lemma wp_Reconcile_live:
  assumes "hashEndpoints lib (ae_Spec a) = Inr h"
  shows "wp (Reconcile_live c lib r req a)
    (\<lambda>e s'. clock s \<le> clock s' \<and> unchanged_live (view s) (view s') \<and>
       (\<not> due lib r a (clock s') \<longrightarrow> view s' = view s) \<and>
       (e = None \<longrightarrow> due lib r a (clock s) \<longrightarrow> synced r req a h (clock s) (clock s') (view s) (view s'))) s"
proof (cases "es_SynchronizationHash (ae_Status a) = h")
  case False
  with assms have "due lib r a t" for t by (auto simp: due_def)
  with assms False wp_sync_logged[OF refl order_refl] show ?thesis
    by (auto simp: Reconcile_live_def elim!: wp_mono)
next
  case True
  with assms have due: "due lib r a t \<longleftrightarrow>
      outside_window (ar_SyncInterval r) t (es_SynchronizationTimestamp (ae_Status a))" for t
    by (auto simp: due_def)
  have "wp (needsSync c r (es_SynchronizationTimestamp (ae_Status a)))
      (\<lambda>needs. wp (if \<not> needs then State_Monad.return None
         else do {
           _ \<leftarrow> needsSync c r (es_SynchronizationTimestamp (ae_Status a));
           Reconcile_sync c lib r req a h
         })
       (\<lambda>e s'. clock s \<le> clock s' \<and> unchanged_live (view s) (view s') \<and>
         (\<not> due lib r a (clock s') \<longrightarrow> view s' = view s) \<and>
         (e = None \<longrightarrow> due lib r a (clock s) \<longrightarrow> synced r req a h (clock s) (clock s') (view s) (view s')))) s"
  proof (rule wp_mono[OF wp_needsSync], goal_cases)
    case (1 needs s1)
    then obtain t where t: "clock s \<le> t" "t \<le> clock s1" "needs \<longleftrightarrow> due lib r a t"
      and s1: "view s1 = view s" unfolding due by blast
    show ?case
    proof (cases needs)
      case False
      with t s1 due_mono show ?thesis by (auto simp: unchanged_live_def)
    next
      case needs: True
      have "wp (needsSync c r (es_SynchronizationTimestamp (ae_Status a)))
          (\<lambda>_. wp (Reconcile_sync c lib r req a h)
             (\<lambda>e s'. clock s1 \<le> clock s' \<and> unchanged_live (view s) (view s') \<and>
               (e = None \<longrightarrow> synced r req a h (clock s) (clock s') (view s) (view s')))) s1"
        using t s1 by (intro wp_sync_logged) auto
      moreover have "due lib r a (clock s')" if "clock s1 \<le> clock s'" for s'
        using t needs that due_mono[of lib r a t] by auto
      ultimately show ?thesis using needs t by (auto elim!: wp_mono)
    qed
  qed
  with True assms show ?thesis by (auto simp: Reconcile_live_def)
qed

lemma wp_Reconcile:
  assumes a: "vw_api (view s) req = Some a"
  shows "wp (Reconcile c lib r req)
    (\<lambda>e s'. unchanged_live (view s) (view s') \<and> clock s \<le> clock s' \<and>
       (if ae_deleted a
        then e = None \<longrightarrow> released a (view s') \<and>
          (\<forall>k. vw_krakend (view s) (kr_nn a) = Some k \<longrightarrow> in_step k (view s'))
        else (\<not> due lib r a (clock s') \<longrightarrow> view s' = view s) \<and>
          (e = None \<longrightarrow> due lib r a (clock s) \<longrightarrow>
            (\<exists>h. hashEndpoints lib (ae_Spec a) = Inr h \<and>
               synced r req a h (clock s) (clock s') (view s) (view s'))))) s"
  unfolding Reconcile_def wp_bind
proof (rule wp_get_api, goal_cases)
  case (1 g s1)
  show ?case
  proof (cases g)
    case (Inl err)
    with 1 a show ?thesis by (auto simp: unchanged_live_def)
  next
    case (Inr a')
    with 1 a have g: "g = Inr a" by simp
    have key: "ae_key a = req" using a by (auto simp: ae_key_meta dest: api_key)
    show ?thesis
    proof (cases "ae_deleted a")
      case True
      have "vw_api (view s1) (ae_key a) = Some a" using a key 1 by simp
      from wp_Reconcile_deleted[OF this True] show ?thesis
        using 1 g True by (auto elim!: wp_mono)
    next
      case live: False
      show ?thesis
      proof (cases "hashEndpoints lib (ae_Spec a)")
        case (Inl err)
        with 1 g live show ?thesis by (simp add: Reconcile_live_def unchanged_live_def)
      next
        case (Inr h)
        from wp_Reconcile_live[OF this, of r req s1] show ?thesis
          using 1 g live Inr by (auto intro: synced_earlier due_mono elim!: wp_mono)
      qed
    qed
  qed
qed

end

end
