(* ===== verification/Controller_Traces.thy ===== *)
theory Controller_Traces
  imports ApiEndpoints_Controller
begin

text \<open>
  What the ApiEndpoints controller writes, and in which order, whatever the cluster answers. A
  client is wrapped so that every write leaves an event with its outcome in a trace; reads leave
  none. The statements hold for every client, so for every interleaving with other writers and
  every pattern of failures.
\<close>

section \<open>Recording the writes\<close>

datatype event =
    UpdatedConfigMap ConfigMap bool
  | CreatedNetpol NetworkPolicy bool
  | UpdatedNetpol NetworkPolicy bool
  | UpdatedApi ApiEndpoints bool
  | UpdatedStatus ApiEndpoints bool

definition lift_read :: "('s, 'a) io \<Rightarrow> ('s \<times> 'e list, 'a) io" where
  "lift_read m = State (\<lambda>(s, tr). case run_state m s of (x, s') \<Rightarrow> (x, (s', tr)))"

definition lift_write :: "(bool \<Rightarrow> 'e) \<Rightarrow> ('s, 'a result) io \<Rightarrow> ('s \<times> 'e list, 'a result) io" where
  "lift_write ev m = State (\<lambda>(s, tr). case run_state m s of (x, s') \<Rightarrow> (x, (s', tr @ [ev (is_ok x)])))"

definition recording :: "'s Client \<Rightarrow> ('s \<times> event list) Client" where
  "recording c =
     \<lparr>Get_ApiEndpoints = (\<lambda>nn. lift_read (Get_ApiEndpoints c nn)),
      Get_Krakend = (\<lambda>nn. lift_read (Get_Krakend c nn)),
      Get_ConfigMap = (\<lambda>nn. lift_read (Get_ConfigMap c nn)),
      Get_NetworkPolicy = (\<lambda>nn. lift_read (Get_NetworkPolicy c nn)),
      List_ApiEndpoints = (\<lambda>ns. lift_read (List_ApiEndpoints c ns)),
      Create_NetworkPolicy = (\<lambda>np. lift_write (CreatedNetpol np) (Create_NetworkPolicy c np)),
      Update_NetworkPolicy = (\<lambda>np. lift_write (UpdatedNetpol np) (Update_NetworkPolicy c np)),
      Update_ConfigMap = (\<lambda>cm. lift_write (UpdatedConfigMap cm) (Update_ConfigMap c cm)),
      Update_ApiEndpoints = (\<lambda>a. lift_write (UpdatedApi a) (Update_ApiEndpoints c a)),
      Status_Update_ApiEndpoints = (\<lambda>a. lift_write (UpdatedStatus a) (Status_Update_ApiEndpoints c a)),
      Now = lift_read (Now c)\<rparr>"

text \<open>The trace of one reconciliation, and its answer.\<close>

definition Reconcile_trace ::
  "'s Client \<Rightarrow> Lib \<Rightarrow> ApiEndpointsReconciler \<Rightarrow> NamespacedName \<Rightarrow> 's \<Rightarrow> error option \<times> event list" where
  "Reconcile_trace c lib r req s =
     (case run_state (Reconcile (recording c) lib r req) (s, []) of (err, (s', tr)) \<Rightarrow> (err, tr))"

section \<open>Reasoning about emitted events\<close>

text \<open>\<open>emits m P\<close>: a run of \<open>m\<close> extends the trace by events that satisfy \<open>P\<close> with its answer.\<close>

definition emits :: "('s \<times> 'e list, 'a) io \<Rightarrow> ('a \<Rightarrow> 'e list \<Rightarrow> bool) \<Rightarrow> bool" where
  "emits m P \<longleftrightarrow>
     (\<forall>s tr r s' tr'. run_state m (s, tr) = (r, (s', tr')) \<longrightarrow> (\<exists>evs. tr' = tr @ evs \<and> P r evs))"

named_theorems emits_rules

lemma emits_return [emits_rules]: "P x [] \<Longrightarrow> emits (State_Monad.return x) P"
  by (simp add: emits_def)

lemma emits_read: "emits (lift_read m) (\<lambda>_ evs. evs = [])"
  by (auto simp: emits_def lift_read_def split: prod.splits)

lemma emits_write: "emits (lift_write ev m) (\<lambda>r evs. evs = [ev (is_ok r)])"
  by (auto simp: emits_def lift_write_def split: prod.splits)

lemma emits_bind:
  assumes "emits m P" and "\<And>x evs. P x evs \<Longrightarrow> emits (f x) (\<lambda>r evs'. Q r (evs @ evs'))"
  shows "emits (State_Monad.bind m f) Q"
  unfolding emits_def
proof (intro allI impI)
  fix s tr r s' tr'
  assume "run_state (State_Monad.bind m f) (s, tr) = (r, (s', tr'))"
  then obtain x s1 tr1 where m: "run_state m (s, tr) = (x, (s1, tr1))"
    and f: "run_state (f x) (s1, tr1) = (r, (s', tr'))"
    by (auto simp: run_simps split: prod.splits)
  from assms(1) m obtain e1 where e1: "tr1 = tr @ e1" "P x e1"
    unfolding emits_def by blast
  from assms(2)[OF e1(2)] f obtain e2 where "tr' = tr1 @ e2" "Q r (e1 @ e2)"
    unfolding emits_def by blast
  with e1 show "\<exists>evs. tr' = tr @ evs \<and> Q r evs" by auto
qed

lemma emits_weaken: "emits m P \<Longrightarrow> (\<And>r evs. P r evs \<Longrightarrow> Q r evs) \<Longrightarrow> emits m Q"
  unfolding emits_def by blast

lemma emits_conj: "emits m P \<Longrightarrow> emits m Q \<Longrightarrow> emits m (\<lambda>r evs. P r evs \<and> Q r evs)"
  unfolding emits_def by (metis same_append_eq)

lemma emits_bind_read:
  "(\<And>x. emits (f x) Q) \<Longrightarrow> emits (State_Monad.bind (lift_read m) f) Q"
  by (rule emits_bind[OF emits_read]) simp

lemma emits_bind_write:
  "(\<And>x. emits (f x) (\<lambda>r evs. Q r (ev (is_ok x) # evs))) \<Longrightarrow>
     emits (State_Monad.bind (lift_write ev m) f) Q"
  by (rule emits_bind[OF emits_write]) simp

lemma recording_simps [simp]:
  "Get_ApiEndpoints (recording c) nn = lift_read (Get_ApiEndpoints c nn)"
  "Get_Krakend (recording c) nn = lift_read (Get_Krakend c nn)"
  "Get_ConfigMap (recording c) nn = lift_read (Get_ConfigMap c nn)"
  "Get_NetworkPolicy (recording c) nn = lift_read (Get_NetworkPolicy c nn)"
  "List_ApiEndpoints (recording c) ns = lift_read (List_ApiEndpoints c ns)"
  "Create_NetworkPolicy (recording c) np = lift_write (CreatedNetpol np) (Create_NetworkPolicy c np)"
  "Update_NetworkPolicy (recording c) np = lift_write (UpdatedNetpol np) (Update_NetworkPolicy c np)"
  "Update_ConfigMap (recording c) cm = lift_write (UpdatedConfigMap cm) (Update_ConfigMap c cm)"
  "Update_ApiEndpoints (recording c) a = lift_write (UpdatedApi a) (Update_ApiEndpoints c a)"
  "Status_Update_ApiEndpoints (recording c) a = lift_write (UpdatedStatus a) (Status_Update_ApiEndpoints c a)"
  "Now (recording c) = lift_read (Now c)"
  by (simp_all add: recording_def)

lemma run_lift_read [run_simps]:
  "run_state (lift_read m) (s, tr) = (case run_state m s of (x, s') \<Rightarrow> (x, (s', tr)))"
  by (simp add: lift_read_def)

lemma run_lift_write [run_simps]:
  "run_state (lift_write ev m) (s, tr) = (case run_state m s of (x, s') \<Rightarrow> (x, (s', tr @ [ev (is_ok x)])))"
  by (simp add: lift_write_def)

section \<open>What each operation emits\<close>

text \<open>Each operation's trace, with what its answer says about it.\<close>

definition cm_trace :: "error option \<Rightarrow> event list \<Rightarrow> bool" where
  "cm_trace r evs \<longleftrightarrow> (evs = [] \<and> r \<noteq> None) \<or> (\<exists>cm. evs = [UpdatedConfigMap cm (r = None)])"

definition netpol_event :: "event \<Rightarrow> bool" where
  "netpol_event ev \<longleftrightarrow> (\<exists>np b. ev = CreatedNetpol np b \<or> ev = UpdatedNetpol np b)"

definition api_trace :: "event list \<Rightarrow> bool" where
  "api_trace evs \<longleftrightarrow> evs = [] \<or> (\<exists>a b. evs = [UpdatedApi a b])"

definition status_trace :: "string \<Rightarrow> event list \<Rightarrow> bool" where
  "status_trace h evs \<longleftrightarrow>
     evs = [] \<or> (\<exists>a b. evs = [UpdatedStatus a b] \<and> es_SynchronizationHash (ae_Status a) = h)"

definition finish_trace :: "string \<Rightarrow> event list \<Rightarrow> bool" where
  "finish_trace h evs \<longleftrightarrow> (\<exists>xs ys. evs = xs @ ys \<and> api_trace xs \<and> status_trace h ys)"

definition sync_trace :: "nat \<Rightarrow> string \<Rightarrow> event list \<Rightarrow> bool" where
  "sync_trace n h evs \<longleftrightarrow>
     evs = [] \<or> (\<exists>cm. evs = [UpdatedConfigMap cm False]) \<or>
     (\<exists>cm nps fin. evs = UpdatedConfigMap cm True # nps @ fin \<and> list_all netpol_event nps \<and>
        length nps \<le> n \<and> finish_trace h fin)"

lemma trace_simps [simp]:
  "netpol_event (CreatedNetpol np b)" "netpol_event (UpdatedNetpol np b)"
  "\<not> netpol_event (UpdatedStatus a b)" "\<not> netpol_event (UpdatedApi a b)"
  "\<not> netpol_event (UpdatedConfigMap cm b)"
  "api_trace []" "api_trace [UpdatedApi a b]"
  "status_trace h []" "status_trace h [UpdatedStatus a b] \<longleftrightarrow> es_SynchronizationHash (ae_Status a) = h"
  by (simp_all add: netpol_event_def api_trace_def status_trace_def)

lemma finish_trace_intros:
  "status_trace h evs \<Longrightarrow> finish_trace h evs"
  "status_trace h evs \<Longrightarrow> finish_trace h (UpdatedApi a b # evs)"
  unfolding finish_trace_def
  by (intro exI[of _ "[]"] exI[of _ evs], simp)
    (intro exI[of _ "[UpdatedApi a b]"] exI[of _ evs], simp)

lemma sync_trace_intros:
  "sync_trace n h []"
  "sync_trace n h [UpdatedConfigMap cm False]"
  "list_all netpol_event nps \<Longrightarrow> length nps \<le> n \<Longrightarrow> finish_trace h fin \<Longrightarrow>
     sync_trace n h (UpdatedConfigMap cm True # nps @ fin)"
  "list_all netpol_event nps \<Longrightarrow> length nps \<le> n \<Longrightarrow> sync_trace n h (UpdatedConfigMap cm True # nps)"
  using finish_trace_intros(1)[of h "[]"] by (force simp: sync_trace_def)+

lemma emits_updateKrakendConfigMap:
  "emits (updateKrakendConfigMap (recording c) k) cm_trace"
  unfolding updateKrakendConfigMap_def publish_partials_def
  by (auto simp: cm_trace_def intro!: emits_bind_read emits_bind_write emits_return
      split: sum.split)

lemma emits_ensureAppIngressNetpol_loop:
  "emits (ensureAppIngressNetpol_loop (recording c) a apps)
     (\<lambda>r evs. list_all netpol_event evs \<and> length evs \<le> length apps)"
proof (induction apps)
  case Nil
  show ?case by (auto intro!: emits_return)
next
  case (Cons app apps)
  then have "emits (ensureAppIngressNetpol_loop (recording c) a apps)
      (\<lambda>r evs. list_all netpol_event evs \<and> length evs \<le> length apps)" .
  then show ?case
    by (auto intro!: emits_bind_read emits_bind_write emits_return
        split: sum.split elim!: emits_weaken)
qed

lemma emits_remove_finalizer:
  "emits (remove_finalizer (recording c) lib a) (\<lambda>_. api_trace)"
  unfolding remove_finalizer_def
  by (auto intro!: emits_bind_write emits_return split: sum.split prod.split)

lemma emits_write_status:
  "emits (write_status (recording c) req h) (\<lambda>_. status_trace h)"
  unfolding write_status_def
  by (auto intro!: emits_bind_read emits_bind_write emits_return split: sum.split)

lemma emits_write_status_finish:
  "emits (write_status (recording c) req h) (\<lambda>_. finish_trace h)"
  "emits (write_status (recording c) req h) (\<lambda>_ evs. finish_trace h (UpdatedApi a b # evs))"
  by (rule emits_weaken[OF emits_write_status], rule finish_trace_intros, assumption)+

lemma emits_finish_sync:
  "emits (finish_sync (recording c) lib req k h) (\<lambda>_. finish_trace h)"
  unfolding finish_sync_def
  by (auto intro!: emits_bind_read emits_bind_write emits_return finish_trace_intros
      emits_write_status_finish split: sum.split prod.split)

lemma emits_finish_sync_after:
  assumes "list_all netpol_event nps" "length nps \<le> n"
  shows "emits (finish_sync (recording c) lib req k h)
    (\<lambda>_ evs. sync_trace n h (UpdatedConfigMap cm True # nps @ evs))"
  by (rule emits_weaken[OF emits_finish_sync]) (rule sync_trace_intros(3)[OF assms])

lemma emits_ensureAppIngressNetpol:
  "emits (ensureAppIngressNetpol (recording c) r a)
     (\<lambda>_ evs. list_all netpol_event evs \<and> length evs \<le> length (appsInNamespace r a))"
  unfolding ensureAppIngressNetpol_def by (rule emits_ensureAppIngressNetpol_loop)

lemma emits_netpols_then_finish:
  "emits (do {
      n \<leftarrow> ensureAppIngressNetpol (recording c) r a;
      (case n of Some err \<Rightarrow> State_Monad.return None | None \<Rightarrow> finish_sync (recording c) lib req k h)
    }) (\<lambda>_ evs. sync_trace (length (appsInNamespace r a)) h (UpdatedConfigMap cm True # evs))"
  by (auto intro!: emits_bind[OF emits_ensureAppIngressNetpol] emits_return
      emits_finish_sync_after sync_trace_intros(4) split: option.split)

lemma emits_Reconcile_sync:
  "emits (Reconcile_sync (recording c) lib r req a h)
     (\<lambda>_. sync_trace (length (appsInNamespace r a)) h)"
  unfolding Reconcile_sync_def recording_simps
  using emits_finish_sync_after[of "[]" "length (appsInNamespace r a)"]
  by (auto simp: cm_trace_def intro!: emits_netpols_then_finish emits_return sync_trace_intros
      emits_bind_read emits_bind[OF emits_updateKrakendConfigMap] split: sum.split option.split)

definition deleted_trace :: "event list \<Rightarrow> bool" where
  "deleted_trace evs \<longleftrightarrow>
     evs = [] \<or> (\<exists>cm b. evs = [UpdatedConfigMap cm b]) \<or>
     (\<exists>cm a b. evs = [UpdatedConfigMap cm True, UpdatedApi a b])"

lemma emits_remove_finalizer_deleted:
  "emits (remove_finalizer (recording c) lib a)
     (\<lambda>_ evs. deleted_trace (UpdatedConfigMap cm True # evs))"
  by (rule emits_weaken[OF emits_remove_finalizer]) (auto simp: deleted_trace_def api_trace_def)

lemma emits_cm_then_finalizer:
  "emits (do {
      u \<leftarrow> updateKrakendConfigMap (recording c) k;
      (case u of Some err \<Rightarrow> State_Monad.return (Some err) | None \<Rightarrow> remove_finalizer (recording c) lib a)
    }) (\<lambda>_. deleted_trace)"
  by (auto simp: cm_trace_def deleted_trace_def[of "[]"] deleted_trace_def[of "[_]"] ex_bool_eq
      intro!: emits_return emits_remove_finalizer_deleted
      emits_bind[OF emits_updateKrakendConfigMap] split: sum.split option.split)

lemma emits_Reconcile_deleted:
  "emits (Reconcile_deleted (recording c) lib a) (\<lambda>_ evs. deleted_trace evs \<or> api_trace evs)"
proof -
  have "emits (remove_finalizer (recording c) lib a) (\<lambda>_ evs. deleted_trace evs \<or> api_trace evs)"
    by (rule emits_weaken[OF emits_remove_finalizer]) simp
  moreover have "emits (do {
      u \<leftarrow> updateKrakendConfigMap (recording c) k;
      (case u of Some err \<Rightarrow> State_Monad.return (Some err) | None \<Rightarrow> remove_finalizer (recording c) lib a)
    }) (\<lambda>_ evs. deleted_trace evs \<or> api_trace evs)" for k
    by (rule emits_weaken[OF emits_cm_then_finalizer]) simp
  ultimately show ?thesis
    unfolding Reconcile_deleted_def recording_simps
    by (intro emits_bind_read) (auto intro!: emits_return split: sum.split)
qed

section \<open>Reconcile\<close>

lemma run_emits:
  assumes "emits m P"
  obtains r s' tr where "run_state m (s, []) = (r, (s', tr))" "P r tr"
proof -
  obtain r s' tr where "run_state m (s, []) = (r, (s', tr))" by (metis prod.exhaust)
  with assms that show thesis unfolding emits_def by fastforce
qed

lemma emits_needsSync: "emits (needsSync (recording c) r t) (\<lambda>_ evs. evs = [])"
  unfolding needsSync_def by (auto intro!: emits_bind_read emits_return)

definition live_trace :: "Lib \<Rightarrow> ApiEndpointsReconciler \<Rightarrow> ApiEndpoints \<Rightarrow> event list \<Rightarrow> bool" where
  "live_trace lib r a evs \<longleftrightarrow>
     evs = [] \<or> (\<exists>h. hashEndpoints lib (ae_Spec a) = Inr h \<and> sync_trace (length (appsInNamespace r a)) h evs)"

lemma emits_Reconcile_live:
  "emits (Reconcile_live (recording c) lib r req a) (\<lambda>_. live_trace lib r a)"
proof (cases "hashEndpoints lib (ae_Spec a)")
  case (Inl err)
  then show ?thesis by (auto simp: Reconcile_live_def live_trace_def intro!: emits_return)
next
  case (Inr h)
  have sync: "emits (Reconcile_sync (recording c) lib r req a h) (\<lambda>_. live_trace lib r a)"
    by (rule emits_weaken[OF emits_Reconcile_sync]) (simp add: live_trace_def Inr)
  show ?thesis
    unfolding Reconcile_live_def Inr sum.case
    by (rule emits_bind[where P = "\<lambda>_ evs. evs = []"])
      (auto simp: live_trace_def[of _ _ _ "[]"] intro!: emits_return sync emits_bind[OF emits_needsSync])
qed

lemma Reconcile_trace_eq:
  "Reconcile_trace c lib r req s =
     (case run_state (Get_ApiEndpoints c req) s of
        (Inl err, s1) \<Rightarrow> (IgnoreNotFound err, [])
      | (Inr a, s1) \<Rightarrow>
          (case run_state (if om_DeletionTimestamp (ae_Meta a) \<noteq> None
             then Reconcile_deleted (recording c) lib a
             else Reconcile_live (recording c) lib r req a) (s1, []) of (err, (s', tr)) \<Rightarrow> (err, tr)))"
  unfolding Reconcile_trace_def Reconcile_def recording_simps run_bind run_lift_read
  by (simp split: prod.split sum.split)

lemma Reconcile_trace_read:
  assumes "run_state (Get_ApiEndpoints c req) s = (Inr a, s1)"
  shows "if om_DeletionTimestamp (ae_Meta a) = None
    then live_trace lib r a (snd (Reconcile_trace c lib r req s))
    else deleted_trace (snd (Reconcile_trace c lib r req s)) \<or> api_trace (snd (Reconcile_trace c lib r req s))"
proof (cases "om_DeletionTimestamp (ae_Meta a) = None")
  case True
  obtain e s' tr where "run_state (Reconcile_live (recording c) lib r req a) (s1, []) = (e, (s', tr))"
    "live_trace lib r a tr"
    by (rule run_emits[OF emits_Reconcile_live])
  with True assms show ?thesis by (simp add: Reconcile_trace_eq)
next
  case False
  obtain e s' tr where "run_state (Reconcile_deleted (recording c) lib a) (s1, []) = (e, (s', tr))"
    "deleted_trace tr \<or> api_trace tr"
    by (rule run_emits[OF emits_Reconcile_deleted])
  with False assms show ?thesis by (auto simp: Reconcile_trace_eq)
qed

section \<open>Refused network policies\<close>

definition refused :: "event \<Rightarrow> bool" where
  "refused ev \<longleftrightarrow> (\<exists>np. ev = CreatedNetpol np False \<or> ev = UpdatedNetpol np False)"

definition accepted :: "event list \<Rightarrow> bool" where
  "accepted evs \<longleftrightarrow> list_all (\<lambda>ev. \<not> refused ev) evs"

text \<open>A refusal ends the run: nothing follows it, nothing but policies and the ConfigMap came before.\<close>

definition early :: "event \<Rightarrow> bool" where
  "early ev \<longleftrightarrow> \<not> refused ev \<and> (netpol_event ev \<or> (\<exists>cm ok. ev = UpdatedConfigMap cm ok))"

definition stops_at_refusal :: "event list \<Rightarrow> bool" where
  "stops_at_refusal evs \<longleftrightarrow> (\<exists>pre ev. evs = pre @ [ev] \<and> refused ev \<and> list_all early pre)"

lemma refused_simps [simp]:
  "refused (CreatedNetpol np ok) \<longleftrightarrow> \<not> ok" "refused (UpdatedNetpol np ok) \<longleftrightarrow> \<not> ok"
  "\<not> refused (UpdatedConfigMap cm ok)" "\<not> refused (UpdatedApi a ok)" "\<not> refused (UpdatedStatus a ok)"
  "early (CreatedNetpol np ok) \<longleftrightarrow> ok" "early (UpdatedNetpol np ok) \<longleftrightarrow> ok" "early (UpdatedConfigMap cm ok)"
  by (auto simp: refused_def early_def)

lemma accepted_simps [simp]:
  "accepted []" "accepted (ev # evs) \<longleftrightarrow> \<not> refused ev \<and> accepted evs"
  "accepted (xs @ ys) \<longleftrightarrow> accepted xs \<and> accepted ys"
  by (simp_all add: accepted_def)

lemma stops_Cons: "early ev \<Longrightarrow> stops_at_refusal evs \<Longrightarrow> stops_at_refusal (ev # evs)"
  unfolding stops_at_refusal_def by (metis append_Cons list.pred_inject(2))

lemma stops_refused: "refused ev \<Longrightarrow> stops_at_refusal [ev]"
  unfolding stops_at_refusal_def by force

text \<open>For a part of a run that answers \<open>r\<close>: no refusal, or it stopped there with an error.\<close>

lemma emits_netpol_loop_refusal:
  "emits (ensureAppIngressNetpol_loop (recording c) a apps)
     (\<lambda>r evs. (accepted evs \<and> list_all early evs) \<or> (r \<noteq> None \<and> stops_at_refusal evs))"
proof (induction apps)
  case Nil
  show ?case by (auto intro!: emits_return)
next
  case (Cons app apps)
  have go_on: "emits (ensureAppIngressNetpol_loop (recording c) a apps)
      (\<lambda>r evs. accepted evs \<and> list_all early evs \<or> (\<exists>y. r = Some y) \<and> stops_at_refusal (ev # evs))"
    if "early ev" for ev
    by (rule emits_weaken[OF Cons.IH]) (use that in \<open>auto intro: stops_Cons\<close>)
  show ?case
    by (auto simp: is_ok_def intro!: emits_bind_read emits_bind_write emits_return go_on stops_refused split: sum.split)
qed

lemma finish_trace_accepted: "finish_trace h evs \<Longrightarrow> accepted evs"
  by (auto simp: finish_trace_def api_trace_def status_trace_def)

lemma deleted_trace_accepted: "deleted_trace evs \<or> api_trace evs \<Longrightarrow> accepted evs"
  by (auto simp: deleted_trace_def api_trace_def)

definition unnoticed :: "error option \<Rightarrow> event list \<Rightarrow> bool" where
  "unnoticed r evs \<longleftrightarrow> accepted evs \<or> (r = None \<and> stops_at_refusal evs)"

lemma emits_netpols_unnoticed:
  "emits (do {
      n \<leftarrow> ensureAppIngressNetpol (recording c) r a;
      (case n of Some err \<Rightarrow> State_Monad.return None | None \<Rightarrow> finish_sync (recording c) lib req k h)
    }) (\<lambda>r evs. unnoticed r (UpdatedConfigMap cm True # evs))"
  unfolding ensureAppIngressNetpol_def
proof (rule emits_bind[OF emits_netpol_loop_refusal], goal_cases)
  case (1 n evs)
  have "emits (finish_sync (recording c) lib req k h) (\<lambda>r evs'. unnoticed r (UpdatedConfigMap cm True # evs @ evs'))"
    if "accepted evs"
    by (rule emits_weaken[OF emits_finish_sync]) (use that in \<open>auto simp: unnoticed_def dest: finish_trace_accepted\<close>)
  with 1 show ?case
    by (auto simp: unnoticed_def intro!: emits_return stops_Cons split: option.split)
qed

lemma emits_Reconcile_sync_unnoticed: "emits (Reconcile_sync (recording c) lib r req a h) unnoticed"
proof -
  have cm: "cm_trace u evs \<Longrightarrow> accepted evs" for u evs by (auto simp: cm_trace_def)
  have fin: "emits (finish_sync (recording c) lib req k h) (\<lambda>r evs'. unnoticed r (UpdatedConfigMap cm True # evs'))" for k cm
    by (rule emits_weaken[OF emits_finish_sync]) (auto simp: unnoticed_def dest: finish_trace_accepted)
  show ?thesis
    unfolding Reconcile_sync_def recording_simps
    by (auto simp: cm_trace_def unnoticed_def[of _ "[]"] unnoticed_def[of _ "[_]"]
        intro!: emits_netpols_unnoticed fin emits_return emits_bind_read emits_bind[OF emits_updateKrakendConfigMap]
        split: sum.split option.split)
qed

lemma emits_Reconcile_live_unnoticed: "emits (Reconcile_live (recording c) lib r req a) unnoticed"
proof (cases "hashEndpoints lib (ae_Spec a)")
  case (Inl err)
  then show ?thesis by (auto simp: Reconcile_live_def unnoticed_def intro!: emits_return)
next
  case (Inr h)
  show ?thesis
    unfolding Reconcile_live_def Inr sum.case
    by (rule emits_bind[where P = "\<lambda>_ evs. evs = []"])
      (auto simp: unnoticed_def[of _ "[]"] intro!: emits_return emits_Reconcile_sync_unnoticed emits_bind[OF emits_needsSync])
qed

lemma Reconcile_trace_unnoticed: "case_prod unnoticed (Reconcile_trace c lib r req s)"
proof (cases "run_state (Get_ApiEndpoints c req) s")
  case (Pair g s1)
  show ?thesis
  proof (cases g)
    case (Inl err)
    with Pair show ?thesis by (simp add: Reconcile_trace_eq unnoticed_def)
  next
    case (Inr a)
    have "emits (Reconcile_deleted (recording c) lib a) unnoticed"
      by (rule emits_weaken[OF emits_Reconcile_deleted]) (simp add: unnoticed_def deleted_trace_accepted)
    then have "emits (if om_DeletionTimestamp (ae_Meta a) \<noteq> None
        then Reconcile_deleted (recording c) lib a
        else Reconcile_live (recording c) lib r req a) unnoticed"
      by (simp add: emits_Reconcile_live_unnoticed)
    from run_emits[OF this] obtain e s' tr where "run_state (if om_DeletionTimestamp (ae_Meta a) \<noteq> None
        then Reconcile_deleted (recording c) lib a
        else Reconcile_live (recording c) lib r req a) (s1, []) = (e, (s', tr))" "unnoticed e tr" by blast
    with Pair Inr show ?thesis by (simp add: Reconcile_trace_eq)
  qed
qed

end
