(* ===== verification/Mem_Cluster.thy ===== *)
theory Mem_Cluster
  imports Controller_Store Controller_Traces
begin

text \<open>
  A small executable API server that obeys the laws of \<^verbatim>\<open>Store_Laws\<close>: objects in lists, looked up
  by namespace and name, optimistic locking on resource versions, a status subresource, deletion
  held back by finalizers, a clock that advances with every call, and a switch that forbids the
  creation of network policies. It models no source file; it shows that the laws can hold, and it
  is the cluster on which the controller is evaluated.
\<close>

section \<open>Keyed lists\<close>

definition lookup :: "('a \<Rightarrow> ObjectMeta) \<Rightarrow> 'a list \<Rightarrow> NamespacedName \<rightharpoonup> 'a" where
  "lookup f xs nn = find (\<lambda>x. meta_key (f x) = nn) xs"

definition remove_obj :: "('a \<Rightarrow> ObjectMeta) \<Rightarrow> NamespacedName \<Rightarrow> 'a list \<Rightarrow> 'a list" where
  "remove_obj f nn xs = filter (\<lambda>x. meta_key (f x) \<noteq> nn) xs"

definition store_obj :: "('a \<Rightarrow> ObjectMeta) \<Rightarrow> 'a \<Rightarrow> 'a list \<Rightarrow> 'a list" where
  "store_obj f x xs = x # remove_obj f (meta_key (f x)) xs"

definition list_objs :: "('a \<Rightarrow> ObjectMeta) \<Rightarrow> string \<Rightarrow> 'a list \<Rightarrow> 'a list" where
  "list_objs f ns xs =
     map (\<lambda>nn. the (lookup f xs nn)) (filter (\<lambda>nn. nn_Namespace nn = ns) (remdups (map (\<lambda>x. meta_key (f x)) xs)))"

definition get_obj :: "('a \<Rightarrow> ObjectMeta) \<Rightarrow> 'a list \<Rightarrow> NamespacedName \<Rightarrow> 'a result" where
  "get_obj f xs nn = (case lookup f xs nn of None \<Rightarrow> Inl (KubeErr (NotFound (nn_Name nn))) | Some x \<Rightarrow> Inr x)"

lemma lookup_Some_key: "lookup f xs nn = Some x \<Longrightarrow> meta_key (f x) = nn \<and> x \<in> set xs"
  by (auto simp: lookup_def find_Some_iff)

lemma lookup_None: "lookup f xs nn = None \<longleftrightarrow> nn \<notin> (\<lambda>x. meta_key (f x)) ` set xs"
  by (auto simp: lookup_def find_None_iff)

lemma lookup_remove: "lookup f (remove_obj f nn xs) = (lookup f xs)(nn := None)"
  by (rule ext, induction xs) (auto simp: lookup_def remove_obj_def)

lemma lookup_store: "lookup f (store_obj f x xs) = (lookup f xs)(meta_key (f x) \<mapsto> x)"
proof
  fix nn
  have "lookup f (x # ys) nn = (if meta_key (f x) = nn then Some x else lookup f ys nn)" for ys
    by (simp add: lookup_def)
  then show "lookup f (store_obj f x xs) nn = ((lookup f xs)(meta_key (f x) \<mapsto> x)) nn"
    by (simp add: store_obj_def lookup_remove)
qed

lemma answers_get_obj: "answers (get_obj f xs nn) (lookup f xs nn)"
  by (simp add: get_obj_def split: option.split)

lemma distinct_list_objs: "distinct (list_objs f ns xs)"
proof -
  have "inj_on (\<lambda>nn. the (lookup f xs nn)) ((\<lambda>x. meta_key (f x)) ` set xs)"
    by (rule inj_onI) (metis lookup_None lookup_Some_key option.collapse)
  then show ?thesis
    by (auto simp: list_objs_def distinct_map elim: inj_on_subset)
qed

lemma set_list_objs: "set (list_objs f ns xs) = {x. \<exists>nn. lookup f xs nn = Some x \<and> nn_Namespace nn = ns}"
proof (intro equalityI subsetI)
  fix x assume "x \<in> set (list_objs f ns xs)"
  then obtain nn where "x = the (lookup f xs nn)" "nn_Namespace nn = ns" "lookup f xs nn \<noteq> None"
    unfolding list_objs_def lookup_None by auto
  then show "x \<in> {x. \<exists>nn. lookup f xs nn = Some x \<and> nn_Namespace nn = ns}" by auto
next
  fix x assume "x \<in> {x. \<exists>nn. lookup f xs nn = Some x \<and> nn_Namespace nn = ns}"
  then obtain nn where nn: "lookup f xs nn = Some x" "nn_Namespace nn = ns" by blast
  then have "nn \<in> (\<lambda>x. meta_key (f x)) ` set xs" by (metis lookup_None option.distinct(1))
  with nn show "x \<in> set (list_objs f ns xs)"
    unfolding list_objs_def by (force simp: image_iff)
qed

section \<open>The server\<close>

record cluster =
  cl_apis :: "ApiEndpoints list"
  cl_krakends :: "Krakend list"
  cl_cms :: "ConfigMap list"
  cl_nps :: "NetworkPolicy list"
  cl_version :: nat
  cl_time :: int
  cl_forbid_np :: bool

definition tick :: "cluster \<Rightarrow> cluster" where
  "tick s = s\<lparr>cl_version := Suc (cl_version s), cl_time := cl_time s + 1000000\<rparr>"

definition version :: "cluster \<Rightarrow> string" where
  "version s = Itoa (int (cl_version s))"

definition conflict :: "ObjectMeta \<Rightarrow> error" where
  "conflict m = KubeErr (Conflict (om_Name m))"

definition read_op :: "(cluster \<Rightarrow> 'a) \<Rightarrow> (cluster, 'a) io" where
  "read_op f = State (\<lambda>s. (f s, tick s))"

definition write_op :: "(cluster \<Rightarrow> error + cluster) \<Rightarrow> (cluster, unit result) io" where
  "write_op f = State (\<lambda>s. case f s of Inl e \<Rightarrow> (Inl e, tick s) | Inr s' \<Rightarrow> (Inr (), tick s'))"

definition locked :: "('a \<Rightarrow> ObjectMeta) \<Rightarrow> 'a list \<Rightarrow> 'a \<Rightarrow> ('a \<Rightarrow> cluster) \<Rightarrow> error + cluster" where
  "locked f xs x k =
     (case lookup f xs (meta_key (f x)) of
        None \<Rightarrow> Inl (KubeErr (NotFound (om_Name (f x))))
      | Some old \<Rightarrow> (if om_ResourceVersion (f old) = om_ResourceVersion (f x) then Inr (k old) else Inl (conflict (f x))))"

definition mem_client :: "cluster Client" where
  "mem_client =
     \<lparr>Get_ApiEndpoints = (\<lambda>nn. read_op (\<lambda>s. get_obj ae_Meta (cl_apis s) nn)),
      Get_Krakend = (\<lambda>nn. read_op (\<lambda>s. get_obj kr_Meta (cl_krakends s) nn)),
      Get_ConfigMap = (\<lambda>nn. read_op (\<lambda>s. get_obj cm_Meta (cl_cms s) nn)),
      Get_NetworkPolicy = (\<lambda>nn. read_op (\<lambda>s. get_obj np_Meta (cl_nps s) nn)),
      List_ApiEndpoints = (\<lambda>ns. read_op (\<lambda>s. Inr \<lparr>ael_Items = list_objs ae_Meta ns (cl_apis s)\<rparr>)),
      Create_NetworkPolicy = (\<lambda>np. write_op (\<lambda>s.
        if cl_forbid_np s then Inl (KubeErr (OtherApiError ''forbidden''))
        else case lookup np_Meta (cl_nps s) (meta_key (np_Meta np)) of
          Some old \<Rightarrow> Inl (KubeErr (AlreadyExists (om_Name (np_Meta np))))
        | None \<Rightarrow> Inr (s\<lparr>cl_nps := store_obj np_Meta (stored_np (version s) np) (cl_nps s)\<rparr>))),
      Update_NetworkPolicy = (\<lambda>np. write_op (\<lambda>s. locked np_Meta (cl_nps s) np (\<lambda>old.
        s\<lparr>cl_nps := store_obj np_Meta (stored_np (version s) np) (cl_nps s)\<rparr>))),
      Update_ConfigMap = (\<lambda>cm. write_op (\<lambda>s. locked cm_Meta (cl_cms s) cm (\<lambda>old.
        s\<lparr>cl_cms := store_obj cm_Meta (stored_cm (version s) cm) (cl_cms s)\<rparr>))),
      Update_ApiEndpoints = (\<lambda>a. write_op (\<lambda>s. locked ae_Meta (cl_apis s) a (\<lambda>old.
        s\<lparr>cl_apis := (case stored_api (version s) old a of
            None \<Rightarrow> remove_obj ae_Meta (ae_key a) (cl_apis s)
          | Some a' \<Rightarrow> store_obj ae_Meta a' (cl_apis s))\<rparr>))),
      Status_Update_ApiEndpoints = (\<lambda>a. write_op (\<lambda>s. locked ae_Meta (cl_apis s) a (\<lambda>old.
        s\<lparr>cl_apis := store_obj ae_Meta (stored_status (version s) old a) (cl_apis s)\<rparr>))),
      Now = read_op cl_time\<rparr>"

definition mem_view :: "cluster \<Rightarrow> cluster_view" where
  "mem_view s =
     \<lparr>vw_api = lookup ae_Meta (cl_apis s), vw_krakend = lookup kr_Meta (cl_krakends s),
      vw_cm = lookup cm_Meta (cl_cms s), vw_np = lookup np_Meta (cl_nps s)\<rparr>"

lemma mem_view_sel [simp]:
  "vw_api (mem_view s) = lookup ae_Meta (cl_apis s)"
  "vw_krakend (mem_view s) = lookup kr_Meta (cl_krakends s)"
  "vw_cm (mem_view s) = lookup cm_Meta (cl_cms s)"
  "vw_np (mem_view s) = lookup np_Meta (cl_nps s)"
  by (simp_all add: mem_view_def)

lemma mem_view_tick [simp]: "mem_view (tick s) = mem_view s" "cl_time (tick s) = cl_time s + 1000000"
  by (simp_all add: mem_view_def tick_def)

lemma wp_read_op [simp]: "wp (read_op f) P s \<longleftrightarrow> P (f s) (tick s)"
  by (simp add: wp_def read_op_def)

lemma wp_write_op:
  "wp (write_op f) P s \<longleftrightarrow> (case f s of Inl e \<Rightarrow> P (Inl e) (tick s) | Inr s' \<Rightarrow> P (Inr ()) (tick s'))"
  by (simp add: wp_def write_op_def split: sum.split)

lemma stored_keys [simp]:
  "meta_key (np_Meta (stored_np v np)) = meta_key (np_Meta np)"
  "meta_key (cm_Meta (stored_cm v cm)) = meta_key (cm_Meta cm)"
  "meta_key (ae_Meta (stored_status v old a)) = meta_key (ae_Meta old)"
  "stored_api v old a = Some a' \<Longrightarrow> meta_key (ae_Meta a') = meta_key (ae_Meta a)"
  by (auto simp: meta_key_def stored_np_def stored_cm_def stored_status_def stored_api_def stamped_def
      split: if_splits)

lemma mem_view_upd:
  "mem_view (s\<lparr>cl_apis := store_obj ae_Meta a (cl_apis s)\<rparr>) =
     (mem_view s)\<lparr>vw_api := (vw_api (mem_view s))(meta_key (ae_Meta a) \<mapsto> a)\<rparr>"
  "mem_view (s\<lparr>cl_apis := remove_obj ae_Meta nn (cl_apis s)\<rparr>) =
     (mem_view s)\<lparr>vw_api := (vw_api (mem_view s))(nn := None)\<rparr>"
  "mem_view (s\<lparr>cl_cms := store_obj cm_Meta cm (cl_cms s)\<rparr>) =
     (mem_view s)\<lparr>vw_cm := (vw_cm (mem_view s))(meta_key (cm_Meta cm) \<mapsto> cm)\<rparr>"
  "mem_view (s\<lparr>cl_nps := store_obj np_Meta np (cl_nps s)\<rparr>) =
     (mem_view s)\<lparr>vw_np := (vw_np (mem_view s))(meta_key (np_Meta np) \<mapsto> np)\<rparr>"
  by (simp_all add: mem_view_def lookup_store lookup_remove)

lemma mem_update_api:
  "wp (Update_ApiEndpoints mem_client a)
    (\<lambda>r s'. cl_time s \<le> cl_time s' \<and>
      (mem_view s' = mem_view s \<and> \<not> is_ok r \<or>
       (\<exists>v old. vw_api (mem_view s) (ae_key a) = Some old \<and>
         mem_view s' = (mem_view s)\<lparr>vw_api := (vw_api (mem_view s))(ae_key a := stored_api v old a)\<rparr>))) s"
proof (cases "lookup ae_Meta (cl_apis s) (ae_key a)")
  case None
  then show ?thesis by (simp add: mem_client_def wp_write_op locked_def ae_key_meta)
next
  case (Some old)
  show ?thesis
  proof (cases "stored_api (version s) old a")
    case None
    with Some show ?thesis
      by (auto simp: mem_client_def wp_write_op locked_def ae_key_meta mem_view_upd simp del: mem_view_sel
          simp: mem_view_sel(1)[symmetric] intro!: exI[of _ "version s"])
  next
    case (Some a')
    with \<open>lookup _ _ _ = Some old\<close> show ?thesis
      by (auto simp: mem_client_def wp_write_op locked_def ae_key_meta mem_view_upd
          intro!: exI[of _ "version s"])
  qed
qed

lemma mem_update_status:
  "wp (Status_Update_ApiEndpoints mem_client a)
    (\<lambda>r s'. cl_time s \<le> cl_time s' \<and>
      (mem_view s' = mem_view s \<and> \<not> is_ok r \<or>
       (\<exists>v old. vw_api (mem_view s) (ae_key a) = Some old \<and>
         mem_view s' = (mem_view s)\<lparr>vw_api := (vw_api (mem_view s))(ae_key a \<mapsto> stored_status v old a)\<rparr>))) s"
proof (cases "lookup ae_Meta (cl_apis s) (ae_key a)")
  case None
  then show ?thesis by (simp add: mem_client_def wp_write_op locked_def ae_key_meta)
next
  case (Some old)
  then have "meta_key (ae_Meta old) = ae_key a" by (auto dest: lookup_Some_key)
  with Some show ?thesis
    by (auto simp: mem_client_def wp_write_op locked_def ae_key_meta mem_view_upd
        intro!: exI[of _ "version s"])
qed

interpretation mem: kube_store mem_client mem_view cl_time
proof unfold_locales
  show "wp (Update_ApiEndpoints mem_client a)
    (\<lambda>r s'. cl_time s \<le> cl_time s' \<and>
      (mem_view s' = mem_view s \<and> \<not> is_ok r \<or>
       (\<exists>v old. vw_api (mem_view s) (ae_key a) = Some old \<and>
         mem_view s' = (mem_view s)\<lparr>vw_api := (vw_api (mem_view s))(ae_key a := stored_api v old a)\<rparr>))) s" for a s
    by (rule mem_update_api)
  show "wp (Status_Update_ApiEndpoints mem_client a)
    (\<lambda>r s'. cl_time s \<le> cl_time s' \<and>
      (mem_view s' = mem_view s \<and> \<not> is_ok r \<or>
       (\<exists>v old. vw_api (mem_view s) (ae_key a) = Some old \<and>
         mem_view s' = (mem_view s)\<lparr>vw_api := (vw_api (mem_view s))(ae_key a \<mapsto> stored_status v old a)\<rparr>))) s" for a s
    by (rule mem_update_status)
qed (auto simp: mem_client_def wp_write_op locked_def mem_view_upd in_namespace_def
    answers_get_obj set_list_objs distinct_list_objs dest: lookup_Some_key split: option.split)

section \<open>The finalizer helpers\<close>

definition std_lib :: "(ApiEndpointsSpec \<Rightarrow> (64 word) result) \<Rightarrow> Lib" where
  "std_lib h =
     \<lparr>Hash = h,
      AddFinalizer = (\<lambda>a f. if f \<in> set (om_Finalizers (ae_Meta a)) then (False, a)
        else (True, a\<lparr>ae_Meta := (ae_Meta a)\<lparr>om_Finalizers := om_Finalizers (ae_Meta a) @ [f]\<rparr>\<rparr>)),
      RemoveFinalizer = (\<lambda>a f.
        (f \<in> set (om_Finalizers (ae_Meta a)),
         a\<lparr>ae_Meta := (ae_Meta a)\<lparr>om_Finalizers := filter (\<lambda>g. g \<noteq> f) (om_Finalizers (ae_Meta a))\<rparr>\<rparr>))\<rparr>"

interpretation mem: api_sync mem_client mem_view cl_time "std_lib h"
  by unfold_locales (simp_all add: std_lib_def)

section \<open>Running the server\<close>

lemma run_read_op [run_simps]: "run_state (read_op f) s = (f s, tick s)"
  by (simp add: read_op_def)

lemma run_write_op [run_simps]:
  "run_state (write_op f) s = (case f s of Inl e \<Rightarrow> (Inl e, tick s) | Inr s' \<Rightarrow> (Inr (), tick s'))"
  by (simp add: write_op_def)

lemma tick_sel [simp]:
  "cl_apis (tick s) = cl_apis s" "cl_krakends (tick s) = cl_krakends s" "cl_cms (tick s) = cl_cms s"
  "cl_nps (tick s) = cl_nps s" "cl_forbid_np (tick s) = cl_forbid_np s"
  by (simp_all add: tick_def)

lemma mem_client_simps:
  "Get_ApiEndpoints mem_client nn = read_op (\<lambda>s. get_obj ae_Meta (cl_apis s) nn)"
  "Get_Krakend mem_client nn = read_op (\<lambda>s. get_obj kr_Meta (cl_krakends s) nn)"
  "Get_ConfigMap mem_client nn = read_op (\<lambda>s. get_obj cm_Meta (cl_cms s) nn)"
  "Get_NetworkPolicy mem_client nn = read_op (\<lambda>s. get_obj np_Meta (cl_nps s) nn)"
  "List_ApiEndpoints mem_client ns = read_op (\<lambda>s. Inr \<lparr>ael_Items = list_objs ae_Meta ns (cl_apis s)\<rparr>)"
  "Create_NetworkPolicy mem_client np = write_op (\<lambda>s.
        if cl_forbid_np s then Inl (KubeErr (OtherApiError ''forbidden''))
        else case lookup np_Meta (cl_nps s) (meta_key (np_Meta np)) of
          Some old \<Rightarrow> Inl (KubeErr (AlreadyExists (om_Name (np_Meta np))))
        | None \<Rightarrow> Inr (s\<lparr>cl_nps := store_obj np_Meta (stored_np (version s) np) (cl_nps s)\<rparr>))"
  "Update_NetworkPolicy mem_client np = write_op (\<lambda>s. locked np_Meta (cl_nps s) np (\<lambda>old.
        s\<lparr>cl_nps := store_obj np_Meta (stored_np (version s) np) (cl_nps s)\<rparr>))"
  "Update_ConfigMap mem_client cm = write_op (\<lambda>s. locked cm_Meta (cl_cms s) cm (\<lambda>old.
        s\<lparr>cl_cms := store_obj cm_Meta (stored_cm (version s) cm) (cl_cms s)\<rparr>))"
  "Update_ApiEndpoints mem_client a = write_op (\<lambda>s. locked ae_Meta (cl_apis s) a (\<lambda>old.
        s\<lparr>cl_apis := (case stored_api (version s) old a of
            None \<Rightarrow> remove_obj ae_Meta (ae_key a) (cl_apis s)
          | Some a' \<Rightarrow> store_obj ae_Meta a' (cl_apis s))\<rparr>))"
  "Status_Update_ApiEndpoints mem_client a = write_op (\<lambda>s. locked ae_Meta (cl_apis s) a (\<lambda>old.
        s\<lparr>cl_apis := store_obj ae_Meta (stored_status (version s) old a) (cl_apis s)\<rparr>))"
  "Now mem_client = read_op cl_time"
  by (simp_all add: mem_client_def)

lemmas mem_defs = lookup_def get_obj_def store_obj_def remove_obj_def list_objs_def locked_def
  conflict_def meta_key_def stored_api_def stored_status_def stored_cm_def stored_np_def stamped_def

end
