(* ===== verification/Sync_Properties.thy ===== *)
theory Sync_Properties
  imports Mem_Cluster Admission
begin

text \<open>
  The properties of the ApiEndpoints controller as a whole: on every client what is written in which
  order, on every store that obeys the laws what a run achieves, and evaluations of both on the
  executable cluster.
\<close>

section \<open>A concrete cluster\<close>

definition sample_cm :: ConfigMap where
  "sample_cm = \<lparr>cm_TypeMeta = \<lparr>tm_Kind = ''ConfigMap'', tm_APIVersion = ''v1''\<rparr>,
     cm_Meta = sample_meta ''ns1-krakend-partials'', cm_Data = [KrakendConfigMapKey \<mapsto> ''[]'']\<rparr>"

definition sample_cluster :: "ApiEndpoints list \<Rightarrow> bool \<Rightarrow> cluster" where
  "sample_cluster apis forbid =
     \<lparr>cl_apis = apis, cl_krakends = [sample_krakend], cl_cms = [sample_cm], cl_nps = [],
      cl_version = 1, cl_time = 1700000000000000000, cl_forbid_np = forbid\<rparr>"

definition sample_lib :: Lib where
  "sample_lib = std_lib (\<lambda>spec. Inr (word_of_nat (length (as_Endpoints spec))))"

definition sample_reconciler :: "bool \<Rightarrow> ApiEndpointsReconciler" where
  "sample_reconciler netpols =
     \<lparr>ar_SyncInterval = 60000000000, ar_NetpolEnabled = netpols, ar_ClusterDomain = ''cluster.local''\<rparr>"

definition sample_run :: "bool \<Rightarrow> ApiEndpoints \<Rightarrow> cluster \<Rightarrow> error option \<times> cluster" where
  "sample_run netpols a = run_state (Reconcile mem_client sample_lib (sample_reconciler netpols) (ae_key a))"

lemmas sample_run_defs = sample_run_def sample_cluster_def sample_cm_def sample_lib_def sample_reconciler_def
  sample_defs std_lib_def

lemmas reconcile_defs = Reconcile_def Reconcile_live_def Reconcile_sync_def Reconcile_deleted_def
  hashEndpoints_def needsSync_def krakendName_def updateKrakendConfigMap_def publish_partials_def cm_entry_def
  cmName_def partials_text_def ToKrakendEndpoints_def parseKrakendEndpointsSpec_def findAuthProvider_def
  json_Marshal_def finish_sync_def write_status_def ensure_metadata_def remove_finalizer_def ae_key_def
  KrakendConfigMapKey_def KrakendFinalizer_def kr_ownerRef_def

lemma sample_run_ok: "fst (sample_run False sample_app1 (sample_cluster [sample_app1] False)) = None"
  by (simp add: sample_run_defs run_simps mem_client_simps mem_defs reconcile_defs)

lemma sample_sync: "api_sync mem_client mem_view cl_time sample_lib"
  unfolding sample_lib_def by (rule mem.api_sync_axioms)

lemma sample_due: "due sample_lib (sample_reconciler b) sample_app1 t"
  by (simp add: due_def hashEndpoints_def sample_run_defs)

lemma sample_view:
  "vw_api (mem_view (sample_cluster [sample_app1] b)) (ae_key sample_app1) = Some sample_app1"
  "vw_krakend (mem_view (sample_cluster apis b)) (kr_nn sample_app1) = Some sample_krakend"
  by (simp_all add: sample_run_defs mem_defs ae_key_def kr_nn_def krakendName_def)

lemma Sprintf_x_1 [simp]: "Sprintf_x 1 = ''1''"
  by code_simp

lemma sample_run_time:
  "cl_time (snd (sample_run False sample_app1 (sample_cluster [sample_app1] False))) = 1700000000011000000"
  by (simp add: sample_run_defs run_simps mem_client_simps mem_defs reconcile_defs tick_def)

lemma sample_run_api:
  "get_obj ae_Meta (cl_apis (snd (sample_run False sample_app1 (sample_cluster [sample_app1] False))))
     (ae_key sample_app1) = Inr (sample_app1
       \<lparr>ae_Meta := (ae_Meta sample_app1)\<lparr>om_Finalizers := [KrakendFinalizer],
          om_OwnerReferences := Some (kr_ownerRef sample_krakend), om_ResourceVersion := Itoa 11\<rparr>,
        ae_Status := \<lparr>es_SynchronizationTimestamp = 1700000000000000000, es_SynchronizationHash = ''1''\<rparr>\<rparr>)"
  by (simp add: sample_run_defs run_simps mem_client_simps mem_defs reconcile_defs tick_def version_def to_second_def)

lemma sample_skip_time:
  assumes "get_obj ae_Meta (cl_apis s) (ae_key sample_app1) = Inr a"
    and "om_DeletionTimestamp (ae_Meta a) = None" "length (as_Endpoints (ae_Spec a)) = 1"
    and "es_SynchronizationHash (ae_Status a) = ''1''"
    and "cl_time s + 1000000 - 60000000000 \<le> es_SynchronizationTimestamp (ae_Status a)"
  shows "cl_time (snd (sample_run False sample_app1 s)) = cl_time s + 2000000"
  using assms
  by (simp add: sample_run_def Reconcile_def run_simps Reconcile_live_def needsSync_def hashEndpoints_def
      mem_client_simps sample_lib_def std_lib_def sample_reconciler_def outside_window_def)

definition sample_deleted :: ApiEndpoints where
  "sample_deleted = sample_app1\<lparr>ae_Meta := (ae_Meta sample_app1)
     \<lparr>om_DeletionTimestamp := Some 1700000000000000000, om_Finalizers := [KrakendFinalizer]\<rparr>\<rparr>"

lemma sample_deleted_ok:
  "fst (sample_run False sample_deleted (sample_cluster [sample_deleted, sample_app2] False)) = None"
  "vw_api (mem_view (sample_cluster [sample_deleted, sample_app2] False)) (ae_key sample_deleted) = Some sample_deleted"
  "ae_deleted sample_deleted"
  by (simp_all add: sample_deleted_def sample_run_defs run_simps mem_client_simps mem_defs reconcile_defs)

lemma run_None: "fst (run_state m s) = None \<Longrightarrow> run_state m s = (None, snd (run_state m s))"
  by (metis prod.collapse)

section \<open>What a run achieves\<close>

text \<open>
  C13. Publication. On a store that obeys the laws, a run for a resource that is being deleted, or
  whose synchronisation is due, and that answers no error leaves the Krakend's ConfigMap in step:
  its entry is the JSON of the conversion of exactly the resources of the namespace that are not
  being deleted.
\<close>

theorem Reconcile_publishes:
  assumes "api_sync c view clock lib"
    and "run_state (Reconcile c lib r req) s = (None, s')"
    and "vw_api (view s) req = Some a" "vw_krakend (view s) (kr_nn a) = Some k"
    and "ae_deleted a \<or> due lib r a (clock s)"
  shows "in_step k (view s')"
  using wpD[OF api_sync.wp_Reconcile[OF assms(1,3)] assms(2)] assms(4,5)
  by (auto simp: synced_def split: if_splits)

theorem Reconcile_publishes_witness:
  "in_step sample_krakend (mem_view (snd (sample_run False sample_app1 (sample_cluster [sample_app1] False))))"
proof -
  let ?s = "sample_cluster [sample_app1] False"
  have run: "run_state (Reconcile mem_client sample_lib (sample_reconciler False) (ae_key sample_app1)) ?s =
      (None, snd (sample_run False sample_app1 ?s))"
    using sample_run_ok unfolding sample_run_def by (rule run_None)
  show ?thesis
    by (rule Reconcile_publishes[OF sample_sync run sample_view]) (simp add: sample_due)
qed

lemma Reconcile_settled:
  assumes "api_sync c view clock lib"
    and "run_state (Reconcile c lib r req) s = (None, s')"
    and "vw_api (view s) req = Some a" "\<not> ae_deleted a" "due lib r a (clock s)"
    and "vw_api (view s') \<noteq> vw_api (view s) \<or> \<not> ar_NetpolEnabled r"
  obtains h t a' where "hashEndpoints lib (ae_Spec a) = Inr h" "clock s \<le> t" "t \<le> clock s'"
    "vw_api (view s') req = Some a'" "ae_Spec a' = ae_Spec a" "\<not> ae_deleted a'"
    "KrakendFinalizer \<in> set (om_Finalizers (ae_Meta a'))" "om_OwnerReferences (ae_Meta a') \<noteq> None"
    "ae_Status a' = \<lparr>es_SynchronizationTimestamp = to_second t, es_SynchronizationHash = h\<rparr>"
    "ar_NetpolEnabled r \<longrightarrow> covered a (appsInNamespace r a) (view s) (view s')"
proof -
  obtain h where h: "hashEndpoints lib (ae_Spec a) = Inr h"
    and "synced r req a h (clock s) (clock s') (view s) (view s')"
    using wpD[OF api_sync.wp_Reconcile[OF assms(1,3)] assms(2)] assms(4,5) by auto
  then have settled: "settled r req a h (clock s) (clock s') (view s) (view s')"
    using assms(6) unfolding synced_def by blast
  then obtain t where t: "clock s \<le> t" "t \<le> clock s'" "recorded req h t (view s) (view s')"
    unfolding settled_def by blast
  then obtain a' where "vw_api (view s') req = Some a'" "ae_Spec a' = ae_Spec a"
    "om_DeletionTimestamp (ae_Meta a') = om_DeletionTimestamp (ae_Meta a)"
    "KrakendFinalizer \<in> set (om_Finalizers (ae_Meta a'))" "om_OwnerReferences (ae_Meta a') \<noteq> None"
    "ae_Status a' = \<lparr>es_SynchronizationTimestamp = to_second t, es_SynchronizationHash = h\<rparr>"
    unfolding recorded_def assms(3) option.inject by blast
  with that h t(1,2) settled assms(4) show thesis unfolding settled_def by auto
qed



text \<open>
  C14. No endless reconciliation. Writing the status triggers the next run; after a complete run
  that next run, whatever it answers, changes nothing in the cluster as long as it ends within the
  synchronisation interval, less the second lost when the time is stored.
\<close>

theorem Reconcile_settles:
  assumes "api_sync c view clock lib"
    and "run_state (Reconcile c lib r req) s = (None, s1)"
    and "vw_api (view s) req = Some a" "\<not> ae_deleted a" "due lib r a (clock s)"
    and "vw_api (view s1) \<noteq> vw_api (view s) \<or> \<not> ar_NetpolEnabled r"
    and "run_state (Reconcile c lib r req) s1 = (answer, s2)"
    and "clock s2 - clock s + 1000000000 \<le> sint (ar_SyncInterval r)"
  shows "view s2 = view s1"
proof (rule Reconcile_settled[OF assms(1-6)])
  fix h t a'
  assume h: "hashEndpoints lib (ae_Spec a) = Inr h" and t: "clock s \<le> t" "t \<le> clock s1"
    and a': "vw_api (view s1) req = Some a'" "ae_Spec a' = ae_Spec a" "\<not> ae_deleted a'"
    and st: "ae_Status a' = \<lparr>es_SynchronizationTimestamp = to_second t, es_SynchronizationHash = h\<rparr>"
  note second = wpD[OF api_sync.wp_Reconcile[OF assms(1) a'(1)] assms(7)]
  have "t - 1000000000 < to_second t" unfolding to_second_def by presburger
  moreover have "clock s1 \<le> clock s2" using second by blast
  ultimately have "\<not> outside_window (ar_SyncInterval r) (clock s2) (to_second t)"
    using assms(8) t by (auto simp: outside_window_iff split: if_splits)
  then have "\<not> due lib r a' (clock s2)" by (simp add: due_def h a'(2) st)
  with second a'(3) show "view s2 = view s1" by simp
qed

theorem Reconcile_settles_witness:
  "mem_view (snd (sample_run False sample_app1 (snd (sample_run False sample_app1 (sample_cluster [sample_app1] False))))) =
   mem_view (snd (sample_run False sample_app1 (sample_cluster [sample_app1] False)))"
proof -
  let ?s = "sample_cluster [sample_app1] False"
  let ?s1 = "snd (sample_run False sample_app1 ?s)"
  let ?s2 = "snd (sample_run False sample_app1 ?s1)"
  have run: "run_state (Reconcile mem_client sample_lib (sample_reconciler False) (ae_key sample_app1)) ?s = (None, ?s1)"
    using sample_run_ok unfolding sample_run_def by (rule run_None)
  have run2: "run_state (Reconcile mem_client sample_lib (sample_reconciler False) (ae_key sample_app1)) ?s1 =
      (fst (sample_run False sample_app1 ?s1), ?s2)"
    unfolding sample_run_def by simp
  have off: "vw_api (mem_view ?s1) \<noteq> vw_api (mem_view ?s) \<or> \<not> ar_NetpolEnabled (sample_reconciler False)"
    by (simp add: sample_reconciler_def)
  have "cl_time ?s2 = 1700000000013000000"
    using sample_skip_time[OF sample_run_api] sample_run_time
    by (simp add: sample_api_def sample_app1_def sample_meta_def zero_ObjectMeta_def)
  then have in_time: "cl_time ?s2 - cl_time ?s + 1000000000 \<le> sint (ar_SyncInterval (sample_reconciler False))"
    by (simp add: sample_cluster_def sample_reconciler_def)
  show ?thesis
    by (rule Reconcile_settles[OF sample_sync run sample_view(1) _ sample_due off run2 in_time])
      (simp add: sample_defs)
qed

text \<open>
  C16. Release. A run for a resource that is being deleted and that answers no error leaves no trace
  of the operator's finalizer, and if that was its only finalizer the resource is gone.
\<close>

theorem Reconcile_releases:
  assumes "api_sync c view clock lib"
    and "run_state (Reconcile c lib r req) s = (None, s')"
    and "vw_api (view s) req = Some a" "ae_deleted a"
  shows "case vw_api (view s') req of
      None \<Rightarrow> True
    | Some a' \<Rightarrow> KrakendFinalizer \<notin> set (om_Finalizers (ae_Meta a')) \<and> om_Finalizers (ae_Meta a) \<noteq> [KrakendFinalizer]"
proof -
  have "kube_store c view clock" using assms(1) by (simp add: api_sync_def)
  from kube_store.api_key[OF this assms(3)] have "ae_key a = req" by (simp add: ae_key_meta)
  with wpD[OF api_sync.wp_Reconcile[OF assms(1,3)] assms(2)] assms(4) show ?thesis
    by (simp add: released_def)
qed

theorem Reconcile_releases_witness:
  "lookup ae_Meta (cl_apis (snd (sample_run False sample_deleted (sample_cluster [sample_deleted, sample_app2] False))))
     (ae_key sample_deleted) = None"
proof -
  have only: "om_Finalizers (ae_Meta sample_deleted) = [KrakendFinalizer]" by (simp add: sample_deleted_def)
  show ?thesis
    using Reconcile_releases[OF sample_sync run_None[OF sample_deleted_ok(1)[unfolded sample_run_def]]
        sample_deleted_ok(2,3)]
    by (simp add: only sample_run_def split: option.splits)
qed

text \<open>
  C17. No side effects. A run, whatever it answers, changes neither which ApiEndpoints resources are
  live nor any live resource's spec, nor any Krakend.
\<close>

theorem Reconcile_preserves:
  assumes "api_sync c view clock lib" "run_state (Reconcile c lib r req) s = (answer, s')"
  shows "live_spec (view s') = live_spec (view s) \<and> vw_krakend (view s') = vw_krakend (view s)"
proof (cases "vw_api (view s) req")
  case None
  have store: "kube_store c view clock" using assms(1) by (simp add: api_sync_def)
  have "wp (Reconcile c lib r req) (\<lambda>e s'. view s' = view s) s"
    unfolding Reconcile_def wp_bind
    by (rule kube_store.wp_get_api[OF store]) (auto simp: None answers_def split: sum.splits)
  from wpD[OF this assms(2)] show ?thesis by simp
next
  case (Some a)
  from wpD[OF api_sync.wp_Reconcile[OF assms(1) this] assms(2)] show ?thesis
    by (simp add: unchanged_live_def)
qed

theorem Reconcile_preserves_witness:
  "live_spec (mem_view (snd (sample_run True sample_deleted (sample_cluster [sample_deleted, sample_app2] True)))) =
   live_spec (mem_view (sample_cluster [sample_deleted, sample_app2] True))"
  using Reconcile_preserves[OF sample_sync prod.collapse[symmetric]] unfolding sample_run_def by blast

section \<open>Order of the writes\<close>

lemma sync_trace_status:
  assumes "sync_trace n h evs" "UpdatedStatus a b \<in> set evs"
  obtains cm nps xs where "evs = UpdatedConfigMap cm True # nps @ xs @ [UpdatedStatus a b]"
    "list_all netpol_event nps" "api_trace xs" "es_SynchronizationHash (ae_Status a) = h"
proof -
  from assms obtain cm nps xs ys where evs: "evs = UpdatedConfigMap cm True # nps @ xs @ ys"
    "list_all netpol_event nps" "api_trace xs" "status_trace h ys"
    by (auto simp: sync_trace_def finish_trace_def)
  moreover have "UpdatedStatus a b \<notin> set nps" using evs(2) by (auto simp: list_all_iff)
  moreover have "UpdatedStatus a b \<notin> set xs" using evs(3) by (auto simp: api_trace_def)
  ultimately have "ys = [UpdatedStatus a b]" "es_SynchronizationHash (ae_Status a) = h"
    using assms(2) by (auto simp: status_trace_def)
  with evs that show thesis by blast
qed

lemma no_status_when_deleted:
  "deleted_trace evs \<or> api_trace evs \<Longrightarrow> UpdatedStatus a b \<notin> set evs"
  by (auto simp: deleted_trace_def api_trace_def)

text \<open>
  C18. The status is a promise. Whatever the cluster answers, a run that writes a status has written
  the ConfigMap successfully first and writes nothing after the status; in between it writes only
  network policies and at most one update of the resource. The hash in the status is that of the
  spec the run read at its start, and the resource was not being deleted then.
\<close>

theorem status_after_publication:
  assumes "UpdatedStatus a b \<in> set (snd (Reconcile_trace c lib r req s))"
  shows "\<exists>cm nps xs. snd (Reconcile_trace c lib r req s) = UpdatedConfigMap cm True # nps @ xs @ [UpdatedStatus a b] \<and>
    list_all netpol_event nps \<and> api_trace xs \<and>
    (\<exists>a0 s1. run_state (Get_ApiEndpoints c req) s = (Inr a0, s1) \<and> \<not> ae_deleted a0 \<and>
       hashEndpoints lib (ae_Spec a0) = Inr (es_SynchronizationHash (ae_Status a)))"
proof -
  obtain a0 s1 where get: "run_state (Get_ApiEndpoints c req) s = (Inr a0, s1)"
    using assms by (auto simp: Reconcile_trace_eq split: prod.splits sum.splits)
  note shape = Reconcile_trace_read[OF get, of lib r]
  then have live: "\<not> ae_deleted a0" using no_status_when_deleted assms by (auto split: if_splits)
  with shape assms obtain h where h: "hashEndpoints lib (ae_Spec a0) = Inr h"
    "sync_trace (length (appsInNamespace r a0)) h (snd (Reconcile_trace c lib r req s))"
    by (auto simp: live_trace_def)
  obtain cm nps xs where
    "snd (Reconcile_trace c lib r req s) = UpdatedConfigMap cm True # nps @ xs @ [UpdatedStatus a b]"
    "list_all netpol_event nps" "api_trace xs" "es_SynchronizationHash (ae_Status a) = h"
    by (rule sync_trace_status[OF h(2) assms])
  with get live h(1) show ?thesis by blast
qed

theorem status_after_publication_witness:
  "\<exists>a cm xs. snd (Reconcile_trace mem_client sample_lib (sample_reconciler False) (ae_key sample_app1)
       (sample_cluster [sample_app1] False)) = UpdatedConfigMap cm True # xs @ [UpdatedStatus a True]"
proof -
  let ?tr = "snd (Reconcile_trace mem_client sample_lib (sample_reconciler False) (ae_key sample_app1)
      (sample_cluster [sample_app1] False))"
  have len: "length ?tr = 3" and "\<exists>a. ?tr ! 2 = UpdatedStatus a True"
    by (simp_all add: Reconcile_trace_def sample_run_defs run_simps lift_read_def lift_write_def mem_client_simps
        mem_defs reconcile_defs)
  then obtain a where "UpdatedStatus a True \<in> set ?tr" by (metis lessI nth_mem numeral_3_eq_3 numeral_2_eq_2)
  from status_after_publication[OF this] show ?thesis by (metis append_assoc)
qed

lemma length_collect_new: "length (collect_new acc xs) \<le> length acc + length xs"
proof (induction xs arbitrary: acc)
  case Nil
  show ?case by simp
next
  case (Cons x xs)
  from Cons.IH[of acc] Cons.IH[of "acc @ [x]"] show ?case by simp
qed

lemma length_map_filter: "length (List.map_filter f xs) \<le> length xs"
  by (induction xs) (auto simp: map_filter_simps split: option.split)

lemma length_appsInNamespace: "length (appsInNamespace r a) \<le> length (as_Endpoints (ae_Spec a))"
  unfolding appsInNamespace_eq
  using length_collect_new[of "[]"] length_map_filter order_trans by (metis add_0 list.size(3))

lemma length_sync_trace: "sync_trace n h evs \<Longrightarrow> length evs \<le> n + 3"
  by (auto simp: sync_trace_def finish_trace_def api_trace_def status_trace_def)

text \<open>
  C20. Bounded work. Whatever the cluster answers, a run makes at most three writes more than the
  resource it read has secured endpoints, and none at all when the resource cannot be read.
\<close>

theorem Reconcile_write_bound:
  "length (snd (Reconcile_trace c lib r req s)) \<le>
     (case fst (run_state (Get_ApiEndpoints c req) s) of
        Inl err \<Rightarrow> 0
      | Inr a \<Rightarrow> length (as_Endpoints (ae_Spec a)) + 3)"
proof (cases "run_state (Get_ApiEndpoints c req) s")
  case (Pair g s1)
  show ?thesis
  proof (cases g)
    case (Inl err)
    with Pair show ?thesis by (simp add: Reconcile_trace_eq)
  next
    case (Inr a)
    with Pair have "run_state (Get_ApiEndpoints c req) s = (Inr a, s1)" by simp
    from Reconcile_trace_read[OF this, of lib r]
    have "length (snd (Reconcile_trace c lib r req s)) \<le> length (appsInNamespace r a) + 3"
      by (auto simp: deleted_trace_def api_trace_def live_trace_def dest: length_sync_trace split: if_splits)
    with length_appsInNamespace[of r a] Pair Inr show ?thesis by simp
  qed
qed

lemma Reconcile_deleted_trace:
  assumes "run_state (Get_ApiEndpoints c req) s = (Inr a, s1)" "ae_deleted a"
    and "run_state (Get_Krakend c (kr_nn a)) s1 = (Inr k, s2)"
  shows "deleted_trace (snd (Reconcile_trace c lib r req s))"
proof -
  obtain e s' tr where run: "run_state (do {
      u \<leftarrow> updateKrakendConfigMap (recording c) k;
      (case u of Some err \<Rightarrow> State_Monad.return (Some err) | None \<Rightarrow> remove_finalizer (recording c) lib a)
    }) (s2, []) = (e, (s', tr))" "deleted_trace tr"
    by (rule run_emits[OF emits_cm_then_finalizer])
  have "run_state (Reconcile_deleted (recording c) lib a) (s1, []) = (e, (s', tr))"
    unfolding Reconcile_deleted_def recording_simps run_bind[of "lift_read _"] run_lift_read kr_nn_def[symmetric] assms(3)
    using run(1) by simp
  with assms(1,2) run(2) show ?thesis by (auto simp: Reconcile_trace_eq)
qed

text \<open>
  C19. Release comes last. When the Krakend of a resource that is being deleted is found, the finalizer
  is taken away only after the ConfigMap was written successfully, and nothing is written after it:
  the resource cannot disappear while its endpoints are still published.
\<close>

theorem release_after_publication:
  assumes "run_state (Get_ApiEndpoints c req) s = (Inr a, s1)" "ae_deleted a"
    and "run_state (Get_Krakend c (kr_nn a)) s1 = (Inr k, s2)"
    and "UpdatedApi a' b \<in> set (snd (Reconcile_trace c lib r req s))"
  shows "\<exists>cm. snd (Reconcile_trace c lib r req s) = [UpdatedConfigMap cm True, UpdatedApi a' b]"
  using Reconcile_deleted_trace[OF assms(1-3), of lib r] assms(4) by (auto simp: deleted_trace_def)

theorem release_after_publication_witness:
  "\<exists>cm a. snd (Reconcile_trace mem_client sample_lib (sample_reconciler False) (ae_key sample_deleted)
       (sample_cluster [sample_deleted, sample_app2] False)) = [UpdatedConfigMap cm True, UpdatedApi a True]"
proof -
  let ?s = "sample_cluster [sample_deleted, sample_app2] False"
  let ?tr = "snd (Reconcile_trace mem_client sample_lib (sample_reconciler False) (ae_key sample_deleted) ?s)"
  have get: "run_state (Get_ApiEndpoints mem_client (ae_key sample_deleted)) ?s = (Inr sample_deleted, tick ?s)"
    "run_state (Get_Krakend mem_client (kr_nn sample_deleted)) (tick ?s) = (Inr sample_krakend, tick (tick ?s))"
    by (simp_all add: sample_deleted_def sample_run_defs mem_client_simps run_simps mem_defs ae_key_def
        kr_nn_def krakendName_def)
  have "length ?tr = 2" "\<exists>a. ?tr ! 1 = UpdatedApi a True"
    by (simp_all add: Reconcile_trace_def sample_deleted_def sample_run_defs run_simps lift_read_def
        lift_write_def mem_client_simps mem_defs reconcile_defs)
  then obtain a where "?tr ! 1 = UpdatedApi a True" "1 < length ?tr" by fastforce
  then have "UpdatedApi a True \<in> set ?tr" by (metis nth_mem)
  from release_after_publication[OF get(1) sample_deleted_ok(3) get(2) this] show ?thesis by blast
qed

section \<open>Failures of the network policies\<close>

lemma sample_apps: "appsInNamespace (sample_reconciler b) sample_app1 = [''app1'']"
proof -
  have plain: "list_all plain ''app1''" "validOptionalPort []"
    by (simp_all add: plain_def is_alpha_def is_digit_def validOptionalPort_def)
  have "Parse ''http://app1'' = Some \<lparr>url_Scheme = ''http'', url_Host = ''app1''\<rparr>"
    "Hostname \<lparr>url_Scheme = ''http'', url_Host = ''app1''\<rparr> = ''app1''"
    using Parse_plain[OF plain] Hostname_plain[OF plain] by simp_all
  then show ?thesis
    by (simp add: appsInNamespace_eq candidate_def map_filter_def app_of_host_def sample_defs)
qed

text \<open>
  C21. A refused network policy goes unnoticed. Whatever else the cluster answers, a run in which the
  creation or the update of a network policy is refused answers no error, so it is not repeated, and
  stops there: no further policy is written and neither finalizer nor owner nor status.
\<close>

theorem netpol_failure_unnoticed:
  assumes "Reconcile_trace c lib r req s = (answer, pre @ ev # post)"
    and "(\<exists>np. ev = CreatedNetpol np False) \<or> (\<exists>np. ev = UpdatedNetpol np False)"
  shows "answer = None \<and> post = [] \<and>
    (\<forall>a ok. UpdatedApi a ok \<notin> set pre \<and> UpdatedStatus a ok \<notin> set pre)"
proof -
  have ev: "refused ev" using assms(2) by auto
  have "unnoticed answer (pre @ ev # post)"
    using Reconcile_trace_unnoticed[of c lib r req s] assms(1) by simp
  with ev obtain pre' ev' where "answer = None" and split: "pre @ ev # post = pre' @ [ev']"
    and early: "list_all early pre'" by (auto simp: unnoticed_def stops_at_refusal_def)
  have "ev \<notin> set pre'" using early ev by (auto simp: list_all_iff early_def)
  with split have "post = []" "pre = pre'"
    by (auto simp: append_eq_append_conv2 Cons_eq_append_conv append_eq_Cons_conv)
  with \<open>answer = None\<close> early show ?thesis by (auto simp: list_all_iff early_def)
qed

theorem netpol_failure_unnoticed_witness:
  "\<exists>cm np. Reconcile_trace mem_client sample_lib (sample_reconciler True) (ae_key sample_app1) (sample_cluster [sample_app1] True) =
     (None, [UpdatedConfigMap cm True, CreatedNetpol np False])"
proof -
  let ?t = "Reconcile_trace mem_client sample_lib (sample_reconciler True) (ae_key sample_app1) (sample_cluster [sample_app1] True)"
  have "length (snd ?t) = 2" "\<exists>cm. snd ?t ! 0 = UpdatedConfigMap cm True" "\<exists>np. snd ?t ! 1 = CreatedNetpol np False"
    using sample_apps[of True]
    by (simp_all add: Reconcile_trace_def ensureAppIngressNetpol_def sample_run_defs run_simps lift_read_def lift_write_def
        mem_client_simps mem_defs reconcile_defs)
  then obtain cm np where tr: "snd ?t = [UpdatedConfigMap cm True] @ CreatedNetpol np False # []"
    by (auto simp: length_Suc_conv numeral_2_eq_2)
  then have "?t = (fst ?t, [UpdatedConfigMap cm True] @ CreatedNetpol np False # [])" by (metis prod.collapse)
  from netpol_failure_unnoticed[OF this] this show ?thesis by auto
qed

end
