(* ===== verification/Go_Json_Reader.thy ===== *)
theory Go_Json_Reader
  imports Go_Json
begin

text \<open>
  The reading side of Go's \<^verbatim>\<open>encoding/json\<close>: a text is checked and read into a JSON value (white
  space, escapes with surrogate pairs, UTF-8 coercion of strings, number literals, the nesting limit
  of the library). Reading is by recursive descent over fuel; \<open>json_read_fuel\<close> shows that the fuel
  given is enough for every text. The main lemma is the round trip: reading the compact text of a
  value whose strings are valid UTF-8 and whose numbers are literals gives the value back.
\<close>

section \<open>Characters and escapes\<close>

definition is_ws :: "char \<Rightarrow> bool" where
  "is_ws c \<longleftrightarrow> byte c = 32 \<or> byte c = 9 \<or> byte c = 10 \<or> byte c = 13"

definition skip_ws :: "string \<Rightarrow> string" where
  "skip_ws s = dropWhile is_ws s"

definition hex_val :: "char \<Rightarrow> nat option" where
  "hex_val c =
     (if 48 \<le> byte c \<and> byte c \<le> 57 then Some (byte c - 48)
      else if 97 \<le> byte c \<and> byte c \<le> 102 then Some (byte c - 87)
      else if 65 \<le> byte c \<and> byte c \<le> 70 then Some (byte c - 55)
      else None)"

fun hex4 :: "string \<Rightarrow> (nat \<times> string) option" where
  "hex4 (a # b # c # d # rest) =
     (case (hex_val a, hex_val b, hex_val c, hex_val d) of
        (Some w, Some x, Some y, Some z) \<Rightarrow> Some (((w * 16 + x) * 16 + y) * 16 + z, rest)
      | _ \<Rightarrow> None)"
| "hex4 _ = None"

definition bytes :: "nat list \<Rightarrow> string" where
  "bytes ns = map char_of ns"

definition is_surrogate :: "nat \<Rightarrow> bool" where
  "is_surrogate r \<longleftrightarrow> 55296 \<le> r \<and> r < 57344"

definition replacement :: string where
  "replacement = bytes [239, 191, 189]"

text \<open>\<^verbatim>\<open>utf8.EncodeRune\<close> for the runes an escape can stand for\<close>

definition encode_rune :: "nat \<Rightarrow> string" where
  "encode_rune r =
     (if r < 128 then bytes [r]
      else if r < 2048 then bytes [192 + r div 64, 128 + r mod 64]
      else if is_surrogate r then replacement
      else if r < 65536 then bytes [224 + r div 4096, 128 + (r div 64) mod 64, 128 + r mod 64]
      else bytes [240 + r div 262144, 128 + (r div 4096) mod 64, 128 + (r div 64) mod 64, 128 + r mod 64])"

text \<open>
  \<^verbatim>\<open>\uXXXX\<close>, after the \<^verbatim>\<open>u\<close>: a surrogate and the low surrogate escaped right after it make one
  rune; a surrogate on its own is replaced.
\<close>

definition low_surrogate :: "string \<Rightarrow> (nat \<times> string) option" where
  "low_surrogate s =
     (case s of
        b # u # rest \<Rightarrow>
          (if b = BACKSLASH \<and> u = CHR ''u'' then
             (case hex4 rest of
                None \<Rightarrow> None
              | Some (r, rest') \<Rightarrow> (if 56320 \<le> r \<and> r < 57344 then Some (r, rest') else None))
           else None)
      | _ \<Rightarrow> None)"

definition read_u :: "string \<Rightarrow> (string \<times> string) option" where
  "read_u s =
     (case hex4 s of
        None \<Rightarrow> None
      | Some (r, rest) \<Rightarrow>
          (if is_surrogate r then
             (case (if r < 56320 then low_surrogate rest else None) of
                Some (r2, rest2) \<Rightarrow> Some (encode_rune (65536 + (r - 55296) * 1024 + (r2 - 56320)), rest2)
              | None \<Rightarrow> Some (replacement, rest))
           else Some (encode_rune r, rest)))"

definition read_esc :: "string \<Rightarrow> (string \<times> string) option" where
  "read_esc s =
     (case s of
        [] \<Rightarrow> None
      | c # rest \<Rightarrow>
          (if c = QUOTE \<or> c = BACKSLASH \<or> c = CHR ''/'' then Some ([c], rest)
           else if c = CHR ''b'' then Some (bytes [8], rest)
           else if c = CHR ''f'' then Some (bytes [12], rest)
           else if c = CHR ''n'' then Some (bytes [10], rest)
           else if c = CHR ''r'' then Some (bytes [13], rest)
           else if c = CHR ''t'' then Some (bytes [9], rest)
           else if c = CHR ''u'' then read_u rest
           else None))"

lemma hex4_length: "hex4 s = Some (r, rest) \<Longrightarrow> length rest < length s"
  by (induction s rule: hex4.induct) (auto split: option.splits)

lemma low_surrogate_length: "low_surrogate s = Some (r, rest) \<Longrightarrow> length rest < length s"
  by (auto simp: low_surrogate_def split: list.splits if_splits option.splits dest: hex4_length)

lemma read_u_length: "read_u s = Some (x, rest) \<Longrightarrow> length rest < length s"
  by (auto simp: read_u_def split: if_splits option.splits dest!: hex4_length low_surrogate_length)

lemma read_esc_length: "read_esc s = Some (x, rest) \<Longrightarrow> length rest < length s"
  by (auto simp: read_esc_def split: list.splits if_splits dest!: read_u_length)

section \<open>Strings and numbers\<close>

text \<open>A string, after its opening quote, with the rest of the text after the closing one.\<close>

function read_str :: "string \<Rightarrow> (string \<times> string) option" where
  "read_str [] = None"
| "read_str (c # cs) =
     (if c = QUOTE then Some ([], cs)
      else if c = BACKSLASH then
        (case read_esc cs of
           None \<Rightarrow> None
         | Some (x, rest) \<Rightarrow> map_option (apfst ((@) x)) (read_str rest))
      else if byte c < 32 then None
      else if byte c < 128 then map_option (apfst ((@) [c])) (read_str cs)
      else case rune_len (c # cs) of
          None \<Rightarrow> map_option (apfst ((@) replacement)) (read_str cs)
        | Some n \<Rightarrow> map_option (apfst ((@) (take n (c # cs)))) (read_str (drop (n - 1) cs)))"
  by pat_completeness auto
termination
  by (relation "measure length") (auto dest: read_esc_length)

definition is_dig :: "char \<Rightarrow> bool" where
  "is_dig c \<longleftrightarrow> 48 \<le> byte c \<and> byte c \<le> 57"

text \<open>The parts of a number literal, each with the rest of the text.\<close>

definition read_int_part :: "string \<Rightarrow> (string \<times> string) option" where
  "read_int_part s =
     (case s of
        [] \<Rightarrow> None
      | c # cs \<Rightarrow>
          (if c = CHR ''0'' then Some ([c], cs)
           else if is_dig c then Some (c # takeWhile is_dig cs, dropWhile is_dig cs)
           else None))"

definition read_digits1 :: "string \<Rightarrow> (string \<times> string) option" where
  "read_digits1 s =
     (if takeWhile is_dig s = [] then None else Some (takeWhile is_dig s, dropWhile is_dig s))"

definition read_frac :: "string \<Rightarrow> (string \<times> string) option" where
  "read_frac s =
     (case s of
        c # cs \<Rightarrow> (if c = CHR ''.'' then map_option (apfst ((#) c)) (read_digits1 cs) else Some ([], s))
      | [] \<Rightarrow> Some ([], s))"

definition read_exp :: "string \<Rightarrow> (string \<times> string) option" where
  "read_exp s =
     (case s of
        c # cs \<Rightarrow>
          (if c = CHR ''e'' \<or> c = CHR ''E'' then
             (case cs of
                d # ds \<Rightarrow>
                  (if d = CHR ''+'' \<or> d = CHR ''-'' then map_option (apfst (\<lambda>x. c # d # x)) (read_digits1 ds)
                   else map_option (apfst ((#) c)) (read_digits1 cs))
              | [] \<Rightarrow> None)
           else Some ([], s))
      | [] \<Rightarrow> Some ([], s))"

definition read_unsigned :: "string \<Rightarrow> (string \<times> string) option" where
  "read_unsigned s =
     (case read_int_part s of
        None \<Rightarrow> None
      | Some (i, s1) \<Rightarrow>
          (case read_frac s1 of
             None \<Rightarrow> None
           | Some (f, s2) \<Rightarrow>
               (case read_exp s2 of None \<Rightarrow> None | Some (e, s3) \<Rightarrow> Some (i @ f @ e, s3))))"

definition read_num :: "string \<Rightarrow> (string \<times> string) option" where
  "read_num s =
     (case s of
        [] \<Rightarrow> None
      | c # cs \<Rightarrow> (if c = CHR ''-'' then map_option (apfst ((#) c)) (read_unsigned cs) else read_unsigned s))"

section \<open>Values\<close>

definition strip :: "string \<Rightarrow> string \<Rightarrow> string option" where
  "strip p s = (if str_HasPrefix s p then Some (drop (length p) s) else None)"

fun read_value :: "nat \<Rightarrow> nat \<Rightarrow> string \<Rightarrow> (json \<times> string) option"
  and read_elems :: "nat \<Rightarrow> nat \<Rightarrow> string \<Rightarrow> (json list \<times> string) option"
  and read_members :: "nat \<Rightarrow> nat \<Rightarrow> string \<Rightarrow> ((string \<times> json) list \<times> string) option" where
  "read_value 0 d s = None"
| "read_value (Suc n) d s =
     (case skip_ws s of
        [] \<Rightarrow> None
      | c # cs \<Rightarrow>
          (if c = CHR ''n'' then map_option (\<lambda>r. (JNull, r)) (strip ''ull'' cs)
           else if c = CHR ''t'' then map_option (\<lambda>r. (JBool True, r)) (strip ''rue'' cs)
           else if c = CHR ''f'' then map_option (\<lambda>r. (JBool False, r)) (strip ''alse'' cs)
           else if c = QUOTE then map_option (apfst JStr) (read_str cs)
           else if c = CHR ''['' then
             (if d = 0 then None
              else case skip_ws cs of
                  [] \<Rightarrow> None
                | e # es \<Rightarrow>
                    (if e = CHR '']'' then Some (JArr [], es)
                     else map_option (apfst JArr) (read_elems n (d - 1) (e # es))))
           else if c = CHR ''{'' then
             (if d = 0 then None
              else case skip_ws cs of
                  [] \<Rightarrow> None
                | e # es \<Rightarrow>
                    (if e = CHR ''}'' then Some (JObj [], es)
                     else map_option (apfst JObj) (read_members n (d - 1) (e # es))))
           else map_option (apfst JNum) (read_num (c # cs))))"
| "read_elems 0 d s = None"
| "read_elems (Suc n) d s =
     (case read_value n d s of
        None \<Rightarrow> None
      | Some (v, s1) \<Rightarrow>
          (case skip_ws s1 of
             [] \<Rightarrow> None
           | c # cs \<Rightarrow>
               (if c = CHR '']'' then Some ([v], cs)
                else if c = CHR '','' then map_option (apfst ((#) v)) (read_elems n d cs)
                else None)))"
| "read_members 0 d s = None"
| "read_members (Suc n) d s =
     (case skip_ws s of
        [] \<Rightarrow> None
      | q # s0 \<Rightarrow>
          (if q \<noteq> QUOTE then None
           else case read_str s0 of
               None \<Rightarrow> None
             | Some (k, s1) \<Rightarrow>
                 (case skip_ws s1 of
                    [] \<Rightarrow> None
                  | c # s2 \<Rightarrow>
                      (if c \<noteq> CHR '':'' then None
                       else case read_value n d s2 of
                           None \<Rightarrow> None
                         | Some (v, s3) \<Rightarrow>
                             (case skip_ws s3 of
                                [] \<Rightarrow> None
                              | e # s4 \<Rightarrow>
                                  (if e = CHR ''}'' then Some ([(k, v)], s4)
                                   else if e = CHR '','' then map_option (apfst ((#) (k, v))) (read_members n d s4)
                                   else None))))))"

text \<open>The library refuses texts nested deeper than this.\<close>

definition max_nesting :: nat where "max_nesting = 10000"

definition json_read :: "string \<Rightarrow> json option" where
  "json_read s =
     (case read_value (2 * length s + 1) max_nesting s of
        None \<Rightarrow> None
      | Some (v, rest) \<Rightarrow> (if skip_ws rest = [] then Some v else None))"

section \<open>The fuel is enough\<close>

lemma skip_ws_le: "length (skip_ws s) \<le> length s"
  by (simp add: skip_ws_def length_dropWhile_le)

lemma skip_ws_Cons: "skip_ws s = c # cs \<Longrightarrow> length cs < length s"
  using skip_ws_le[of s] by simp

lemma read_str_length: "read_str s = Some (x, rest) \<Longrightarrow> length rest < length s"
proof (induction s arbitrary: x rest rule: read_str.induct)
  case (2 c cs)
  then show ?case
    by (fastforce split: if_splits option.splits dest: read_esc_length)
qed simp

lemma read_digits1_length: "read_digits1 s = Some (x, rest) \<Longrightarrow> length rest < length s"
  by (cases s) (auto simp: read_digits1_def length_dropWhile_le less_Suc_eq_le split: if_splits)

lemma read_num_length: "read_num s = Some (x, rest) \<Longrightarrow> length rest < length s"
proof -
  have int: "length rest < length s" if "read_int_part s = Some (x, rest)" for s x rest
    using that by (auto simp: read_int_part_def less_Suc_eq_le length_dropWhile_le split: list.splits if_splits)
  have frac: "length rest \<le> length s" if "read_frac s = Some (x, rest)" for s x rest
    using that by (auto simp: read_frac_def split: list.splits if_splits dest!: read_digits1_length)
  have exp: "length rest \<le> length s" if "read_exp s = Some (x, rest)" for s x rest
    using that by (auto simp: read_exp_def split: list.splits if_splits dest!: read_digits1_length)
  have uns: "length rest < length s" if "read_unsigned s = Some (x, rest)" for s x rest
    using that by (auto simp: read_unsigned_def split: option.splits dest!: int frac exp)
  show "read_num s = Some (x, rest) \<Longrightarrow> length rest < length s"
    by (auto simp: read_num_def split: list.splits if_splits dest!: uns)
qed

lemma strip_length: "strip p s = Some rest \<Longrightarrow> length rest \<le> length s"
  by (auto simp: strip_def split: if_splits)

lemmas read_lengths = strip_length read_str_length read_num_length skip_ws_Cons

lemma read_length:
  "read_value n d s = Some (v, r1) \<Longrightarrow> length r1 < length s"
  "read_elems n d s = Some (vs, r2) \<Longrightarrow> length r2 < length s"
  "read_members n d s = Some (ms, r3) \<Longrightarrow> length r3 < length s"
proof (induction n d s and n d s and n d s arbitrary: v r1 and vs r2 and ms r3
    rule: read_value_read_elems_read_members.induct)
  case (2 n d s)
  show ?case
  proof (cases "skip_ws s")
    case Nil
    with 2(3) show ?thesis by simp
  next
    case (Cons c cs)
    have len: "length cs < length s" using skip_ws_Cons[OF Cons] .
    have num: "length r1 < length s" if "read_num (c # cs) = Some (x, r1)" for x
      using read_num_length[OF that] skip_ws_le[of s] Cons by simp
    show ?thesis
      using 2 Cons len num
      by (fastforce split: if_splits list.splits dest!: strip_length read_str_length dest: skip_ws_Cons)
  qed
next
  case (4 n d s)
  then show ?case
    by (fastforce split: if_splits list.splits option.splits dest!: skip_ws_Cons)
next
  case (6 n d s)
  then show ?case
    by (fastforce split: if_splits list.splits option.splits dest!: skip_ws_Cons read_str_length)
qed simp_all

declare read_value.simps(2) [simp del] read_elems.simps(2) [simp del] read_members.simps(2) [simp del]

lemma read_fuel_step:
  "(\<forall>d s. 2 * length s < n \<longrightarrow> read_value (Suc n) d s = read_value n d s) \<and>
   (\<forall>d s. 2 * length s + 1 < n \<longrightarrow> read_elems (Suc n) d s = read_elems n d s) \<and>
   (\<forall>d s. 2 * length s + 1 < n \<longrightarrow> read_members (Suc n) d s = read_members n d s)"
proof (induction n)
  case 0
  show ?case by simp
next
  case (Suc n)
  then have v: "2 * length s < n \<Longrightarrow> read_value (Suc n) d s = read_value n d s"
    and e: "2 * length s + 1 < n \<Longrightarrow> read_elems (Suc n) d s = read_elems n d s"
    and m: "2 * length s + 1 < n \<Longrightarrow> read_members (Suc n) d s = read_members n d s" for d s
    by blast+
  have "read_value (Suc (Suc n)) d s = read_value (Suc n) d s" if "2 * length s < Suc n" for d s
  proof (cases "skip_ws s")
    case Nil
    then show ?thesis by (simp add: read_value.simps)
  next
    case (Cons c cs)
    have "2 * length (x # xs) + 1 < n" if "skip_ws cs = x # xs" for x xs
      using that skip_ws_le[of cs] skip_ws_Cons[OF Cons] \<open>2 * length s < Suc n\<close> by simp
    then show ?thesis
      unfolding read_value.simps(2)[of "Suc n" d s] read_value.simps(2)[of n d s] Cons by (auto simp: e m split: list.split)
  qed
  moreover have "read_elems (Suc (Suc n)) d s = read_elems (Suc n) d s" if "2 * length s + 1 < Suc n" for d s
  proof -
    have "read_elems (Suc n) d xs = read_elems n d xs"
      if "read_value n d s = Some (x, s1)" "skip_ws s1 = y # xs" for x s1 y xs
      using read_length(1)[OF that(1)] skip_ws_Cons[OF that(2)] \<open>2 * length s + 1 < Suc n\<close>
      by (intro e) simp
    then show ?thesis
      unfolding read_elems.simps(2)[of "Suc n" d s] read_elems.simps(2)[of n d s] using v[of s d] that by (simp split: list.split option.split)
  qed
  moreover have "read_members (Suc (Suc n)) d s = read_members (Suc n) d s" if "2 * length s + 1 < Suc n" for d s
  proof -
    have val: "read_value (Suc n) d s2 = read_value n d s2"
      if "skip_ws s = q # s0" "read_str s0 = Some (k, s1)" "skip_ws s1 = c # s2" for q s0 k s1 c s2
      using skip_ws_Cons[OF that(1)] read_str_length[OF that(2)] skip_ws_Cons[OF that(3)]
        \<open>2 * length s + 1 < Suc n\<close> by (intro v) simp
    have mem: "read_members (Suc n) d s4 = read_members n d s4"
      if "skip_ws s = q # s0" "read_str s0 = Some (k, s1)" "skip_ws s1 = c # s2"
        "read_value n d s2 = Some (x, s3)" "skip_ws s3 = y # s4" for q s0 k s1 c s2 x s3 y s4
      using skip_ws_Cons[OF that(1)] read_str_length[OF that(2)] skip_ws_Cons[OF that(3)]
        read_length(1)[OF that(4)] skip_ws_Cons[OF that(5)] \<open>2 * length s + 1 < Suc n\<close> by (intro m) simp
    show ?thesis
      unfolding read_members.simps(2)[of "Suc n" d s] read_members.simps(2)[of n d s] using val mem by (simp split: list.split option.split)
  qed
  ultimately show ?case by blast
qed

lemma read_value_fuel: "2 * length s < n \<Longrightarrow> read_value (n + k) d s = read_value n d s"
proof (induction k)
  case (Suc k)
  then show ?case using read_fuel_step[of "n + k"] by simp
qed simp

text \<open>Any fuel above the one \<open>json_read\<close> gives makes no difference.\<close>

lemma json_read_fuel:
  assumes "2 * length s < n"
  shows "json_read s =
    (case read_value n max_nesting s of
       None \<Rightarrow> None
     | Some (v, rest) \<Rightarrow> (if skip_ws rest = [] then Some v else None))"
proof -
  obtain k where "n = 2 * length s + 1 + k" using assms by (metis Suc_eq_plus1 Suc_leI le_Suc_ex)
  then show ?thesis using read_value_fuel[of s "2 * length s + 1" k max_nesting] by (simp add: json_read_def)
qed

section \<open>Reading what was written\<close>

function valid_utf8 :: "string \<Rightarrow> bool" where
  "valid_utf8 [] = True"
| "valid_utf8 (c # cs) =
     (case rune_len (c # cs) of None \<Rightarrow> False | Some n \<Rightarrow> valid_utf8 (drop (n - 1) cs))"
  by pat_completeness auto
termination
  by (relation "measure length") auto

lemma special_chars [simp]:
  "char_of (34::nat) = CHR 0x22" "char_of (92::nat) = CHR 0x5C" "char_of (8::nat) = CHR 0x08"
  "char_of (9::nat) = CHR 0x09" "char_of (10::nat) = CHR 0x0A" "char_of (12::nat) = CHR 0x0C"
  "char_of (13::nat) = CHR 0x0D"
  by code_simp+

lemma append_one: "(@) [c] = (#) c"
  by (rule ext) simp

lemma hex_digit_facts:
  "d < 16 \<Longrightarrow> hex_val (hex_digit d) = Some d"
  by (auto simp: hex_val_def hex_digit_def digit_def)

lemma hex_val_0 [simp]: "hex_val CHR ''0'' = Some 0" "hex_val CHR ''2'' = Some 2"
  "hex_val CHR ''f'' = Some 15" "hex_val CHR ''d'' = Some 13"
  by (simp_all add: hex_val_def)

lemma hex_digit_mod: "hex_digit n = hex_digit (n mod 16)"
  by (simp add: hex_digit_def)

lemma read_esc_u00:
  assumes "n < 128"
  shows "read_esc (tl (u00 n) @ rest) = Some ([char_of n], rest)"
proof -
  have "hex_val (hex_digit (n div 16)) = Some (n div 16)" "hex_val (hex_digit n) = Some (n mod 16)"
    using assms hex_digit_facts[of "n div 16"] hex_digit_facts[of "n mod 16"] hex_digit_mod[of n] by simp_all
  with assms show ?thesis
    by (simp add: u00_def read_esc_def read_u_def is_surrogate_def encode_rune_def bytes_def)
qed

lemma read_str_ascii:
  assumes "byte c < 128"
  shows "read_str (esc_ascii c @ rest) = map_option (apfst ((#) c)) (read_str rest)"
proof (cases "esc_ascii c = u00 (byte c)")
  case True
  have "u00 (byte c) = BACKSLASH # tl (u00 (byte c))" by (simp add: u00_def)
  then have "read_str (esc_ascii c @ rest) = read_str (BACKSLASH # (tl (u00 (byte c)) @ rest))"
    using True by (metis append_Cons)
  with read_esc_u00[OF assms, of rest] show ?thesis by (simp add: append_one)
next
  case False
  have chars: "c = char_of n" if "byte c = n" for n using that by (metis char_of_char)
  from False assms show ?thesis
    by (auto simp: esc_ascii_def read_esc_def bytes_def append_one split: if_splits dest!: chars)
qed

lemma rune_len_take:
  assumes "rune_len s = Some n"
  shows "rune_len (take n s @ rest) = Some n"
proof -
  obtain c cs where s: "s = c # cs" using assms by (cases s) auto
  obtain m where n: "n = Suc m" "m \<le> length cs" using assms s
    by (cases n) (auto simp: Let_def rune_size_def Suc_le_eq split: if_splits)
  have tl: "take (n - 2) (tl (take m cs @ rest)) = take (n - 2) (tl cs)" if "m \<noteq> 0"
    using that n by (cases cs) (auto simp: take_Cons split: nat.split)
  have hd: "(take m cs @ rest) ! 0 = cs ! 0" if "m \<noteq> 0"
    using that n by (cases cs) (auto simp: take_Cons split: nat.split)
  show ?thesis
    using assms n tl hd by (auto simp: s Let_def split: if_splits)
qed

lemma rune_bytes:
  assumes "rune_len (c # cs) = Some n" "128 \<le> byte c"
  shows "2 \<le> n" "n \<le> Suc (length cs)" "c \<noteq> CHR 0x22" "c \<noteq> CHR 0x5C"
  using assms by (auto simp: Let_def rune_size_def Suc_le_eq split: if_splits)

lemma read_str_rune:
  assumes "rune_len (c # cs) = Some n" "128 \<le> byte c"
  shows "read_str (take n (c # cs) @ rest) = map_option (apfst ((@) (take n (c # cs)))) (read_str rest)"
proof -
  obtain m where n: "n = Suc m" "m \<le> length cs" using rune_bytes(1,2)[OF assms] by (cases n) auto
  have "rune_len (c # (take m cs @ rest)) = Some n"
    using rune_len_take[OF assms(1), of rest] n by simp
  with n rune_bytes(3,4)[OF assms] assms(2) show ?thesis by simp
qed

lemma line_sep_bytes:
  assumes "is_line_sep s"
  obtains k ys where "s = bytes [226, 128, k] @ ys" "k = 168 \<or> k = 169"
proof -
  obtain a b c ys where s: "s = a # b # c # ys"
    using assms by (cases s rule: hex4.cases) (auto simp: is_line_sep_def)
  have eq: "x = char_of n" if "byte x = n" for x n using that by (metis char_of_char)
  from assms s have "map byte [a, b, c] = [226, 128, 168] \<or> map byte [a, b, c] = [226, 128, 169]"
    by (simp add: is_line_sep_def)
  then have "byte a = 226" "byte b = 128" "byte c = 168 \<or> byte c = 169" by auto
  with s that[of "byte c" ys] show thesis by (auto simp: bytes_def dest!: eq)
qed

lemma read_str_line_sep:
  assumes "k = 168 \<or> k = 169"
  shows "read_str (BACKSLASH # ''u202'' @ [hex_digit k] @ rest) =
    map_option (apfst ((@) (bytes [226, 128, k]))) (read_str rest)"
proof -
  have "hex_val (hex_digit k) = Some (k - 160)"
    using assms hex_digit_facts[of "k mod 16"] hex_digit_mod[of k] by auto
  then show ?thesis
    using assms by (auto simp: read_esc_def read_u_def is_surrogate_def encode_rune_def bytes_def)
qed

lemma rune_len_line_sep:
  assumes "k = 168 \<or> k = 169"
  shows "rune_len (bytes [226, 128, k] @ ys) = Some 3"
  using assms by (auto simp: bytes_def Let_def rune_size_def in_range_def second_ok_def)

lemma read_str_esc:
  assumes "valid_utf8 s"
  shows "read_str (esc s @ QUOTE # rest) = Some (s, rest)"
  using assms
proof (induction s rule: valid_utf8.induct)
  case 1
  show ?case by simp
next
  case (2 c cs)
  show ?case
  proof (cases "byte c < 128")
    case True
    then have len: "rune_len (c # cs) = Some 1" by (simp add: rune_size_def)
    with 2 have "read_str (esc cs @ QUOTE # rest) = Some (cs, rest)" by simp
    with True read_str_ascii[OF True, of "esc cs @ QUOTE # rest"] show ?thesis by simp
  next
    case False
    from 2(2) obtain n where len: "rune_len (c # cs) = Some n" and v: "valid_utf8 (drop (n - 1) cs)"
      by (auto split: option.splits)
    have ih: "read_str (esc (drop (n - 1) cs) @ QUOTE # rest) = Some (drop (n - 1) cs, rest)"
      using 2(1)[OF len v] .
    have n: "2 \<le> n" using rune_bytes(1)[OF len] False by simp
    then have split: "take n (c # cs) @ drop (n - 1) cs = c # cs"
      by (cases n) auto
    show ?thesis
    proof (cases "is_line_sep (c # cs)")
      case False
      have "esc (c # cs) = take n (c # cs) @ esc (drop (n - 1) cs)"
        using \<open>\<not> byte c < 128\<close> False len by simp
      with ih split read_str_rune[OF len] \<open>\<not> byte c < 128\<close> show ?thesis by simp
    next
      case True
      then obtain k ys where k: "c # cs = bytes [226, 128, k] @ ys" "k = 168 \<or> k = 169"
        by (rule line_sep_bytes)
      then have "n = 3" using rune_len_line_sep[OF k(2), of ys] len by simp
      have third: "byte ((c # cs) ! 2) = k" using k by (auto simp: bytes_def)
      have "esc (c # cs) = BACKSLASH # ''u202'' @ [hex_digit k] @ esc (drop (n - 1) cs)"
        using \<open>\<not> byte c < 128\<close> True len third by simp
      moreover have "take n (c # cs) = bytes [226, 128, k]" using k \<open>n = 3\<close> by (simp add: bytes_def)
      ultimately show ?thesis
        using ih split read_str_line_sep[OF k(2), of "esc (drop (n - 1) cs) @ QUOTE # rest"] by simp
    qed
  qed
qed

subsection \<open>Numbers\<close>

definition delim :: "string \<Rightarrow> bool" where
  "delim rest \<longleftrightarrow> (case rest of [] \<Rightarrow> True | c # _ \<Rightarrow> c = CHR '','' \<or> c = CHR '']'' \<or> c = CHR ''}'' \<or> is_ws c)"

definition literal :: "string \<Rightarrow> bool" where
  "literal n \<longleftrightarrow> read_num n = Some (n, [])"

lemma delim_simps [simp]:
  "delim []" "delim (CHR '','' # r)" "delim (CHR '']'' # r)" "delim (CHR ''}'' # r)"
  "is_ws c \<Longrightarrow> delim (c # r)"
  by (simp_all add: delim_def)

lemma delim_hd:
  assumes "delim (c # r)"
  shows "\<not> is_dig c" "c \<noteq> CHR ''.''" "c \<noteq> CHR ''e''" "c \<noteq> CHR ''E''"
  using assms by (auto simp: delim_def is_dig_def is_ws_def)

lemma digits_append:
  assumes "delim rest"
  shows "takeWhile is_dig (s @ rest) = takeWhile is_dig s" "dropWhile is_dig (s @ rest) = dropWhile is_dig s @ rest"
  using assms delim_hd(1) by (induction s) (cases rest; simp)+

lemma read_digits1_append:
  "delim rest \<Longrightarrow> read_digits1 s = Some (x, r) \<Longrightarrow> read_digits1 (s @ rest) = Some (x, r @ rest)"
  by (auto simp: read_digits1_def digits_append split: if_splits)

lemma read_int_part_append:
  "delim rest \<Longrightarrow> read_int_part s = Some (x, r) \<Longrightarrow> read_int_part (s @ rest) = Some (x, r @ rest)"
  by (auto simp: read_int_part_def digits_append split: list.splits if_splits)

lemma read_frac_append:
  assumes "delim rest" "read_frac s = Some (x, r)"
  shows "read_frac (s @ rest) = Some (x, r @ rest)"
proof (cases s)
  case Nil
  with assms show ?thesis by (cases rest) (auto simp: read_frac_def dest: delim_hd)
next
  case (Cons c cs)
  with assms show ?thesis by (auto simp: read_frac_def read_digits1_append split: if_splits)
qed

lemma read_exp_append:
  assumes "delim rest" "read_exp s = Some (x, r)"
  shows "read_exp (s @ rest) = Some (x, r @ rest)"
proof (cases s)
  case Nil
  with assms show ?thesis by (cases rest) (auto simp: read_exp_def dest: delim_hd)
next
  case (Cons c cs)
  with assms show ?thesis
    by (auto simp: read_exp_def read_digits1_append read_digits1_append[where s = "_ # _", simplified]
        split: if_splits list.splits)
qed

lemma read_unsigned_append:
  "delim rest \<Longrightarrow> read_unsigned s = Some (x, r) \<Longrightarrow> read_unsigned (s @ rest) = Some (x, r @ rest)"
  by (auto simp: read_unsigned_def read_int_part_append read_frac_append read_exp_append split: option.splits)

lemma read_num_append:
  assumes "delim rest" "read_num s = Some (x, r)"
  shows "read_num (s @ rest) = Some (x, r @ rest)"
  using assms read_unsigned_append[OF assms(1), of s] read_unsigned_append[OF assms(1), of "tl s"]
  by (cases s) (auto simp: read_num_def split: if_splits)

lemma read_literal: "literal n \<Longrightarrow> delim rest \<Longrightarrow> read_num (n @ rest) = Some (n, rest)"
  using read_num_append[of rest n n "[]"] by (simp add: literal_def)

lemma is_dig_digit: "d < 10 \<Longrightarrow> is_dig (digit d)"
  by (simp add: is_dig_def digit_def)

lemma digits_of_10:
  "list_all is_dig (digits_of 10 n)" "hd (digits_of 10 n) = CHR ''0'' \<Longrightarrow> n = 0"
proof (induction n rule: less_induct)
  case (less n)
  have small: "digit d = CHR ''0'' \<Longrightarrow> d < 10 \<Longrightarrow> d = 0" for d
    by (drule arg_cong[where f = byte]) (simp add: digit_def)
  {
    case 1
    show ?case
      using less(1)[of "n div 10"] is_dig_digit[of n] is_dig_digit[of "n mod 10"]
      by (subst digits_of.simps) auto
  next
    case 2
    show ?case
    proof (cases "n < 10")
      case True
      with 2 small show ?thesis by (subst (asm) digits_of.simps) auto
    next
      case False
      with 2 have "hd (digits_of 10 (n div 10)) = CHR ''0''"
        by (subst (asm) digits_of.simps) auto
      with less(2)[of "n div 10"] False show ?thesis by auto
    qed
  }
qed

lemma read_unsigned_digits: "read_unsigned (digits_of 10 n) = Some (digits_of 10 n, [])"
proof (cases "n = 0")
  case True
  then show ?thesis
    by (simp add: digits_of.simps read_unsigned_def read_int_part_def read_frac_def read_exp_def digit_def is_dig_def)
next
  case False
  obtain c cs where d: "digits_of 10 n = c # cs" by (cases "digits_of 10 n") auto
  with False digits_of_10[of n] have "is_dig c" "c \<noteq> CHR ''0''" "list_all is_dig cs" by auto
  then show ?thesis
    by (simp add: d read_unsigned_def read_int_part_def read_frac_def read_exp_def list_all_iff takeWhile_eq_all_conv
        dropWhile_eq_Nil_conv[THEN iffD2])
qed

lemma literal_Itoa: "literal (Itoa i)"
proof -
  obtain c cs where d: "digits_of 10 (nat i) = c # cs" by (cases "digits_of 10 (nat i)") auto
  with digits_of_10(1)[of "nat i"] have "c \<noteq> CHR ''-''" by (auto simp: is_dig_def)
  then show ?thesis
    using read_unsigned_digits[of "nat i"] read_unsigned_digits[of "nat (- i)"] d
    by (auto simp: literal_def Itoa_def read_num_def)
qed

section \<open>The round trip\<close>

fun json_ok :: "json \<Rightarrow> bool"
  and jsons_ok :: "json list \<Rightarrow> bool"
  and members_ok :: "(string \<times> json) list \<Rightarrow> bool" where
  "json_ok JNull = True"
| "json_ok (JBool b) = True"
| "json_ok (JNum n) = literal n"
| "json_ok (JStr s) = valid_utf8 s"
| "json_ok (JArr vs) = jsons_ok vs"
| "json_ok (JObj ms) = members_ok ms"
| "jsons_ok [] = True"
| "jsons_ok (v # vs) = (json_ok v \<and> jsons_ok vs)"
| "members_ok [] = True"
| "members_ok ((k, v) # ms) = (valid_utf8 k \<and> json_ok v \<and> members_ok ms)"

fun nesting :: "json \<Rightarrow> nat"
  and nestings :: "json list \<Rightarrow> nat"
  and members_nesting :: "(string \<times> json) list \<Rightarrow> nat" where
  "nesting (JArr vs) = Suc (nestings vs)"
| "nesting (JObj ms) = Suc (members_nesting ms)"
| "nesting _ = 0"
| "nestings [] = 0"
| "nestings (v # vs) = max (nesting v) (nestings vs)"
| "members_nesting [] = 0"
| "members_nesting ((k, v) # ms) = max (nesting v) (members_nesting ms)"

text \<open>The fuel one value takes.\<close>

fun need :: "json \<Rightarrow> nat"
  and needs_elems :: "json list \<Rightarrow> nat"
  and needs_members :: "(string \<times> json) list \<Rightarrow> nat" where
  "need (JArr vs) = Suc (needs_elems vs)"
| "need (JObj ms) = Suc (needs_members ms)"
| "need _ = 1"
| "needs_elems [] = 0"
| "needs_elems (v # vs) = Suc (max (need v) (needs_elems vs))"
| "needs_members [] = 0"
| "needs_members ((k, v) # ms) = Suc (max (need v) (needs_members ms))"

lemma skip_ws_no [simp]: "\<not> is_ws c \<Longrightarrow> skip_ws (c # cs) = c # cs"
  by (simp add: skip_ws_def)

lemma strip_append [simp]: "strip p (p @ rest) = Some rest"
  by (simp add: strip_def str_HasPrefix_iff)

lemma not_ws [simp]:
  "\<not> is_ws CHR ''n''" "\<not> is_ws CHR ''t''" "\<not> is_ws CHR ''f''" "\<not> is_ws CHR 0x22" "\<not> is_ws CHR ''[''"
  "\<not> is_ws CHR '']''" "\<not> is_ws CHR ''{''" "\<not> is_ws CHR ''}''" "\<not> is_ws CHR '',''" "\<not> is_ws CHR '':''"
  "\<not> is_ws CHR ''-''"
  by (simp_all add: is_ws_def)

text \<open>How a text starts: never with white space or a closing bracket.\<close>

lemma literal_start:
  assumes "literal n"
  obtains c cs where "n = c # cs" "c = CHR ''-'' \<or> is_dig c"
proof -
  obtain c cs where n: "n = c # cs" using assms by (cases n) (auto simp: literal_def read_num_def)
  with assms have "c = CHR ''-'' \<or> is_dig c"
    by (auto simp: literal_def read_num_def read_unsigned_def read_int_part_def is_dig_def
        split: if_splits option.splits)
  with n that show thesis by blast
qed

lemma text_start:
  assumes "json_ok v"
  obtains c cs where "json_text v = c # cs" "\<not> is_ws c" "c \<noteq> CHR '']''" "c \<noteq> CHR ''}''"
proof (cases v)
  case (JNum n)
  with assms have "literal n" by simp
  then obtain c cs where "n = c # cs" "c = CHR ''-'' \<or> is_dig c" by (rule literal_start)
  moreover from this(2) have "\<not> is_ws c" "c \<noteq> CHR '']''" "c \<noteq> CHR ''}''" by (auto simp: is_dig_def is_ws_def)
  ultimately show thesis using JNum that[of c cs] by simp
next
  case (JBool b)
  with that show thesis by (cases b) auto
qed (use that in \<open>auto simp: json_str_def\<close>)

lemma texts_start:
  assumes "json_ok v"
  obtains c cs where "json_texts (v # vs) = c # cs" "\<not> is_ws c" "c \<noteq> CHR '']''"
proof -
  obtain c cs where "json_text v = c # cs" "\<not> is_ws c" "c \<noteq> CHR '']''" "c \<noteq> CHR ''}''"
    using assms by (rule text_start)
  with that show thesis by (cases vs) auto
qed

lemma need_pos [simp]: "0 < need v"
  by (cases v) simp_all

lemma read_value_number:
  assumes "literal n" "delim rest"
  shows "read_value (Suc k) d (n @ rest) = Some (JNum n, rest)"
proof -
  obtain c cs where n: "n = c # cs" "c = CHR ''-'' \<or> is_dig c" using assms(1) by (rule literal_start)
  then have "\<not> is_ws c" "c \<notin> {CHR ''n'', CHR ''t'', CHR ''f'', CHR 0x22, CHR ''['', CHR ''{''}"
    by (auto simp: is_dig_def is_ws_def)
  with read_literal[OF assms] n(1) show ?thesis by (simp add: read_value.simps(2))
qed

lemma read_value_text:
  "json_ok v \<Longrightarrow> nesting v \<le> d \<Longrightarrow> need v \<le> n \<Longrightarrow> delim rest \<Longrightarrow>
     read_value n d (json_text v @ rest) = Some (v, rest)"
  "jsons_ok vs \<Longrightarrow> vs \<noteq> [] \<Longrightarrow> nestings vs \<le> d \<Longrightarrow> needs_elems vs \<le> n \<Longrightarrow>
     read_elems n d (json_texts vs @ CHR '']'' # rest) = Some (vs, rest)"
  "members_ok ms \<Longrightarrow> ms \<noteq> [] \<Longrightarrow> members_nesting ms \<le> d \<Longrightarrow> needs_members ms \<le> n \<Longrightarrow>
     read_members n d (json_members ms @ CHR ''}'' # rest) = Some (ms, rest)"
proof (induction v and vs and ms arbitrary: n d rest and n d rest and n d rest
    rule: json_text_json_texts_json_members.induct)
  case 1
  then obtain k where "n = Suc k" by (cases n) auto
  then show ?case by (simp add: read_value.simps(2) strip_append[where p = "''ull''", simplified])
next
  case (2 b)
  then obtain k where "n = Suc k" by (cases n) auto
  then show ?case
    by (simp add: read_value.simps(2) strip_append[where p = "''rue''", simplified]
        strip_append[where p = "''alse''", simplified])
next
  case (3 x)
  then obtain k where "n = Suc k" by (cases n) auto
  with 3 show ?case using read_value_number by simp
next
  case (4 s)
  then obtain k where "n = Suc k" by (cases n) auto
  with 4 show ?case using read_str_esc[of s rest] by (simp add: read_value.simps(2) json_str_def)
next
  case (5 vs)
  then obtain k where k: "n = Suc k" by (cases n) auto
  show ?case
  proof (cases vs)
    case Nil
    with k 5 show ?thesis by (simp add: read_value.simps(2))
  next
    case (Cons v vs')
    obtain c cs where c: "json_texts vs = c # cs" "\<not> is_ws c" "c \<noteq> CHR '']''"
      by (rule texts_start[of v vs']) (use 5 Cons in auto)
    have "read_elems k (d - 1) (json_texts vs @ CHR '']'' # rest) = Some (vs, rest)"
      using 5 Cons k by (intro "5.IH") auto
    with c k 5 show ?thesis by (simp add: read_value.simps(2))
  qed
next
  case (6 ms)
  then obtain k where k: "n = Suc k" by (cases n) auto
  show ?case
  proof (cases ms)
    case Nil
    with k 6 show ?thesis by (simp add: read_value.simps(2))
  next
    case (Cons m ms')
    then obtain cs where c: "json_members ms = CHR 0x22 # cs"
      by (cases m; cases ms') (auto simp: json_str_def)
    have "read_members k (d - 1) (json_members ms @ CHR ''}'' # rest) = Some (ms, rest)"
      using 6 Cons k by (intro "6.IH") auto
    with c k 6 show ?thesis by (simp add: read_value.simps(2))
  qed
next
  case 7
  then show ?case by simp
next
  case (8 v)
  then obtain k where "n = Suc k" by (cases n) auto
  with 8 show ?case by (simp add: read_elems.simps(2))
next
  case (9 v w vs)
  then obtain k where "n = Suc k" by (cases n) auto
  with 9 show ?case by (simp add: read_elems.simps(2))
next
  case 10
  then show ?case by simp
next
  case (11 key v)
  then obtain k where "n = Suc k" by (cases n) auto
  with 11 show ?case
    using read_str_esc[of key "CHR '':'' # json_text v @ CHR ''}'' # rest"]
    by (simp add: read_members.simps(2) json_str_def)
next
  case (12 key v m ms)
  then obtain k where "n = Suc k" by (cases n) auto
  with 12 show ?case
    using read_str_esc[of key "CHR '':'' # json_text v @ CHR '','' # json_members (m # ms) @ CHR ''}'' # rest"]
    by (simp add: read_members.simps(2) json_str_def)
qed

lemma length_json_text:
  "json_ok v \<Longrightarrow> need v \<le> 2 * length (json_text v) + 1"
  "jsons_ok vs \<Longrightarrow> needs_elems vs \<le> 2 * length (json_texts vs) + 2"
  "members_ok ms \<Longrightarrow> needs_members ms \<le> 2 * length (json_members ms) + 2"
  by (induction v and vs and ms rule: json_text_json_texts_json_members.induct) auto

lemma json_read_text:
  assumes "json_ok v" "nesting v \<le> max_nesting"
  shows "json_read (json_text v) = Some v"
  using read_value_text(1)[OF assms length_json_text(1)[OF assms(1)], of "[]"]
  by (simp add: json_read_def skip_ws_def)

declare valid_utf8.simps(2) [simp del]

end
