(* ===== verification/Helm.thy ===== *)
theory Helm
  imports Go_Json_Reader "HOL-Library.AList"
begin

text \<open>
  \<^verbatim>\<open>internal/helm/helm.go\<close>: rendering the KrakenD chart into resources. Dynamic Go values (\<^verbatim>\<open>any\<close>)
  are a datatype with one constructor per dynamic type the code can meet; a map is its list of
  entries, with distinct keys. A run-time panic (a failed type assertion, a method of a nil type) is
  a value of its own, told apart from an error that is returned. The chart loader, the template
  engine and the YAML parser are parameters.
\<close>

section \<open>Dynamic values and panics\<close>

datatype any =
    ANil
  | ABool bool
  | AInt int
  | AFloat string \<comment> \<open>a float64, by the literal it was read from\<close>
  | AStr string
  | AList "any list" \<comment> \<open>\<open>[]any\<close>\<close>
  | AMap "(string \<times> any) list" \<comment> \<open>\<open>map[string]any\<close>\<close>
  | AMapAny "(any \<times> any) list" \<comment> \<open>\<open>map[any]any\<close>\<close>
  | AValues "(string \<times> any) list" \<comment> \<open>\<open>chartutil.Values\<close>\<close>
  | AOther string \<comment> \<open>a value of another type, no map\<close>

type_synonym attrs = "(string \<times> any) list"

datatype 'a go = Ret 'a | Panic string

definition go_bind :: "'a go \<Rightarrow> ('a \<Rightarrow> 'b go) \<Rightarrow> 'b go" where
  "go_bind m f = (case m of Ret x \<Rightarrow> f x | Panic t \<Rightarrow> Panic t)"

lemma go_bind_simps [simp]: "go_bind (Ret x) f = f x" "go_bind (Panic t) f = Panic t"
  by (simp_all add: go_bind_def)

lemma go_bind_Ret: "go_bind m f = Ret y \<longleftrightarrow> (\<exists>x. m = Ret x \<and> f x = Ret y)"
  by (cases m) simp_all

section \<open>Merging overrides\<close>

definition sub_map :: "any option \<Rightarrow> attrs" where
  "sub_map v = (case v of Some (AMap m) \<Rightarrow> m | _ \<Rightarrow> [])"

text \<open>The entries are taken in the order of the list, any order for Go's \<^verbatim>\<open>range\<close>.\<close>

function overrideValues :: "attrs \<Rightarrow> attrs \<Rightarrow> attrs go" where
  "overrideValues target [] = Ret target"
| "overrideValues target ((key, val) # overrides) =
     (case val of
        ANil \<Rightarrow> Panic ''nil pointer dereference''
      | AMap sub \<Rightarrow>
          go_bind (overrideValues (sub_map (map_of target key)) sub)
            (\<lambda>subMap. overrideValues (AList.update key (AMap subMap) target) overrides)
      | AMapAny _ \<Rightarrow> Panic ''interface conversion''
      | AValues _ \<Rightarrow> Panic ''interface conversion''
      | _ \<Rightarrow> overrideValues (AList.update key val target) overrides)"
  by pat_completeness auto
termination
  by (relation "measure (\<lambda>(t, os). size (AMap os))") simp_all

section \<open>Repairing maps\<close>

fun repairMapAny :: "any \<Rightarrow> any go"
  and repair_elems :: "any list \<Rightarrow> any list go"
  and repair_entries :: "(any \<times> any) list \<Rightarrow> attrs go" where
  "repairMapAny (AList xs) = go_bind (repair_elems xs) (\<lambda>ys. Ret (AList ys))"
| "repairMapAny (AMapAny kvs) = go_bind (repair_entries kvs) (\<lambda>m. Ret (AMap m))"
| "repairMapAny v = Ret v"
| "repair_elems [] = Ret []"
| "repair_elems (x # xs) =
     go_bind (repairMapAny x) (\<lambda>y. go_bind (repair_elems xs) (\<lambda>ys. Ret (y # ys)))"
| "repair_entries [] = Ret []"
| "repair_entries ((k, v) # kvs) =
     (case k of
        AStr s \<Rightarrow> go_bind (repairMapAny v) (\<lambda>w. go_bind (repair_entries kvs) (\<lambda>m. Ret ((s, w) # m)))
      | _ \<Rightarrow> Panic ''interface conversion'')"

section \<open>Rendering\<close>

record Chart =
  ch_ToRenderValues :: "attrs \<Rightarrow> string \<Rightarrow> string \<Rightarrow> attrs result"
  ch_Render :: "attrs \<Rightarrow> (string \<times> string) list result"
  ch_yaml_Unmarshal :: "string \<Rightarrow> any result"

definition LoadChart :: "(string \<Rightarrow> error option) \<Rightarrow> (string \<Rightarrow> Chart result) \<Rightarrow> string \<Rightarrow> Chart result" where
  "LoadChart stat load chartFile =
     (case stat chartFile of
        Some err \<Rightarrow> Inl (WrapW (''loading chart '' @ [CHR 39] @ chartFile @ [CHR 39]) err)
      | None \<Rightarrow> (case load chartFile of Inl err \<Rightarrow> Inl err | Inr c \<Rightarrow> Inr c))"

definition render :: "Chart \<Rightarrow> string \<Rightarrow> string \<Rightarrow> attrs \<Rightarrow> ((string \<times> string) list result) go" where
  "render c releaseName releaseNamespace values =
     (case ch_ToRenderValues c values releaseName releaseNamespace of
        Inl err \<Rightarrow> Ret (Inl err)
      | Inr vals \<Rightarrow>
          go_bind (overrideValues vals values) (\<lambda>vals'.
            (case ch_Render c vals' of Inl err \<Rightarrow> Ret (Inl err) | Inr files \<Rightarrow> Ret (Inr files))))"

definition skips :: "string \<Rightarrow> string \<Rightarrow> bool" where
  "skips key resource \<longleftrightarrow> \<not> str_HasSuffix key ''.yaml'' \<or> resource = [CHR 10] \<or> resource = []"

definition unmarshal_error :: "string \<Rightarrow> error \<Rightarrow> error" where
  "unmarshal_error key err = WrapW (''unmarshalling resource '' @ [CHR 39] @ key @ [CHR 39]) err"

text \<open>The rendered files, in the order \<^verbatim>\<open>range\<close> visits them.\<close>

fun ToUnstructured_loop :: "Chart \<Rightarrow> (string \<times> string) list \<Rightarrow> (attrs list result) go" where
  "ToUnstructured_loop c [] = Ret (Inr [])"
| "ToUnstructured_loop c ((key, resource) # files) =
     (if skips key resource then ToUnstructured_loop c files
      else case ch_yaml_Unmarshal c resource of
          Inl err \<Rightarrow> Ret (Inl (unmarshal_error key err))
        | Inr v \<Rightarrow>
            go_bind (repairMapAny v) (\<lambda>w.
              (case w of
                 AMap obj \<Rightarrow>
                   go_bind (ToUnstructured_loop c files) (\<lambda>r.
                     Ret (case r of Inl err \<Rightarrow> Inl err | Inr objs \<Rightarrow> Inr (obj # objs)))
               | _ \<Rightarrow> Panic ''interface conversion'')))"

definition ToUnstructured :: "Chart \<Rightarrow> string \<Rightarrow> string \<Rightarrow> attrs \<Rightarrow> (attrs list result) go" where
  "ToUnstructured c releaseName releaseNamespace values =
     go_bind (render c releaseName releaseNamespace values) (\<lambda>result.
       (case result of
          Inl err \<Rightarrow> Ret (Inl (WrapW ''rendering chart'' err))
        | Inr files \<Rightarrow> ToUnstructured_loop c files))"

section \<open>Values at a path\<close>

fun at :: "string list \<Rightarrow> any \<Rightarrow> any option" where
  "at [] v = Some v"
| "at (k # ks) (AMap m) = (case map_of m k of None \<Rightarrow> None | Some v \<Rightarrow> at ks v)"
| "at (k # ks) v = None"

definition is_map :: "any \<Rightarrow> bool" where
  "is_map v \<longleftrightarrow> (case v of AMap _ \<Rightarrow> True | _ \<Rightarrow> False)"

text \<open>Keys are distinct in every map.\<close>

fun wf_any :: "any \<Rightarrow> bool"
  and wf_attrs :: "attrs \<Rightarrow> bool" where
  "wf_any (AMap m) \<longleftrightarrow> distinct (map fst m) \<and> wf_attrs m"
| "wf_any v \<longleftrightarrow> True"
| "wf_attrs [] \<longleftrightarrow> True"
| "wf_attrs ((k, v) # m) \<longleftrightarrow> wf_any v \<and> wf_attrs m"

text \<open>The values an override may hold: no nil, no map but \<^verbatim>\<open>map[string]any\<close>.\<close>

fun plain_any :: "any \<Rightarrow> bool"
  and plain_attrs :: "attrs \<Rightarrow> bool" where
  "plain_any (AMap m) \<longleftrightarrow> plain_attrs m"
| "plain_any ANil \<longleftrightarrow> False"
| "plain_any (AMapAny m) \<longleftrightarrow> False"
| "plain_any (AValues m) \<longleftrightarrow> False"
| "plain_any v \<longleftrightarrow> True"
| "plain_attrs [] \<longleftrightarrow> True"
| "plain_attrs ((k, v) # m) \<longleftrightarrow> plain_any v \<and> plain_attrs m"

lemma overrideValues_returns_iff: "(\<exists>m. overrideValues t os = Ret m) \<longleftrightarrow> plain_attrs os"
proof (induction t os rule: overrideValues.induct)
  case (1 t)
  show ?case by simp
next
  case (2 t key val os)
  show ?case
  proof (cases val)
    case (AMap sub)
    with 2 show ?thesis
      by (cases "overrideValues (sub_map (map_of t key)) sub") auto
  qed (use 2 in auto)
qed

lemma wf_attrs_lookup: "wf_attrs m \<Longrightarrow> map_of m k = Some v \<Longrightarrow> wf_any v"
  by (induction m) (auto split: if_splits)

lemma overrideValues_none:
  "overrideValues t os = Ret m \<Longrightarrow> map_of os k = None \<Longrightarrow> map_of m k = map_of t k"
proof (induction t os arbitrary: m rule: overrideValues.induct)
  case (1 t)
  then show ?case by simp
next
  case (2 t key val os)
  then show ?case
    by (cases val) (auto simp: update_conv go_bind_Ret split: if_splits)
qed

lemma overrideValues_leaf:
  assumes "overrideValues t os = Ret m" "distinct (map fst os)" "map_of os k = Some v" "\<not> is_map v"
  shows "map_of m k = Some v"
  using assms
proof (induction t os arbitrary: m rule: overrideValues.induct)
  case (1 t)
  then show ?case by simp
next
  case (2 t key val os)
  show ?case
  proof (cases "key = k")
    case True
    with "2.prems" have val: "val = v" "map_of os k = None" by (auto simp: map_of_eq_None_iff)
    with "2.prems" True show ?thesis
      by (cases v) (auto simp: is_map_def update_conv dest: overrideValues_none)
  next
    case False
    with 2 show ?thesis by (cases val) (auto simp: go_bind_Ret)
  qed
qed

lemma overrideValues_sub:
  assumes "overrideValues t os = Ret m" "distinct (map fst os)" "map_of os k = Some (AMap sub)"
  shows "\<exists>m'. overrideValues (sub_map (map_of t k)) sub = Ret m' \<and> map_of m k = Some (AMap m')"
  using assms
proof (induction t os arbitrary: m rule: overrideValues.induct)
  case (1 t)
  then show ?case by simp
next
  case (2 t key val os)
  show ?case
  proof (cases "key = k")
    case True
    with "2.prems" have val: "val = AMap sub" "map_of os k = None" by (auto simp: map_of_eq_None_iff)
    with "2.prems" True obtain m' where "overrideValues (sub_map (map_of t k)) sub = Ret m'"
      "overrideValues (AList.update k (AMap m') t) os = Ret m" by (auto simp: go_bind_Ret)
    with overrideValues_none[OF this(2) val(2)] show ?thesis by (simp add: update_conv)
  next
    case False
    with 2 show ?thesis by (cases val) (auto simp: go_bind_Ret update_conv)
  qed
qed

text \<open>A path that an override does not reach: it leaves the override at some key before its end.\<close>

fun untouched :: "string list \<Rightarrow> any \<Rightarrow> bool" where
  "untouched [] v = False"
| "untouched (k # ks) (AMap m) = (case map_of m k of None \<Rightarrow> True | Some v \<Rightarrow> untouched ks v)"
| "untouched (k # ks) v = False"

lemma overrideValues_at:
  assumes "overrideValues t os = Ret m" "wf_any (AMap os)"
  shows "at p (AMap os) = Some v \<Longrightarrow> \<not> is_map v \<Longrightarrow> at p (AMap m) = Some v"
    and "untouched p (AMap os) \<Longrightarrow> at p (AMap t) = Some v \<Longrightarrow> at p (AMap m) = Some v"
proof -
  have "(at p (AMap os) = Some v \<longrightarrow> \<not> is_map v \<longrightarrow> at p (AMap m) = Some v) \<and>
      (untouched p (AMap os) \<longrightarrow> at p (AMap t) = Some v \<longrightarrow> at p (AMap m) = Some v)"
    using assms
  proof (induction p arbitrary: t os m)
    case Nil
    then show ?case by (auto simp: is_map_def)
  next
    case (Cons k ks)
    show ?case
    proof (cases "map_of os k")
      case None
      then show ?thesis using overrideValues_none[OF Cons.prems(1) None] by simp
    next
      case (Some x)
      show ?thesis
      proof (cases x)
        case (AMap sub)
        with Some Cons.prems obtain m' where m': "overrideValues (sub_map (map_of t k)) sub = Ret m'"
          "map_of m k = Some (AMap m')" using overrideValues_sub by fastforce
        have "wf_any (AMap sub)"
          using wf_attrs_lookup[of os k "AMap sub"] Some AMap Cons.prems(2) by simp
        note ih = Cons.IH[OF m'(1) this]
        have "at ks (AMap (sub_map (map_of t k))) = Some v"
          if "at (k # ks) (AMap t) = Some v" "untouched ks (AMap sub)"
        proof (cases ks)
          case Nil
          with that(2) show ?thesis by simp
        next
          case Cons
          with that(1) show ?thesis
            by (cases "the (map_of t k)") (auto simp: sub_map_def split: option.splits)
        qed
        with ih m'(2) Some AMap show ?thesis by auto
      qed (use Some Cons.prems overrideValues_leaf[OF Cons.prems(1) _ Some] in
          \<open>cases ks; auto simp: is_map_def\<close>)+
    qed
  qed
  then show "at p (AMap os) = Some v \<Longrightarrow> \<not> is_map v \<Longrightarrow> at p (AMap m) = Some v"
    and "untouched p (AMap os) \<Longrightarrow> at p (AMap t) = Some v \<Longrightarrow> at p (AMap m) = Some v" by blast+
qed

section \<open>Repaired values\<close>

text \<open>No \<^verbatim>\<open>map[any]any\<close> anywhere inside.\<close>

fun clean :: "any \<Rightarrow> bool"
  and clean_list :: "any list \<Rightarrow> bool"
  and clean_attrs :: "attrs \<Rightarrow> bool" where
  "clean (AList xs) \<longleftrightarrow> clean_list xs"
| "clean (AMap m) \<longleftrightarrow> clean_attrs m"
| "clean (AMapAny m) \<longleftrightarrow> False"
| "clean v \<longleftrightarrow> True"
| "clean_list [] \<longleftrightarrow> True"
| "clean_list (x # xs) \<longleftrightarrow> clean x \<and> clean_list xs"
| "clean_attrs [] \<longleftrightarrow> True"
| "clean_attrs ((k, v) # m) \<longleftrightarrow> clean v \<and> clean_attrs m"

text \<open>What the repair reaches: below a map with string keys nothing is left to do.\<close>

fun reachable :: "any \<Rightarrow> bool"
  and reachable_list :: "any list \<Rightarrow> bool"
  and reachable_entries :: "(any \<times> any) list \<Rightarrow> bool" where
  "reachable (AList xs) \<longleftrightarrow> reachable_list xs"
| "reachable (AMapAny m) \<longleftrightarrow> reachable_entries m"
| "reachable (AMap m) \<longleftrightarrow> clean_attrs m"
| "reachable v \<longleftrightarrow> True"
| "reachable_list [] \<longleftrightarrow> True"
| "reachable_list (x # xs) \<longleftrightarrow> reachable x \<and> reachable_list xs"
| "reachable_entries [] \<longleftrightarrow> True"
| "reachable_entries ((k, v) # m) \<longleftrightarrow> reachable v \<and> reachable_entries m"

lemma repair_clean:
  "reachable v \<Longrightarrow> repairMapAny v = Ret w \<Longrightarrow> clean w"
  "reachable_list xs \<Longrightarrow> repair_elems xs = Ret ys \<Longrightarrow> clean_list ys"
  "reachable_entries kvs \<Longrightarrow> repair_entries kvs = Ret m \<Longrightarrow> clean_attrs m"
  by (induction v and xs and kvs arbitrary: w and ys and m
      rule: repairMapAny_repair_elems_repair_entries.induct)
    (auto simp: go_bind_Ret split: any.splits)

section \<open>Selected files\<close>

definition parses_to :: "Chart \<Rightarrow> string \<times> string \<Rightarrow> attrs \<Rightarrow> bool" where
  "parses_to c file obj \<longleftrightarrow> (\<exists>v. ch_yaml_Unmarshal c (snd file) = Inr v \<and> repairMapAny v = Ret (AMap obj))"

lemma ToUnstructured_loop_Inr:
  "ToUnstructured_loop c files = Ret (Inr objs) \<longleftrightarrow>
     list_all2 (parses_to c) (filter (\<lambda>f. \<not> skips (fst f) (snd f)) files) objs"
proof (induction files arbitrary: objs)
  case Nil
  show ?case by auto
next
  case (Cons f files)
  obtain key resource where f: "f = (key, resource)" by fastforce
  show ?case
    unfolding f
  proof (cases "skips key resource")
    case True
    with Cons show "ToUnstructured_loop c ((key, resource) # files) = Ret (Inr objs) \<longleftrightarrow>
        list_all2 (parses_to c) (filter (\<lambda>f. \<not> skips (fst f) (snd f)) ((key, resource) # files)) objs" by simp
  next
    case False
    show "ToUnstructured_loop c ((key, resource) # files) = Ret (Inr objs) \<longleftrightarrow>
        list_all2 (parses_to c) (filter (\<lambda>f. \<not> skips (fst f) (snd f)) ((key, resource) # files)) objs"
    proof (cases "\<exists>obj. parses_to c (key, resource) obj")
      case True
      then obtain v obj where v: "ch_yaml_Unmarshal c resource = Inr v" "repairMapAny v = Ret (AMap obj)"
        by (auto simp: parses_to_def)
      then have "parses_to c (key, resource) o' \<longleftrightarrow> o' = obj" for o' by (auto simp: parses_to_def)
      moreover have "ToUnstructured_loop c ((key, resource) # files) = Ret (Inr objs) \<longleftrightarrow>
          (\<exists>os. objs = obj # os \<and> ToUnstructured_loop c files = Ret (Inr os))"
        using False v by (cases "ToUnstructured_loop c files") (auto split: sum.splits)
      ultimately show ?thesis using False v Cons.IH by (auto simp: list_all2_Cons1)
    next
      case none: False
      have "ToUnstructured_loop c ((key, resource) # files) \<noteq> Ret (Inr objs)"
      proof (cases "ch_yaml_Unmarshal c resource")
        case (Inl e)
        with False show ?thesis by simp
      next
        case (Inr v)
        with none have "\<nexists>obj. repairMapAny v = Ret (AMap obj)" by (auto simp: parses_to_def)
        with Inr False show ?thesis by (auto simp: go_bind_Ret split: any.splits)
      qed
      with False none show ?thesis by (auto simp: list_all2_Cons1)
    qed
  qed
qed

section \<open>Properties\<close>

text \<open>
  C30. Overriding values. For overrides without nil and without maps of another type, whatever the
  order in which Go visits their entries, merging returns; every value the overrides hold at a path
  is then found there, and every value of the target at a path the overrides do not reach is kept.
\<close>

theorem overrideValues_correct:
  assumes "plain_attrs overrides" "wf_any (AMap overrides)"
  shows "\<exists>m. overrideValues target overrides = Ret m \<and>
    (\<forall>p v. at p (AMap overrides) = Some v \<longrightarrow> \<not> is_map v \<longrightarrow> at p (AMap m) = Some v) \<and>
    (\<forall>p v. untouched p (AMap overrides) \<longrightarrow> at p (AMap target) = Some v \<longrightarrow> at p (AMap m) = Some v)"
proof -
  obtain m where m: "overrideValues target overrides = Ret m"
    using assms(1) overrideValues_returns_iff by blast
  with overrideValues_at[OF m assms(2)] show ?thesis by blast
qed

theorem overrideValues_correct_witness:
  "\<exists>m. overrideValues [(''krakend'', AMap [(''replicaCount'', AInt 2), (''image'', AStr ''x'')])]
       [(''krakend'', AMap [(''replicaCount'', AFloat ''3'')])] = Ret m \<and>
     at [''krakend'', ''replicaCount''] (AMap m) = Some (AFloat ''3'') \<and>
     at [''krakend'', ''image''] (AMap m) = Some (AStr ''x'')"
proof -
  have "plain_attrs [(''krakend'', AMap [(''replicaCount'', AFloat ''3'')])]"
    "wf_any (AMap [(''krakend'', AMap [(''replicaCount'', AFloat ''3'')])])" by simp_all
  from overrideValues_correct[OF this, of "[(''krakend'', AMap [(''replicaCount'', AInt 2), (''image'', AStr ''x'')])]"]
  obtain m where m: "overrideValues [(''krakend'', AMap [(''replicaCount'', AInt 2), (''image'', AStr ''x'')])]
      [(''krakend'', AMap [(''replicaCount'', AFloat ''3'')])] = Ret m"
    and set_: "\<And>p v. at p (AMap [(''krakend'', AMap [(''replicaCount'', AFloat ''3'')])]) = Some v \<Longrightarrow>
      \<not> is_map v \<Longrightarrow> at p (AMap m) = Some v"
    and kept: "\<And>p v. untouched p (AMap [(''krakend'', AMap [(''replicaCount'', AFloat ''3'')])]) \<Longrightarrow>
      at p (AMap [(''krakend'', AMap [(''replicaCount'', AInt 2), (''image'', AStr ''x'')])]) = Some v \<Longrightarrow>
      at p (AMap m) = Some v" by blast
  show ?thesis
    using m set_[of "[''krakend'', ''replicaCount'']"] kept[of "[''krakend'', ''image'']"]
    by (simp add: is_map_def)
qed

text \<open>
  C31. Rendering. The chart library computes the render values from the overrides; for overrides
  without nil and without maps of another type the code never panics, and answers what the template
  engine answers on these values with the overrides merged in once more beside them: every entry of
  the render values whose key is not overridden, such as the \<^verbatim>\<open>Values\<close> into which the library has put
  the overrides already, is given to the engine as it was computed, every override is found at its own
  path, and the rest of an entry that is overridden in part is kept. An error of the library comes first.
\<close>

theorem render_correct:
  assumes "plain_attrs values" "wf_any (AMap values)"
  shows "case ch_ToRenderValues c values releaseName releaseNamespace of
      Inl err \<Rightarrow> render c releaseName releaseNamespace values = Ret (Inl err)
    | Inr vals \<Rightarrow> \<exists>vals'. render c releaseName releaseNamespace values = Ret (ch_Render c vals') \<and>
        (\<forall>key. map_of values key = None \<longrightarrow> map_of vals' key = map_of vals key) \<and>
        (\<forall>p v. at p (AMap values) = Some v \<longrightarrow> \<not> is_map v \<longrightarrow> at p (AMap vals') = Some v) \<and>
        (\<forall>p v. untouched p (AMap values) \<longrightarrow> at p (AMap vals) = Some v \<longrightarrow> at p (AMap vals') = Some v)"
proof (cases "ch_ToRenderValues c values releaseName releaseNamespace")
  case (Inl err)
  then show ?thesis by (simp add: render_def)
next
  case (Inr vals)
  obtain vals' where m: "overrideValues vals values = Ret vals'"
    using assms(1) overrideValues_returns_iff by blast
  then have "render c releaseName releaseNamespace values = Ret (ch_Render c vals')"
    using Inr by (simp add: render_def split: sum.split)
  with Inr overrideValues_none[OF m] overrideValues_at[OF m assms(2)] show ?thesis by auto
qed

definition sample_chart :: Chart where
  "sample_chart =
     \<lparr>ch_ToRenderValues = (\<lambda>values name ns. Inr [(''Values'', AValues values), (''Release'', AMap [(''Name'', AStr name)])]),
      ch_Render = (\<lambda>vals. Inr [(''krakend/templates/cm.yaml'', ''kind: ConfigMap''), (''krakend/templates/NOTES.txt'', ''hi'')]),
      ch_yaml_Unmarshal = (\<lambda>text. if text = ''kind: ConfigMap'' then Inr (AMap [(''kind'', AStr ''ConfigMap'')]) else Inr ANil)\<rparr>"

theorem render_correct_witness:
  "\<exists>vals'. render sample_chart ''k'' ''ns1'' [(''krakend'', AMap [(''replicaCount'', AFloat ''3'')])] = Ret (ch_Render sample_chart vals') \<and>
     map_of vals' ''Values'' = Some (AValues [(''krakend'', AMap [(''replicaCount'', AFloat ''3'')])]) \<and>
     at [''krakend'', ''replicaCount''] (AMap vals') = Some (AFloat ''3'')"
proof -
  have "plain_attrs [(''krakend'', AMap [(''replicaCount'', AFloat ''3'')])]"
    "wf_any (AMap [(''krakend'', AMap [(''replicaCount'', AFloat ''3'')])])" by simp_all
  from render_correct[OF this, of sample_chart "''k''" "''ns1''"]
  obtain vals' where vals': "render sample_chart ''k'' ''ns1'' [(''krakend'', AMap [(''replicaCount'', AFloat ''3'')])] = Ret (ch_Render sample_chart vals')"
    and kept: "\<And>key. map_of [(''krakend'', AMap [(''replicaCount'', AFloat ''3'')])] key = None \<Longrightarrow>
      map_of vals' key = map_of [(''Values'', AValues [(''krakend'', AMap [(''replicaCount'', AFloat ''3'')])]), (''Release'', AMap [(''Name'', AStr ''k'')])] key"
    and set_: "\<And>p v. at p (AMap [(''krakend'', AMap [(''replicaCount'', AFloat ''3'')])]) = Some v \<Longrightarrow> \<not> is_map v \<Longrightarrow> at p (AMap vals') = Some v"
    by (simp add: sample_chart_def del: at.simps map_of.simps) blast
  show ?thesis
    by (intro exI[of _ vals'] conjI, rule vals')
      (use kept[of "''Values''"] set_[of "[''krakend'', ''replicaCount'']"] in \<open>simp_all add: is_map_def\<close>)
qed

text \<open>
  C32. Which files become resources. The rendered files turn into resources exactly when every file
  that is kept, a \<^verbatim>\<open>.yaml\<close> that is not blank, parses and is, after the repair of its maps, a map;
  the resources are those maps, one per kept file, in the order the files are visited.
\<close>

theorem ToUnstructured_loop_correct:
  "ToUnstructured_loop c files = Ret (Inr objs) \<longleftrightarrow>
     list_all2 (\<lambda>file obj. \<exists>v. ch_yaml_Unmarshal c (snd file) = Inr v \<and> repairMapAny v = Ret (AMap obj))
       (filter (\<lambda>file. str_HasSuffix (fst file) ''.yaml'' \<and> snd file \<noteq> [CHR 10] \<and> snd file \<noteq> []) files) objs"
  unfolding ToUnstructured_loop_Inr parses_to_def[abs_def] skips_def by simp

text \<open>
  An empty document is fatal. A rendered \<^verbatim>\<open>.yaml\<close> file that YAML reads as null without being
  blank in the two forms the code knows, such as one with a comment only, makes the rendering panic
  instead of being skipped.
\<close>

lemma null_document_panics:
  assumes "ch_yaml_Unmarshal c resource = Inr ANil" "str_HasSuffix key ''.yaml''"
    and "resource \<noteq> []" "resource \<noteq> [CHR 10]"
  shows "\<exists>why. ToUnstructured_loop c ((key, resource) # files) = Panic why"
  using assms by (simp add: skips_def)

end
