(* ===== verification/Krakend_Decoder.thy ===== *)
theory Krakend_Decoder
  imports Krakend_Parser Go_Json_Reader
begin

text \<open>
  \<^verbatim>\<open>ParsePartials\<close> of \<^verbatim>\<open>internal/krakend/parser.go\<close>: reading a published configuration back.
  \<^verbatim>\<open>json.Unmarshal\<close> is modelled on the structs of the parser: a value is decoded into the current
  one, null leaves a value alone and clears a pointer or a slice, keys match field names without
  regard to case, unknown keys are ignored, an integer must fit 64 bits. The library goes on after a
  type error and answers the first; the program drops the value then, so the model stops there. The
  texts of the library's errors are not modelled.
\<close>

section \<open>Decoding by struct tags\<close>

type_synonym 'a decoder = "json \<Rightarrow> 'a \<Rightarrow> 'a result"

definition type_error :: error where "type_error = Msg ''json: cannot unmarshal''"
definition syntax_error :: error where "syntax_error = Msg ''json: syntax error''"

definition dec_string :: "string decoder" where
  "dec_string v cur = (case v of JNull \<Rightarrow> Inr cur | JStr s \<Rightarrow> Inr s | _ \<Rightarrow> Inl type_error)"

definition dec_bool :: "bool decoder" where
  "dec_bool v cur = (case v of JNull \<Rightarrow> Inr cur | JBool b \<Rightarrow> Inr b | _ \<Rightarrow> Inl type_error)"

text \<open>\<^verbatim>\<open>strconv.ParseInt(n, 10, 64)\<close> on a number literal\<close>

definition parse_int64 :: "string \<Rightarrow> int option" where
  "parse_int64 n =
     (let neg = (n \<noteq> [] \<and> hd n = CHR ''-''); ds = (if neg then tl n else n);
          i = (if neg then - int (nat_of_digits 10 0 ds) else int (nat_of_digits 10 0 ds)) in
      if ds \<noteq> [] \<and> list_all is_dig ds \<and> - (2 ^ 63) \<le> i \<and> i < 2 ^ 63 then Some i else None)"

definition dec_int :: "int decoder" where
  "dec_int v cur =
     (case v of
        JNull \<Rightarrow> Inr cur
      | JNum n \<Rightarrow> (case parse_int64 n of None \<Rightarrow> Inl type_error | Some i \<Rightarrow> Inr i)
      | _ \<Rightarrow> Inl type_error)"

text \<open>An array goes element by element into the elements that are there, then into zero values.\<close>

fun dec_elems :: "'a decoder \<Rightarrow> 'a \<Rightarrow> json list \<Rightarrow> 'a list \<Rightarrow> 'a list result" where
  "dec_elems dec zero [] cur = Inr []"
| "dec_elems dec zero (v # vs) cur =
     (case dec v (case cur of [] \<Rightarrow> zero | x # _ \<Rightarrow> x) of
        Inl e \<Rightarrow> Inl e
      | Inr x \<Rightarrow> (case dec_elems dec zero vs (tl cur) of Inl e \<Rightarrow> Inl e | Inr xs \<Rightarrow> Inr (x # xs)))"

definition dec_slice :: "'a decoder \<Rightarrow> 'a \<Rightarrow> 'a list decoder" where
  "dec_slice dec zero v cur =
     (case v of JNull \<Rightarrow> Inr [] | JArr vs \<Rightarrow> dec_elems dec zero vs cur | _ \<Rightarrow> Inl type_error)"

definition dec_ptr :: "'a decoder \<Rightarrow> 'a \<Rightarrow> 'a option decoder" where
  "dec_ptr dec zero v cur =
     (if v = JNull then Inr None
      else case dec v (case cur of None \<Rightarrow> zero | Some x \<Rightarrow> x) of Inl e \<Rightarrow> Inl e | Inr x \<Rightarrow> Inr (Some x))"

fun dec_fields :: "(string \<Rightarrow> json \<Rightarrow> 'a \<Rightarrow> 'a result) \<Rightarrow> (string \<times> json) list \<Rightarrow> 'a \<Rightarrow> 'a result" where
  "dec_fields f [] cur = Inr cur"
| "dec_fields f ((k, v) # ms) cur = (case f k v cur of Inl e \<Rightarrow> Inl e | Inr cur' \<Rightarrow> dec_fields f ms cur')"

definition dec_struct :: "(string \<Rightarrow> json \<Rightarrow> 'a \<Rightarrow> 'a result) \<Rightarrow> 'a decoder" where
  "dec_struct f v cur =
     (case v of JNull \<Rightarrow> Inr cur | JObj ms \<Rightarrow> dec_fields f ms cur | _ \<Rightarrow> Inl type_error)"

text \<open>Case folding of keys: ASCII letters, and the two runes outside ASCII that fold to one.\<close>

function fold_key :: "string \<Rightarrow> string" where
  "fold_key [] = []"
| "fold_key (c # cs) =
     (if map byte (take 3 (c # cs)) = [226, 132, 170] then CHR ''k'' # fold_key (drop 2 cs)
      else if map byte (take 2 (c # cs)) = [197, 191] then CHR ''s'' # fold_key (drop 1 cs)
      else lower_byte c # fold_key cs)"
  by pat_completeness auto
termination
  by (relation "measure length") auto

definition set_field :: "'b decoder \<Rightarrow> ('a \<Rightarrow> 'b) \<Rightarrow> ('b \<Rightarrow> 'a) \<Rightarrow> json \<Rightarrow> 'a \<Rightarrow> 'a result" where
  "set_field dec get put v cur = (case dec v (get cur) of Inl e \<Rightarrow> Inl e | Inr x \<Rightarrow> Inr (put x))"

section \<open>The structs of the configuration\<close>

definition zero_Backend :: Backend where
  "zero_Backend = \<lparr>be_Method = [], be_Host = [], be_UrlPattern = [], be_Encoding = []\<rparr>"

definition dec_Backend :: "Backend decoder" where
  "dec_Backend = dec_struct (\<lambda>key v b.
     let k = fold_key key in
     if k = ''method'' then set_field dec_string be_Method (\<lambda>x. b\<lparr>be_Method := x\<rparr>) v b
     else if k = ''host'' then set_field (dec_slice dec_string []) be_Host (\<lambda>x. b\<lparr>be_Host := x\<rparr>) v b
     else if k = ''url_pattern'' then set_field dec_string be_UrlPattern (\<lambda>x. b\<lparr>be_UrlPattern := x\<rparr>) v b
     else if k = ''encoding'' then set_field dec_string be_Encoding (\<lambda>x. b\<lparr>be_Encoding := x\<rparr>) v b
     else Inr b)"

definition zero_AuthValidator :: AuthValidator where
  "zero_AuthValidator =
     \<lparr>av_OperationDebug = False, av_Alg = [], av_Cache = False, av_JwkUrl = [], av_Issuer = [],
      av_Audience = [], av_Scope = [], av_ScopesKey = []\<rparr>"

definition dec_AuthValidator :: "AuthValidator decoder" where
  "dec_AuthValidator = dec_struct (\<lambda>key v a.
     let k = fold_key key in
     if k = ''operation_debug'' then set_field dec_bool av_OperationDebug (\<lambda>x. a\<lparr>av_OperationDebug := x\<rparr>) v a
     else if k = ''alg'' then set_field dec_string av_Alg (\<lambda>x. a\<lparr>av_Alg := x\<rparr>) v a
     else if k = ''cache'' then set_field dec_bool av_Cache (\<lambda>x. a\<lparr>av_Cache := x\<rparr>) v a
     else if k = ''jwk_url'' then set_field dec_string av_JwkUrl (\<lambda>x. a\<lparr>av_JwkUrl := x\<rparr>) v a
     else if k = ''issuer'' then set_field dec_string av_Issuer (\<lambda>x. a\<lparr>av_Issuer := x\<rparr>) v a
     else if k = ''audience'' then set_field (dec_slice dec_string []) av_Audience (\<lambda>x. a\<lparr>av_Audience := x\<rparr>) v a
     else if k = ''scopes'' then set_field (dec_slice dec_string []) av_Scope (\<lambda>x. a\<lparr>av_Scope := x\<rparr>) v a
     else if k = ''scopes_key'' then set_field dec_string av_ScopesKey (\<lambda>x. a\<lparr>av_ScopesKey := x\<rparr>) v a
     else Inr a)"

definition zero_QosRatelimitRouter :: QosRatelimitRouter where
  "zero_QosRatelimitRouter =
     \<lparr>qr_MaxRate = 0, qr_ClientMaxRate = 0, qr_Every = [], qr_Key = [], qr_Strategy = [],
      qr_Capacity = 0, qr_ClientCapacity = 0\<rparr>"

definition dec_QosRatelimitRouter :: "QosRatelimitRouter decoder" where
  "dec_QosRatelimitRouter = dec_struct (\<lambda>key v q.
     let k = fold_key key in
     if k = ''max_rate'' then set_field dec_int qr_MaxRate (\<lambda>x. q\<lparr>qr_MaxRate := x\<rparr>) v q
     else if k = ''client_max_rate'' then set_field dec_int qr_ClientMaxRate (\<lambda>x. q\<lparr>qr_ClientMaxRate := x\<rparr>) v q
     else if k = ''every'' then set_field dec_string qr_Every (\<lambda>x. q\<lparr>qr_Every := x\<rparr>) v q
     else if k = ''key'' then set_field dec_string qr_Key (\<lambda>x. q\<lparr>qr_Key := x\<rparr>) v q
     else if k = ''strategy'' then set_field dec_string qr_Strategy (\<lambda>x. q\<lparr>qr_Strategy := x\<rparr>) v q
     else if k = ''capacity'' then set_field dec_int qr_Capacity (\<lambda>x. q\<lparr>qr_Capacity := x\<rparr>) v q
     else if k = ''client_capacity'' then set_field dec_int qr_ClientCapacity (\<lambda>x. q\<lparr>qr_ClientCapacity := x\<rparr>) v q
     else Inr q)"

definition zero_ExtraConfig :: ExtraConfig where
  "zero_ExtraConfig = \<lparr>xc_AuthValidator = None, xc_QosRatelimitRouter = None\<rparr>"

definition dec_ExtraConfig :: "ExtraConfig decoder" where
  "dec_ExtraConfig = dec_struct (\<lambda>key v x.
     let k = fold_key key in
     if k = ''auth/validator'' then set_field (dec_ptr dec_AuthValidator zero_AuthValidator) xc_AuthValidator
       (\<lambda>y. x\<lparr>xc_AuthValidator := y\<rparr>) v x
     else if k = ''qos/ratelimit/router'' then set_field (dec_ptr dec_QosRatelimitRouter zero_QosRatelimitRouter)
       xc_QosRatelimitRouter (\<lambda>y. x\<lparr>xc_QosRatelimitRouter := y\<rparr>) v x
     else Inr x)"

definition zero_Endpoint :: Endpoint where
  "zero_Endpoint =
     \<lparr>en_Endpoint = [], en_Method = [], en_OutputEncoding = [], en_InputQueryStrings = [],
      en_InputHeaders = [], en_ExtraConfig = None, en_Backend = [], en_Timeout = []\<rparr>"

definition dec_Endpoint :: "Endpoint decoder" where
  "dec_Endpoint = dec_struct (\<lambda>key v e.
     let k = fold_key key in
     if k = ''endpoint'' then set_field dec_string en_Endpoint (\<lambda>x. e\<lparr>en_Endpoint := x\<rparr>) v e
     else if k = ''method'' then set_field dec_string en_Method (\<lambda>x. e\<lparr>en_Method := x\<rparr>) v e
     else if k = ''output_encoding'' then set_field dec_string en_OutputEncoding (\<lambda>x. e\<lparr>en_OutputEncoding := x\<rparr>) v e
     else if k = ''input_query_strings'' then set_field (dec_slice dec_string []) en_InputQueryStrings
       (\<lambda>x. e\<lparr>en_InputQueryStrings := x\<rparr>) v e
     else if k = ''input_headers'' then set_field (dec_slice dec_string []) en_InputHeaders
       (\<lambda>x. e\<lparr>en_InputHeaders := x\<rparr>) v e
     else if k = ''extra_config'' then set_field (dec_ptr dec_ExtraConfig zero_ExtraConfig) en_ExtraConfig
       (\<lambda>x. e\<lparr>en_ExtraConfig := x\<rparr>) v e
     else if k = ''backend'' then set_field (dec_slice (dec_ptr dec_Backend zero_Backend) None) en_Backend
       (\<lambda>x. e\<lparr>en_Backend := x\<rparr>) v e
     else if k = ''timeout'' then set_field dec_string en_Timeout (\<lambda>x. e\<lparr>en_Timeout := x\<rparr>) v e
     else Inr e)"

record Partials =
  pt_Endpoints :: "Endpoint option list"

definition ParsePartials :: "string \<Rightarrow> Partials result" where
  "ParsePartials content =
     (case json_read content of
        None \<Rightarrow> Inl syntax_error
      | Some v \<Rightarrow>
          (case dec_slice (dec_ptr dec_Endpoint zero_Endpoint) None v [] of
             Inl err \<Rightarrow> Inl err
           | Inr endpoints \<Rightarrow> Inr \<lparr>pt_Endpoints = endpoints\<rparr>))"

section \<open>Decoding what was encoded\<close>

lemma nat_of_digits_digits: "nat_of_digits 10 0 (digits_of 10 n) = n"
  by (rule nat_of_digits_of) simp_all

lemma parse_int64_Itoa:
  assumes "- (2 ^ 63) \<le> i" "i < 2 ^ 63"
  shows "parse_int64 (Itoa i) = Some i"
proof (cases "i < 0")
  case True
  with assms digits_of_10(1)[of "nat (- i)"] show ?thesis
    by (simp add: parse_int64_def Itoa_def nat_of_digits_digits)
next
  case False
  have "hd (digits_of 10 (nat i)) \<noteq> CHR ''-''"
    using digits_of_10(1)[of "nat i"] by (cases "digits_of 10 (nat i)") (auto simp: is_dig_def)
  with False assms digits_of_10(1)[of "nat i"] show ?thesis
    by (simp add: parse_int64_def Itoa_def nat_of_digits_digits Let_def)
qed

definition int64 :: "int \<Rightarrow> bool" where
  "int64 i \<longleftrightarrow> - (2 ^ 63) \<le> i \<and> i < 2 ^ 63"

lemma dec_simps [simp]:
  "dec_string (JStr s) cur = Inr s"
  "dec_bool (JBool b) old = Inr b"
  "int64 i \<Longrightarrow> dec_int (jint i) j = Inr i"
  by (simp_all add: dec_string_def dec_bool_def dec_int_def jint_def int64_def parse_int64_Itoa)

lemma dec_elems_map:
  assumes "\<And>x c. x \<in> set xs \<Longrightarrow> dec (f x) c = Inr x"
  shows "dec_elems dec zero (map f xs) cur = Inr xs"
  using assms by (induction xs arbitrary: cur) simp_all

lemma dec_jstrs [simp]: "dec_slice dec_string [] (jstrs xs) cur = Inr xs"
  by (simp add: dec_slice_def jstrs_def dec_elems_map)

lemma dec_fields_append:
  "dec_fields f (xs @ ys) cur = (case dec_fields f xs cur of Inl e \<Rightarrow> Inl e | Inr c \<Rightarrow> dec_fields f ys c)"
  by (induction f xs cur rule: dec_fields.induct) (auto split: sum.split)

lemma fold_key_lower:
  assumes "list_all (\<lambda>c. byte c < 65 \<or> 90 < byte c \<and> byte c < 128) s"
  shows "fold_key s = s"
  using assms by (induction s rule: fold_key.induct) (auto simp: lower_byte_def)

declare fold_key.simps(2) [simp del]

lemma dec_Backend_json: "dec_Backend (json_Backend b) cur = Inr b"
  by (simp add: dec_Backend_def json_Backend_def dec_struct_def Let_def fold_key_lower set_field_def)

text \<open>A field that is left out when empty reads as if it had been written.\<close>

lemma dec_omit:
  "f k (jint 0) cur = Inr cur \<Longrightarrow> dec_fields f (omit_int k i @ ms) cur = dec_fields f ((k, jint i) # ms) cur"
  "f k (jint 0) cur = Inr cur \<Longrightarrow> dec_fields f (omit_int k i) cur = dec_fields f [(k, jint i)] cur"
  "f k (JStr []) cur = Inr cur \<Longrightarrow> dec_fields f (omit_str k s @ ms) cur = dec_fields f ((k, JStr s) # ms) cur"
  "f k (JStr []) cur = Inr cur \<Longrightarrow> dec_fields f (omit_str k s) cur = dec_fields f [(k, JStr s)] cur"
  "f k (jstrs []) cur = Inr cur \<Longrightarrow> dec_fields f (omit_strs k xs @ ms) cur = dec_fields f ((k, jstrs xs) # ms) cur"
  "f k JNull cur = Inr cur \<Longrightarrow> dec_fields f (omit_ptr k g p @ ms) cur =
     dec_fields f ((k, case p of None \<Rightarrow> JNull | Some x \<Rightarrow> g x) # ms) cur"
  "f k JNull cur = Inr cur \<Longrightarrow> dec_fields f (omit_ptr k g p) cur =
     dec_fields f [(k, case p of None \<Rightarrow> JNull | Some x \<Rightarrow> g x)] cur"
  by (auto simp: omit_int_def omit_str_def omit_strs_def omit_ptr_def omitempty_def split: option.split)

lemmas dec_struct_simps = dec_struct_def Let_def fold_key_lower set_field_def dec_omit

lemma dec_AuthValidator_json: "dec_AuthValidator (json_AuthValidator a) zero_AuthValidator = Inr a"
  by (simp add: dec_AuthValidator_def json_AuthValidator_def dec_struct_simps zero_AuthValidator_def)

definition int64_QosRatelimitRouter :: "QosRatelimitRouter \<Rightarrow> bool" where
  "int64_QosRatelimitRouter q \<longleftrightarrow>
     int64 (qr_MaxRate q) \<and> int64 (qr_ClientMaxRate q) \<and> int64 (qr_Capacity q) \<and> int64 (qr_ClientCapacity q)"

lemma int64_0 [simp]: "int64 0"
  by (simp add: int64_def)

lemma dec_QosRatelimitRouter_json:
  "int64_QosRatelimitRouter q \<Longrightarrow>
     dec_QosRatelimitRouter (json_QosRatelimitRouter q) zero_QosRatelimitRouter = Inr q"
  by (simp add: dec_QosRatelimitRouter_def json_QosRatelimitRouter_def dec_struct_simps
      zero_QosRatelimitRouter_def int64_QosRatelimitRouter_def)

definition int64_ExtraConfig :: "ExtraConfig \<Rightarrow> bool" where
  "int64_ExtraConfig x \<longleftrightarrow> pred_option int64_QosRatelimitRouter (xc_QosRatelimitRouter x)"

lemma json_not_null [simp]:
  "json_AuthValidator a \<noteq> JNull" "json_QosRatelimitRouter q \<noteq> JNull" "json_ExtraConfig x \<noteq> JNull"
  "json_Backend b \<noteq> JNull" "json_Endpoint e \<noteq> JNull"
  by (simp_all add: json_AuthValidator_def json_QosRatelimitRouter_def json_ExtraConfig_def json_Backend_def
      json_Endpoint_def)

lemma dec_ptr_json:
  assumes "\<And>x. p = Some x \<Longrightarrow> g x \<noteq> JNull \<and> dec (g x) zero = Inr x"
  shows "dec_ptr dec zero (case p of None \<Rightarrow> JNull | Some x \<Rightarrow> g x) None = Inr p"
  using assms by (cases p) (auto simp: dec_ptr_def)

lemma dec_ptr_null [simp]: "dec_ptr dec zero JNull cur = Inr None"
  by (simp add: dec_ptr_def)

lemma dec_ExtraConfig_json:
  assumes "int64_ExtraConfig x"
  shows "dec_ExtraConfig (json_ExtraConfig x) zero_ExtraConfig = Inr x"
proof -
  have "dec_ptr dec_AuthValidator zero_AuthValidator
      (case xc_AuthValidator x of None \<Rightarrow> JNull | Some a \<Rightarrow> json_AuthValidator a) None = Inr (xc_AuthValidator x)"
    by (rule dec_ptr_json) (simp add: dec_AuthValidator_json)
  moreover have "dec_ptr dec_QosRatelimitRouter zero_QosRatelimitRouter
      (case xc_QosRatelimitRouter x of None \<Rightarrow> JNull | Some q \<Rightarrow> json_QosRatelimitRouter q) None =
      Inr (xc_QosRatelimitRouter x)"
    using assms by (intro dec_ptr_json) (simp add: dec_QosRatelimitRouter_json int64_ExtraConfig_def)
  ultimately show ?thesis
    by (simp add: dec_ExtraConfig_def json_ExtraConfig_def dec_struct_simps zero_ExtraConfig_def)
qed

definition int64_Endpoint :: "Endpoint \<Rightarrow> bool" where
  "int64_Endpoint e \<longleftrightarrow> pred_option int64_ExtraConfig (en_ExtraConfig e)"

lemma dec_Backends_json:
  "dec_slice (dec_ptr dec_Backend zero_Backend) None (JArr (map (case_option JNull json_Backend) bs)) cur = Inr bs"
  unfolding dec_slice_def json.case
  by (rule dec_elems_map) (auto simp: dec_ptr_def dec_Backend_json split: option.split)

lemma dec_Endpoint_json:
  assumes "int64_Endpoint e"
  shows "dec_Endpoint (json_Endpoint e) zero_Endpoint = Inr e"
proof -
  have "dec_ptr dec_ExtraConfig zero_ExtraConfig
      (case en_ExtraConfig e of None \<Rightarrow> JNull | Some x \<Rightarrow> json_ExtraConfig x) None = Inr (en_ExtraConfig e)"
    using assms by (intro dec_ptr_json) (simp add: dec_ExtraConfig_json int64_Endpoint_def)
  then show ?thesis
    by (simp add: dec_Endpoint_def json_Endpoint_def dec_struct_simps zero_Endpoint_def dec_Backends_json)
qed

lemma dec_Endpoints_json:
  assumes "list_all int64_Endpoint es"
  shows "dec_slice (dec_ptr dec_Endpoint zero_Endpoint) None (json_Endpoints es) [] = Inr (map Some es)"
proof -
  have "dec_elems (dec_ptr dec_Endpoint zero_Endpoint) None (map json_Endpoint es) [] = Inr (map Some es)"
    using assms by (induction es) (auto simp: dec_ptr_def dec_Endpoint_json)
  then show ?thesis by (simp add: dec_slice_def json_Endpoints_def)
qed

section \<open>The encoding is well formed\<close>

definition utf8_AuthValidator :: "AuthValidator \<Rightarrow> bool" where
  "utf8_AuthValidator a \<longleftrightarrow>
     list_all valid_utf8 ([av_Alg a, av_JwkUrl a, av_Issuer a, av_ScopesKey a] @ av_Audience a @ av_Scope a)"

definition utf8_QosRatelimitRouter :: "QosRatelimitRouter \<Rightarrow> bool" where
  "utf8_QosRatelimitRouter q \<longleftrightarrow> list_all valid_utf8 [qr_Every q, qr_Key q, qr_Strategy q]"

definition utf8_ExtraConfig :: "ExtraConfig \<Rightarrow> bool" where
  "utf8_ExtraConfig x \<longleftrightarrow>
     pred_option utf8_AuthValidator (xc_AuthValidator x) \<and>
     pred_option utf8_QosRatelimitRouter (xc_QosRatelimitRouter x)"

definition utf8_Backend :: "Backend \<Rightarrow> bool" where
  "utf8_Backend b \<longleftrightarrow> list_all valid_utf8 ([be_Method b, be_UrlPattern b, be_Encoding b] @ be_Host b)"

definition utf8_Endpoint :: "Endpoint \<Rightarrow> bool" where
  "utf8_Endpoint e \<longleftrightarrow>
     list_all valid_utf8 ([en_Endpoint e, en_Method e, en_OutputEncoding e, en_Timeout e] @
       en_InputQueryStrings e @ en_InputHeaders e) \<and>
     pred_option utf8_ExtraConfig (en_ExtraConfig e) \<and> list_all (pred_option utf8_Backend) (en_Backend e)"

lemma valid_utf8_ascii: "list_all (\<lambda>c. byte c < 128) s \<Longrightarrow> valid_utf8 s"
  by (induction s) (auto simp: rune_size_def valid_utf8.simps(2))

lemma jsons_ok_iff: "jsons_ok vs \<longleftrightarrow> list_all json_ok vs"
  by (induction vs) simp_all

lemma members_ok_append [simp]: "members_ok (xs @ ys) \<longleftrightarrow> members_ok xs \<and> members_ok ys"
  by (induction xs) auto

lemma members_nesting_append [simp]: "members_nesting (xs @ ys) = max (members_nesting xs) (members_nesting ys)"
  by (induction xs) auto

lemma json_ok_leaves [simp]: "json_ok (jint i)" "json_ok (jstrs xs) \<longleftrightarrow> list_all valid_utf8 xs"
  by (simp_all add: jint_def literal_Itoa jstrs_def jsons_ok_iff list_all_iff)

lemma json_ok_fields:
  assumes "list_all (\<lambda>c. byte c < 128) k"
  shows "members_ok (omit_int k i)" "valid_utf8 s \<Longrightarrow> members_ok (omit_str k s)"
    "list_all valid_utf8 xs \<Longrightarrow> members_ok (omit_strs k xs)"
    "pred_option (\<lambda>x. json_ok (g x)) p \<Longrightarrow> members_ok (omit_ptr k g p)"
  using assms
  by (auto simp: omit_int_def omit_str_def
      omit_strs_def omit_ptr_def omitempty_def valid_utf8_ascii split: option.split)

lemma nesting_fields:
  "nesting (jint i) = 0" "nesting (jstrs xs) \<le> 1" "members_nesting (omit_int k i) = 0"
  "members_nesting (omit_str k s) = 0" "members_nesting (omit_strs k xs) \<le> 1"
  "(\<And>x. nesting (g x) \<le> n) \<Longrightarrow> members_nesting (omit_ptr k g p) \<le> n"
proof -
  have strs: "nestings (map JStr xs) = 0" for xs by (induction xs) simp_all
  show "nesting (jint i) = 0" "nesting (jstrs xs) \<le> 1" "members_nesting (omit_int k i) = 0"
    "members_nesting (omit_str k s) = 0" "members_nesting (omit_strs k xs) \<le> 1"
    "(\<And>x. nesting (g x) \<le> n) \<Longrightarrow> members_nesting (omit_ptr k g p) \<le> n"
    by (auto simp: jint_def jstrs_def strs omit_int_def omit_str_def omit_strs_def omit_ptr_def omitempty_def
        split: option.split)
qed

lemma json_ok_Backend: "utf8_Backend b \<Longrightarrow> json_ok (json_Backend b)"
  by (simp add: json_Backend_def utf8_Backend_def json_ok_fields valid_utf8_ascii)

lemma json_ok_AuthValidator: "utf8_AuthValidator a \<Longrightarrow> json_ok (json_AuthValidator a)"
  by (simp add: json_AuthValidator_def utf8_AuthValidator_def json_ok_fields valid_utf8_ascii)

lemma json_ok_QosRatelimitRouter: "utf8_QosRatelimitRouter q \<Longrightarrow> json_ok (json_QosRatelimitRouter q)"
  by (simp add: json_QosRatelimitRouter_def utf8_QosRatelimitRouter_def json_ok_fields)

lemma json_ok_ExtraConfig: "utf8_ExtraConfig x \<Longrightarrow> json_ok (json_ExtraConfig x)"
  by (auto simp: json_ExtraConfig_def utf8_ExtraConfig_def pred_option_def
      intro!: json_ok_fields(4) json_ok_AuthValidator json_ok_QosRatelimitRouter)

lemma json_ok_Endpoint: "utf8_Endpoint e \<Longrightarrow> json_ok (json_Endpoint e)"
  by (auto simp: json_Endpoint_def utf8_Endpoint_def pred_option_def jsons_ok_iff list_all_iff valid_utf8_ascii
      intro!: json_ok_fields(2-4) json_ok_ExtraConfig json_ok_Backend split: option.split)

lemma json_ok_Endpoints: "list_all utf8_Endpoint es \<Longrightarrow> json_ok (json_Endpoints es)"
  by (simp add: json_Endpoints_def jsons_ok_iff list_all_iff json_ok_Endpoint)

lemma nesting_le:
  "nesting (json_Backend b) \<le> 2" "nesting (json_AuthValidator a) \<le> 2"
  "nesting (json_QosRatelimitRouter q) \<le> 1" "nesting (json_ExtraConfig x) \<le> 3"
  "nesting (json_Endpoint e) \<le> 4" "nesting (json_Endpoints es) \<le> 5"
proof -
  note f = nesting_fields
  show b: "nesting (json_Backend b) \<le> 2" for b using f(2) by (simp add: json_Backend_def)
  have a: "nesting (json_AuthValidator a) \<le> 2" for a using f by (simp add: json_AuthValidator_def)
  have q: "nesting (json_QosRatelimitRouter q) \<le> 1" for q using f by (simp add: json_QosRatelimitRouter_def)
  have x: "nesting (json_ExtraConfig x) \<le> 3" for x
    using f(6)[of json_AuthValidator 2] f(6)[of json_QosRatelimitRouter 2] a order_trans[OF q]
    by (simp add: json_ExtraConfig_def)
  have bs: "nestings (map (case_option JNull json_Backend) bs) \<le> 2" for bs
    using b by (induction bs) (auto split: option.split)
  have e: "nesting (json_Endpoint e) \<le> 4" for e
    using f(5)[of "''input_query_strings''" "en_InputQueryStrings e"]
      f(5)[of "''input_headers''" "en_InputHeaders e"] f(6)[of json_ExtraConfig 3, OF x] bs[of "en_Backend e"]
    by (simp add: json_Endpoint_def f(4) le_SucI order_trans[of _ 1])
  have "nestings (map json_Endpoint es) \<le> 4"
    using e by (induction es) auto
  then show "nesting (json_Endpoints es) \<le> 5" by (simp add: json_Endpoints_def)
  show "nesting (json_AuthValidator a) \<le> 2" "nesting (json_QosRatelimitRouter q) \<le> 1"
    "nesting (json_ExtraConfig x) \<le> 3" "nesting (json_Endpoint e) \<le> 4" by (fact a q x e)+
qed

lemma ParsePartials_text:
  assumes "list_all utf8_Endpoint es" "list_all int64_Endpoint es"
  shows "ParsePartials (json_text (json_Endpoints es)) = Inr \<lparr>pt_Endpoints = map Some es\<rparr>"
proof -
  have "nesting (json_Endpoints es) \<le> max_nesting"
    using nesting_le(6)[of es] by (simp add: max_nesting_def)
  from json_read_text[OF json_ok_Endpoints[OF assms(1)] this] dec_Endpoints_json[OF assms(2)]
  show ?thesis by (simp add: ParsePartials_def)
qed

section \<open>Properties\<close>

text \<open>
  C29. Round trip. A published configuration can be read back: for endpoints whose strings are valid
  UTF-8 and whose rates fit 64 bits, parsing the JSON the encoder writes gives exactly these
  endpoints again, in their order; optional blocks that are absent stay absent.
\<close>

theorem ParsePartials_Marshal:
  assumes "list_all utf8_Endpoint eps" "list_all int64_Endpoint eps"
    and "json_Marshal (json_Endpoints eps) = Inr content"
  shows "ParsePartials content = Inr \<lparr>pt_Endpoints = map Some eps\<rparr>"
  using ParsePartials_text[OF assms(1,2)] assms(3) by (simp add: json_Marshal_def)

theorem ParsePartials_Marshal_witness:
  "\<exists>eps. ToKrakendEndpoints sample_krakend [sample_app1] = Inr eps \<and> length eps = 2 \<and>
     ParsePartials (json_text (json_Endpoints eps)) = Inr \<lparr>pt_Endpoints = map Some eps\<rparr>"
proof -
  have conv: "ToKrakendEndpoints sample_krakend [sample_app1] = Inr
      [secured_endpoint (projr (findAuthProvider sample_krakend sample_auth)) None
         (sample_endpoint ''/app1/secure'' ''http://app1''),
       open_endpoint None (sample_endpoint ''/doc'' ''http://app1'')]" (is "_ = Inr ?eps")
    by (simp add: ToKrakendEndpoints_def parseKrakendEndpointsSpec_def findAuthProvider_def sample_defs)
  have "list_all utf8_Endpoint ?eps" "list_all int64_Endpoint ?eps"
    by (simp_all add: secured_endpoint_def open_endpoint_def with_ExtraConfig_def parseEndpoint_def
        parseRateLimit_def findAuthProvider_def sample_defs utf8_Endpoint_def int64_Endpoint_def
        utf8_ExtraConfig_def int64_ExtraConfig_def utf8_AuthValidator_def utf8_Backend_def
        DefaultOutputEncoding_def DefaultScopesKey_def valid_utf8_ascii)
  from ParsePartials_Marshal[OF this json_Marshal_def] conv show ?thesis by auto
qed

end
