(* ===== verification/Krakend_Values.thy ===== *)
theory Krakend_Values
  imports Helm Krakend_Decoder "HOL-Library.Char_ord" "HOL-Library.List_Lexorder"
begin

text \<open>
  The chart values of a Krakend: \<^verbatim>\<open>prepareValues\<close> and \<^verbatim>\<open>toMap\<close> of
  \<^verbatim>\<open>internal/controller/krakend_controller.go\<close>, with the JSON encoding of the structs they pass
  through. A struct takes the way through JSON text, as in the code: it is written by
  \<^verbatim>\<open>json.Marshal\<close> and read back into dynamic values, numbers as floats.
\<close>

section \<open>Encoding by struct tags\<close>

text \<open>A map is written with its keys sorted, a nil map as null.\<close>

definition json_map :: "(string \<times> string) slice \<Rightarrow> json" where
  "json_map m =
     (case m of None \<Rightarrow> JNull | Some kvs \<Rightarrow> JObj (map (\<lambda>(k, v). (k, JStr v)) (sort_key fst kvs)))"

definition json_Path :: "Path \<Rightarrow> json" where
  "json_Path p = JObj (omit_str ''path'' (pa_Path p) @ omit_str ''pathType'' (pa_PathType p))"

definition json_Host :: "Host \<Rightarrow> json" where
  "json_Host h = JObj (omit_str ''host'' (ho_Host h) @
     omitempty (elems (ho_Paths h) = []) ''paths'' (json_slice json_Path (ho_Paths h)))"

definition json_Ingress :: "Ingress \<Rightarrow> json" where
  "json_Ingress i = JObj (
     omitempty (\<not> ig_Enabled i) ''enabled'' (JBool (ig_Enabled i)) @
     omit_str ''className'' (ig_ClassName i) @
     omitempty (elems (ig_Annotations i) = []) ''annotations'' (json_map (ig_Annotations i)) @
     omitempty (elems (ig_Hosts i) = []) ''hosts'' (json_slice json_Host (ig_Hosts i)))"

definition json_Image :: "Image \<Rightarrow> json" where
  "json_Image i = JObj (
     omit_str ''registry'' (im_Registry i) @ omit_str ''repository'' (im_Repository i) @
     omit_str ''tag'' (im_Tag i) @ omit_str ''pullPolicy'' (im_PullPolicy i))"

text \<open>\<^verbatim>\<open>omitempty\<close> does nothing for a struct: resources and image are always written.\<close>

definition json_KrakendDeployment :: "KrakendDeployment \<Rightarrow> json" where
  "json_KrakendDeployment d = JObj (
     omit_str ''deploymentType'' (kd_DeploymentType d) @ omit_int ''replicaCount'' (kd_ReplicaCount d) @
     [(''resources'', kd_Resources d), (''image'', json_Image (kd_Image d))] @
     omitempty (elems (kd_ExtraEnvVars d) = []) ''extraEnvVars'' (json_slice (\<lambda>v. v) (kd_ExtraEnvVars d)))"

section \<open>Through text into dynamic values\<close>

fun any_of :: "json \<Rightarrow> any"
  and any_list :: "json list \<Rightarrow> any list"
  and any_attrs :: "(string \<times> json) list \<Rightarrow> attrs \<Rightarrow> attrs" where
  "any_of JNull = ANil"
| "any_of (JBool b) = ABool b"
| "any_of (JNum n) = AFloat n"
| "any_of (JStr s) = AStr s"
| "any_of (JArr vs) = AList (any_list vs)"
| "any_of (JObj ms) = AMap (any_attrs ms [])"
| "any_list [] = []"
| "any_list (v # vs) = any_of v # any_list vs"
| "any_attrs [] m = m"
| "any_attrs ((k, v) # ms) m = any_attrs ms (AList.update k (any_of v) m)"

definition toMap :: "json \<Rightarrow> attrs result" where
  "toMap v =
     (case json_Marshal v of
        Inl err \<Rightarrow> Inl err
      | Inr j \<Rightarrow>
          (case json_read j of
             None \<Rightarrow> Inl syntax_error
           | Some (JObj ms) \<Rightarrow> Inr (any_attrs ms [])
           | Some JNull \<Rightarrow> Inr []
           | Some _ \<Rightarrow> Inl type_error))"

section \<open>prepareValues\<close>

definition default_hosts :: "string \<Rightarrow> Host list" where
  "default_hosts ingressHost =
     [\<lparr>ho_Host = ingressHost, ho_Paths = Some [\<lparr>pa_Path = ''/'', pa_PathType = ''ImplementationSpecific''\<rparr>]\<rparr>]"

definition prepareValues :: "Krakend \<Rightarrow> attrs result" where
  "prepareValues k =
     (case toMap (json_KrakendDeployment (ks_Deployment (kr_Spec k))) of
        Inl err \<Rightarrow> Inl (WrapW ''marshalling krakend deployment'' err)
      | Inr values \<Rightarrow>
          (let ingress = ks_Ingress (kr_Spec k); ingressHost = ks_IngressHost (kr_Spec k) in
           if elems (ig_Hosts ingress) = [] \<and> ingressHost = []
           then Inl (Msg ''either ingressHost or ingress.hosts must be specified'')
           else
             (let ingress' = (if elems (ig_Hosts ingress) = [] \<and> ingressHost \<noteq> []
                              then ingress\<lparr>ig_Hosts := Some (default_hosts ingressHost)\<rparr> else ingress) in
              case toMap (json_Ingress ingress') of
                Inl err \<Rightarrow> Inl (WrapW ''preparing ingress values'' err)
              | Inr ingressValues \<Rightarrow> Inr (AList.update ''ingress'' (AMap ingressValues) values))))"

section \<open>The way through text changes nothing\<close>

lemma toMap_object:
  assumes "json_ok (JObj ms)" "nesting (JObj ms) \<le> max_nesting"
  shows "toMap (JObj ms) = Inr (any_attrs ms [])"
  using json_read_text[OF assms] by (simp add: toMap_def json_Marshal_def)

definition utf8_Ingress :: "Ingress \<Rightarrow> bool" where
  "utf8_Ingress i \<longleftrightarrow>
     valid_utf8 (ig_ClassName i) \<and> list_all (\<lambda>(k, v). valid_utf8 k \<and> valid_utf8 v) (elems (ig_Annotations i)) \<and>
     list_all (\<lambda>h. valid_utf8 (ho_Host h) \<and>
       list_all (\<lambda>p. valid_utf8 (pa_Path p) \<and> valid_utf8 (pa_PathType p)) (elems (ho_Paths h))) (elems (ig_Hosts i))"

definition ok_KrakendDeployment :: "KrakendDeployment \<Rightarrow> bool" where
  "ok_KrakendDeployment d \<longleftrightarrow>
     list_all valid_utf8 [kd_DeploymentType d, im_Registry (kd_Image d), im_Repository (kd_Image d),
       im_Tag (kd_Image d), im_PullPolicy (kd_Image d)] \<and>
     json_ok (kd_Resources d) \<and> nesting (kd_Resources d) < max_nesting \<and>
     list_all (\<lambda>v. json_ok v \<and> nesting v + 1 < max_nesting) (elems (kd_ExtraEnvVars d))"

lemma members_ok_omitempty:
  "list_all (\<lambda>c. byte c < 128) k \<Longrightarrow> (\<not> b \<Longrightarrow> json_ok v) \<Longrightarrow> members_ok (omitempty b k v)"
  by (simp add: omitempty_def valid_utf8_ascii)

lemma members_ok_iff: "members_ok ms \<longleftrightarrow> (\<forall>(k, v) \<in> set ms. valid_utf8 k \<and> json_ok v)"
  by (induction ms) auto

lemma json_ok_slice: "(\<And>x. x \<in> set (elems xs) \<Longrightarrow> json_ok (f x)) \<Longrightarrow> json_ok (json_slice f xs)"
  by (cases xs) (auto simp: json_slice_def jsons_ok_iff list_all_iff)

lemma json_ok_map: "list_all (\<lambda>(k, v). valid_utf8 k \<and> valid_utf8 v) (elems m) \<Longrightarrow> json_ok (json_map m)"
  by (auto simp: json_map_def members_ok_iff list_all_iff split: option.split)

lemma json_ok_Ingress: "utf8_Ingress i \<Longrightarrow> json_ok (json_Ingress i)"
  by (auto simp: json_Ingress_def utf8_Ingress_def json_Host_def json_Path_def jsons_ok_iff list_all_iff
      intro!: members_ok_omitempty json_ok_fields(2) json_ok_map json_ok_slice)

lemma json_ok_KrakendDeployment: "ok_KrakendDeployment d \<Longrightarrow> json_ok (json_KrakendDeployment d)"
  by (auto simp: json_KrakendDeployment_def ok_KrakendDeployment_def json_Image_def jsons_ok_iff list_all_iff
      valid_utf8_ascii intro!: members_ok_omitempty json_ok_fields(1,2) json_ok_slice)

lemma nestings_le: "nestings vs \<le> n \<longleftrightarrow> (\<forall>v \<in> set vs. nesting v \<le> n)"
  by (induction vs) auto

lemma nesting_slice: "(\<And>x. x \<in> set (elems xs) \<Longrightarrow> nesting (f x) \<le> n) \<Longrightarrow> nesting (json_slice f xs) \<le> Suc n"
  by (cases xs) (auto simp: json_slice_def nestings_le)

lemma members_nesting_le: "members_nesting ms \<le> n \<longleftrightarrow> (\<forall>(k, v) \<in> set ms. nesting v \<le> n)"
  by (induction ms) auto

lemma nesting_omit: "members_nesting (omitempty b k v) \<le> n \<longleftrightarrow> b \<or> nesting v \<le> n"
  by (simp add: omitempty_def)

lemma nesting_Ingress: "nesting (json_Ingress i) \<le> max_nesting"
proof -
  have "nesting (json_Path p) \<le> 1" for p by (simp add: json_Path_def nesting_fields)
  then have "nesting (json_slice json_Path ps) \<le> 2" for ps
    using nesting_slice[of ps json_Path 1] by (simp add: numeral_2_eq_2)
  then have "nesting (json_Host h) \<le> 3" for h
    by (simp add: json_Host_def nesting_fields nesting_omit)
  then have hosts: "nesting (json_slice json_Host hs) \<le> Suc 3" for hs by (rule nesting_slice)
  have "members_nesting (map (\<lambda>(k, v). (k, JStr v)) m) = 0" for m
    by (induction m) auto
  then have "nesting (json_map m) \<le> 1" for m by (simp add: json_map_def split: option.split)
  moreover have "nesting (json_map m) \<le> 9999" "nesting (json_slice json_Host hs) \<le> 9999" for m hs
    using calculation[of m] hosts[of hs] by simp_all
  ultimately show ?thesis
    by (simp add: json_Ingress_def nesting_fields nesting_omit max_nesting_def)
qed

lemma nesting_KrakendDeployment:
  assumes "ok_KrakendDeployment d"
  shows "nesting (json_KrakendDeployment d) \<le> max_nesting"
proof -
  have "nesting (json_Image i) \<le> 1" for i by (simp add: json_Image_def nesting_fields)
  then have image: "nesting (json_Image (kd_Image d)) \<le> max_nesting - 1"
    by (rule order_trans) (simp add: max_nesting_def)
  have env: "nesting (json_slice (\<lambda>v. v) (kd_ExtraEnvVars d)) \<le> Suc (max_nesting - 2)"
    using assms by (intro nesting_slice) (auto simp: ok_KrakendDeployment_def list_all_iff)
  have res: "nesting (kd_Resources d) \<le> max_nesting - 1"
    using assms by (auto simp: ok_KrakendDeployment_def)
  from image env res show ?thesis
    by (simp add: json_KrakendDeployment_def nesting_fields nesting_omit max_nesting_def)
qed

lemma toMap_KrakendDeployment:
  assumes "ok_KrakendDeployment d" "json_KrakendDeployment d = JObj ms"
  shows "toMap (json_KrakendDeployment d) = Inr (any_attrs ms [])"
  using toMap_object[of ms] json_ok_KrakendDeployment[OF assms(1)] nesting_KrakendDeployment[OF assms(1)] assms(2)
  by simp

lemma toMap_Ingress:
  assumes "utf8_Ingress i" "json_Ingress i = JObj ms"
  shows "toMap (json_Ingress i) = Inr (any_attrs ms [])"
  using toMap_object[of ms] json_ok_Ingress[OF assms(1)] nesting_Ingress[of i] assms(2) by simp

section \<open>What the values hold\<close>

lemma map_of_any_attrs:
  "map_of (any_attrs ms m) k =
     (case map_of (rev ms) k of None \<Rightarrow> map_of m k | Some v \<Rightarrow> Some (any_of v))"
  by (induction ms arbitrary: m) (auto simp: update_conv map_add_def map_of_append split: option.split)

lemma distinct_any_attrs: "distinct (map fst m) \<Longrightarrow> distinct (map fst (any_attrs ms m))"
  by (induction ms arbitrary: m) (auto simp: distinct_update)

definition effective_hosts :: "Krakend \<Rightarrow> Host list" where
  "effective_hosts k =
     (if elems (ig_Hosts (ks_Ingress (kr_Spec k))) = [] then default_hosts (ks_IngressHost (kr_Spec k))
      else elems (ig_Hosts (ks_Ingress (kr_Spec k))))"

definition ok_Krakend :: "Krakend \<Rightarrow> bool" where
  "ok_Krakend k \<longleftrightarrow>
     ok_KrakendDeployment (ks_Deployment (kr_Spec k)) \<and> utf8_Ingress (ks_Ingress (kr_Spec k)) \<and>
     valid_utf8 (ks_IngressHost (kr_Spec k))"

definition no_host :: "Krakend \<Rightarrow> bool" where
  "no_host k \<longleftrightarrow> elems (ig_Hosts (ks_Ingress (kr_Spec k))) = [] \<and> ks_IngressHost (kr_Spec k) = []"

lemma utf8_effective:
  assumes "ok_Krakend k"
  shows "utf8_Ingress ((ks_Ingress (kr_Spec k))\<lparr>ig_Hosts := Some (effective_hosts k)\<rparr>)"
  using assms by (auto simp: ok_Krakend_def utf8_Ingress_def effective_hosts_def default_hosts_def valid_utf8_ascii)

lemma prepareValues_eq:
  assumes "ok_Krakend k"
    and "json_KrakendDeployment (ks_Deployment (kr_Spec k)) = JObj ds"
    and "json_Ingress ((ks_Ingress (kr_Spec k))\<lparr>ig_Hosts := Some (effective_hosts k)\<rparr>) = JObj ings"
  shows "prepareValues k =
    (if no_host k then Inl (Msg ''either ingressHost or ingress.hosts must be specified'')
     else Inr (AList.update ''ingress'' (AMap (any_attrs ings [])) (any_attrs ds [])))"
proof -
  let ?i = "ks_Ingress (kr_Spec k)"
  have "(if elems (ig_Hosts ?i) = [] \<and> ks_IngressHost (kr_Spec k) \<noteq> []
      then ?i\<lparr>ig_Hosts := Some (default_hosts (ks_IngressHost (kr_Spec k)))\<rparr> else ?i) = ?i\<lparr>ig_Hosts := Some (effective_hosts k)\<rparr>"
    if "\<not> no_host k" using that by (cases "ig_Hosts ?i") (auto simp: no_host_def effective_hosts_def)
  moreover have "toMap (json_KrakendDeployment (ks_Deployment (kr_Spec k))) = Inr (any_attrs ds [])"
    using assms(1,2) by (intro toMap_KrakendDeployment) (auto simp: ok_Krakend_def)
  moreover have "toMap (json_Ingress (?i\<lparr>ig_Hosts := Some (effective_hosts k)\<rparr>)) = Inr (any_attrs ings [])"
    using utf8_effective[OF assms(1)] assms(3) by (rule toMap_Ingress)
  ultimately show ?thesis
    by (auto simp: prepareValues_def no_host_def Let_def)
qed

lemma map_of_omit:
  "map_of (rev (omitempty b k v)) x = (if \<not> b \<and> x = k then Some v else None)"
  "map_of (rev (omit_str k s)) x = (if s \<noteq> [] \<and> x = k then Some (JStr s) else None)"
  "map_of (rev (omit_int k i)) x = (if i \<noteq> 0 \<and> x = k then Some (jint i) else None)"
  by (simp_all add: omitempty_def omit_str_def omit_int_def)

text \<open>
  C27. The chart values. For a Krakend whose strings are valid UTF-8, preparing the values fails
  exactly when neither \<^verbatim>\<open>ingressHost\<close> nor \<^verbatim>\<open>ingress.hosts\<close> is given. Otherwise the values hold
  the hosts of the ingress, or the one host of the shortcut with a default path when there are none,
  the replica count unless it is zero, the resources as they are, and \<^verbatim>\<open>enabled\<close> only when the
  ingress enables it, also when the shortcut is used.
\<close>

theorem prepareValues_correct:
  assumes "ok_Krakend k"
  shows "case prepareValues k of
      Inl err \<Rightarrow> err = Msg ''either ingressHost or ingress.hosts must be specified'' \<and> no_host k
    | Inr values \<Rightarrow> \<not> no_host k \<and>
        at [''ingress'', ''hosts''] (AMap values) = Some (any_of (JArr (map json_Host (effective_hosts k)))) \<and>
        at [''ingress'', ''enabled''] (AMap values) =
          (if ig_Enabled (ks_Ingress (kr_Spec k)) then Some (ABool True) else None) \<and>
        at [''replicaCount''] (AMap values) =
          (if kd_ReplicaCount (ks_Deployment (kr_Spec k)) = 0 then None
           else Some (AFloat (Itoa (kd_ReplicaCount (ks_Deployment (kr_Spec k)))))) \<and>
        at [''resources''] (AMap values) = Some (any_of (kd_Resources (ks_Deployment (kr_Spec k))))"
proof (cases "no_host k")
  case True
  with prepareValues_eq[OF assms] show ?thesis
    by (simp add: json_KrakendDeployment_def json_Ingress_def)
next
  case False
  then have hosts: "effective_hosts k \<noteq> []" by (auto simp: effective_hosts_def default_hosts_def)
  obtain ds ings where ds: "json_KrakendDeployment (ks_Deployment (kr_Spec k)) = JObj ds"
    and ings: "json_Ingress ((ks_Ingress (kr_Spec k))\<lparr>ig_Hosts := Some (effective_hosts k)\<rparr>) = JObj ings"
    by (simp add: json_KrakendDeployment_def json_Ingress_def)
  have "map_of (rev ds) ''replicaCount'' = (if kd_ReplicaCount (ks_Deployment (kr_Spec k)) = 0 then None
      else Some (jint (kd_ReplicaCount (ks_Deployment (kr_Spec k)))))"
    "map_of (rev ds) ''resources'' = Some (kd_Resources (ks_Deployment (kr_Spec k)))"
    using ds by (auto simp: json_KrakendDeployment_def map_of_omit map_add_def)
  moreover have "map_of (rev ings) ''hosts'' = Some (JArr (map json_Host (effective_hosts k)))"
    "map_of (rev ings) ''enabled'' = (if ig_Enabled (ks_Ingress (kr_Spec k)) then Some (JBool True) else None)"
    using ings hosts by (auto simp: json_Ingress_def json_slice_def map_of_omit map_add_def)
  ultimately show ?thesis
    using False prepareValues_eq[OF assms ds ings]
    by (simp add: update_conv map_of_any_attrs jint_def)
qed

theorem prepareValues_correct_witness:
  "\<exists>values. prepareValues sample_krakend = Inr values \<and>
     at [''ingress'', ''hosts''] (AMap values) = Some (AList
       [AMap [(''host'', AStr ''ns1.nais.io''),
              (''paths'', AList [AMap [(''path'', AStr ''/''), (''pathType'', AStr ''ImplementationSpecific'')]])]])"
proof -
  have "ok_Krakend sample_krakend" "\<not> no_host sample_krakend"
    by (simp_all add: ok_Krakend_def no_host_def ok_KrakendDeployment_def utf8_Ingress_def sample_defs
        valid_utf8_ascii max_nesting_def)
  with prepareValues_correct[OF this(1)] show ?thesis
    by (auto simp: effective_hosts_def default_hosts_def json_Host_def json_slice_def json_Path_def omit_str_def omitempty_def
        sample_defs split: sum.splits)
qed

lemma plain_attrs_iff: "plain_attrs m \<longleftrightarrow> (\<forall>(k, v) \<in> set m. plain_any v)"
  by (induction m) auto

lemma plain_update: "plain_attrs m \<Longrightarrow> plain_any v \<Longrightarrow> plain_attrs (AList.update k v m)"
  by (induction m) auto

lemma plain_any_attrs:
  "plain_attrs m \<Longrightarrow> list_all (\<lambda>(k, v). plain_any (any_of v)) ms \<Longrightarrow> plain_attrs (any_attrs ms m)"
  by (induction ms arbitrary: m) (auto simp: plain_update)

lemma plain_omit:
  "list_all (\<lambda>(k, v). plain_any (any_of v)) (omit_str k s)"
  "list_all (\<lambda>(k, v). plain_any (any_of v)) (omit_int k i)"
  "(\<not> b \<Longrightarrow> plain_any (any_of v)) \<Longrightarrow> list_all (\<lambda>(k, v). plain_any (any_of v)) (omitempty b k v)"
  by (simp_all add: omit_str_def omit_int_def omitempty_def jint_def)

lemma plain_json_map: "elems m \<noteq> [] \<Longrightarrow> plain_any (any_of (json_map m))"
  by (cases m) (simp_all add: json_map_def plain_any_attrs list_all_iff split: prod.split)

lemma plain_json_slice: "elems xs \<noteq> [] \<Longrightarrow> plain_any (any_of (json_slice f xs))"
  by (simp add: json_slice_elems)

lemma prepareValues_plain:
  assumes "ok_Krakend k" "prepareValues k = Inr values"
    and "plain_any (any_of (kd_Resources (ks_Deployment (kr_Spec k))))"
  shows "plain_attrs values"
proof -
  obtain ds ings where ds: "json_KrakendDeployment (ks_Deployment (kr_Spec k)) = JObj ds"
    and ings: "json_Ingress ((ks_Ingress (kr_Spec k))\<lparr>ig_Hosts := Some (effective_hosts k)\<rparr>) = JObj ings"
    by (simp add: json_KrakendDeployment_def json_Ingress_def)
  have "list_all (\<lambda>(k, v). plain_any (any_of v)) ds"
    using ds assms(3) by (auto simp: json_KrakendDeployment_def json_Image_def intro!: plain_omit plain_any_attrs plain_json_slice)
  moreover have "list_all (\<lambda>(k, v). plain_any (any_of v)) ings"
    using ings by (auto simp: json_Ingress_def intro!: plain_omit plain_json_map plain_json_slice)
  ultimately show ?thesis
    using prepareValues_eq[OF assms(1) ds ings] assms(2)
    by (auto simp: plain_update plain_any_attrs split: if_splits)
qed

text \<open>
  C28. Values never break the merging. Whichever slices and maps of the specification are nil or empty,
  the values prepared for a Krakend can be merged into any target without a panic: none of them is nil,
  because nothing empty is written, and every map in them has string keys. The encoding of the
  resources, a Kubernetes type, is assumed to write no null.
\<close>

theorem prepareValues_mergeable:
  assumes "ok_Krakend k" "prepareValues k = Inr values"
    and "plain_any (any_of (kd_Resources (ks_Deployment (kr_Spec k))))"
  shows "\<exists>m. overrideValues target [(''krakend'', AMap values)] = Ret m"
  using prepareValues_plain[OF assms] unfolding overrideValues_returns_iff by simp

lemma sample_ok: "ok_Krakend sample_krakend" "\<not> no_host sample_krakend"
  by (simp_all add: ok_Krakend_def no_host_def ok_KrakendDeployment_def utf8_Ingress_def sample_defs
      valid_utf8_ascii max_nesting_def)

lemma sample_values: "\<exists>vals. prepareValues sample_krakend = Inr vals"
proof -
  obtain ds ings where "json_KrakendDeployment (ks_Deployment (kr_Spec sample_krakend)) = JObj ds"
    "json_Ingress ((ks_Ingress (kr_Spec sample_krakend))\<lparr>ig_Hosts := Some (effective_hosts sample_krakend)\<rparr>) = JObj ings"
    by (simp add: json_KrakendDeployment_def json_Ingress_def)
  with prepareValues_eq[OF sample_ok(1)] sample_ok(2) show ?thesis by simp
qed

lemma sample_resources_plain: "plain_any (any_of (kd_Resources (ks_Deployment (kr_Spec sample_krakend))))"
  by (simp add: sample_defs)

theorem prepareValues_mergeable_witness:
  "ig_Annotations (ks_Ingress (kr_Spec sample_krakend)) = None \<and> kd_ExtraEnvVars (ks_Deployment (kr_Spec sample_krakend)) = None \<and>
   (\<exists>values m. prepareValues sample_krakend = Inr values \<and> overrideValues [] [(''krakend'', AMap values)] = Ret m)"
proof -
  have "ig_Annotations (ks_Ingress (kr_Spec sample_krakend)) = None"
    "kd_ExtraEnvVars (ks_Deployment (kr_Spec sample_krakend)) = None" by (simp_all add: sample_krakend_def)
  with prepareValues_mergeable[OF sample_ok(1) _ sample_resources_plain] sample_values show ?thesis by blast
qed

end
