(* ===== verification/Krakend_Controller.thy ===== *)
theory Krakend_Controller
  imports Krakend_Values ApiEndpoints_Controller
begin

text \<open>
  \<^verbatim>\<open>internal/controller/krakend_controller.go\<close>: reconciliation of a Krakend into the resources of
  its chart. The client of \<^verbatim>\<open>Kube_Client\<close> is extended by the calls on unstructured objects, the status
  and the event recorder; the accessors of unstructured objects, the conversion to and from a typed
  Deployment and the hash are library code and parameters. A run answers the error it returns, or
  panics. Logging is not modelled.
\<close>

section \<open>Parameters\<close>

text \<open>
  The fields of a typed Deployment the code touches. A map of labels or annotations is its list of
  entries, and a nil map is \<open>None\<close>.
\<close>

type_synonym str_map = "(string \<times> string) list"

record Container =
  co_Name :: string
  co_Env :: "EnvVar list"
  co_Other :: any

record Deployment =
  de_Name :: string
  de_TemplateName :: string
  de_TemplateLabels :: "str_map option"
  de_TemplateAnnotations :: "str_map option"
  de_Containers :: "Container list"
  de_Other :: any

record KrakendLib =
  kl_Hash :: "KrakendSpec \<Rightarrow> (64 word) result"
  GetKind :: "attrs \<Rightarrow> string"
  GetName :: "attrs \<Rightarrow> string"
  GetAnnotations :: "attrs \<Rightarrow> str_map option"
  SetAnnotations :: "attrs \<Rightarrow> str_map \<Rightarrow> attrs"
  SetNamespace :: "attrs \<Rightarrow> string \<Rightarrow> attrs"
  SetOwnerReferences :: "attrs \<Rightarrow> OwnerReference list \<Rightarrow> attrs"
  GetResourceVersion :: "attrs \<Rightarrow> string"
  SetResourceVersion :: "attrs \<Rightarrow> string \<Rightarrow> attrs"
  FromUnstructured :: "attrs \<Rightarrow> Deployment result"
  FromDeployment :: "Deployment \<Rightarrow> attrs result"

record 's KrakendClient =
  kc_Client :: "'s Client"
  Create_Unstructured :: "attrs \<Rightarrow> ('s, unit result) io"
  Get_Unstructured :: "attrs \<Rightarrow> ('s, attrs result) io" \<comment> \<open>kind and key of the given object\<close>
  Update_Unstructured :: "attrs \<Rightarrow> ('s, unit result) io"
  Status_Update_Krakend :: "Krakend \<Rightarrow> ('s, unit result) io"
  Eventf :: "Krakend \<Rightarrow> string \<Rightarrow> string \<Rightarrow> string \<Rightarrow> ('s, unit) io"

record KrakendReconciler =
  kr_SyncInterval :: "64 word"
  kr_KrakendChart :: Chart
  kr_NetpolEnabled :: bool

section \<open>Hash and window\<close>

definition hash_Krakend :: "KrakendLib \<Rightarrow> KrakendSpec \<Rightarrow> string result" where
  "hash_Krakend lib spec = (case kl_Hash lib spec of Inl err \<Rightarrow> Inl err | Inr h \<Rightarrow> Inr (Sprintf_x h))"

definition krakend_needsSync :: "'s KrakendClient \<Rightarrow> KrakendReconciler \<Rightarrow> int \<Rightarrow> ('s, bool) io" where
  "krakend_needsSync c r timestamp = do {
     now \<leftarrow> Now (kc_Client c);
     State_Monad.return (let window = now + sint (- kr_SyncInterval r) in timestamp < window)
   }"

section \<open>Resources\<close>

definition addAnnotations :: "KrakendLib \<Rightarrow> attrs \<Rightarrow> str_map \<Rightarrow> attrs" where
  "addAnnotations lib resource annotations =
     (let existing = (case GetAnnotations lib resource of None \<Rightarrow> [] | Some m \<Rightarrow> m) in
      SetAnnotations lib resource (fold (\<lambda>(k, v) m. AList.update k v m) annotations existing))"

definition assign :: "str_map option \<Rightarrow> string \<Rightarrow> string \<Rightarrow> (str_map option) go" where
  "assign m k v =
     (case m of None \<Rightarrow> Panic ''assignment to entry in nil map'' | Some f \<Rightarrow> Ret (Some (AList.update k v f)))"

definition edit_Deployment :: "Krakend \<Rightarrow> Deployment \<Rightarrow> Deployment go" where
  "edit_Deployment k d =
     (let d1 = d\<lparr>de_TemplateName := de_Name d\<rparr>;
          d2 = (case de_Containers d1 of
                  [x] \<Rightarrow> d1\<lparr>de_Containers :=
                    [x\<lparr>co_Name := de_Name d1, co_Env := co_Env x @ elems (kd_ExtraEnvVars (ks_Deployment (kr_Spec k)))\<rparr>]\<rparr>
                | _ \<Rightarrow> d1) in
      go_bind (assign (de_TemplateLabels d2) ''logs.nais.io/flow-loki'' ''true'') (\<lambda>labels.
      go_bind (assign (de_TemplateAnnotations d2) ''kubectl.kubernetes.io/default-container'' (de_Name d2)) (\<lambda>annotations.
      Ret (d2\<lparr>de_TemplateLabels := labels, de_TemplateAnnotations := annotations\<rparr>))))"

definition edit_resource :: "KrakendLib \<Rightarrow> Krakend \<Rightarrow> attrs \<Rightarrow> (attrs result) go" where
  "edit_resource lib k resource =
     (if GetKind lib resource = ''Deployment'' then
        (let resource1 = addAnnotations lib resource [(''reloader.stakater.com/search'', ''true'')] in
         case FromUnstructured lib resource1 of
           Inl err \<Rightarrow> Ret (Inl (WrapW ''converting unstructured to deployment'' err))
         | Inr d \<Rightarrow>
             go_bind (edit_Deployment k d) (\<lambda>d'.
               Ret (case FromDeployment lib d' of
                      Inl err \<Rightarrow> Inl (WrapW ''converting deployment to unstructured'' err)
                    | Inr m \<Rightarrow> Inr m)))
      else Ret (Inr resource))"

definition createOrUpdate :: "'s KrakendClient \<Rightarrow> KrakendLib \<Rightarrow> attrs \<Rightarrow> ('s, error option) io" where
  "createOrUpdate c lib resource = do {
     r \<leftarrow> Create_Unstructured c resource;
     (case r of
        Inr _ \<Rightarrow> State_Monad.return None
      | Inl err \<Rightarrow>
          (if IgnoreAlreadyExists err \<noteq> None then State_Monad.return (Some (WrapW ''creating resource'' err))
           else do {
             g \<leftarrow> Get_Unstructured c resource;
             (case g of
                Inl err' \<Rightarrow> State_Monad.return (Some (WrapW ''getting existing resource'' err'))
              | Inr existing \<Rightarrow> do {
                  u \<leftarrow> Update_Unstructured c (SetResourceVersion lib resource (GetResourceVersion lib existing));
                  (case u of
                     Inl err' \<Rightarrow> State_Monad.return (Some (WrapW ''updating resource'' err'))
                   | Inr _ \<Rightarrow> State_Monad.return None)
                })
           }))
   }"

text \<open>The verb \<^verbatim>\<open>%q\<close> on ASCII text; the bytes of other printable characters are kept as they are.\<close>

definition quote_char :: "char \<Rightarrow> string" where
  "quote_char c =
     (if c = QUOTE \<or> c = BACKSLASH then [BACKSLASH, c]
      else if 7 \<le> byte c \<and> byte c \<le> 13 then [BACKSLASH, ''abtnvfr'' ! (byte c - 7)]
      else if byte c < 32 \<or> byte c = 127 then BACKSLASH # CHR ''x'' # [hex_digit (byte c div 16), hex_digit (byte c)]
      else [c])"

definition quote_q :: "string \<Rightarrow> string" where
  "quote_q s = QUOTE # concat (map quote_char s) @ [QUOTE]"

text \<open>The end of one iteration: namespace, owner and the write; a failure becomes an event.\<close>

definition write_resource ::
  "'s KrakendClient \<Rightarrow> KrakendLib \<Rightarrow> Krakend \<Rightarrow> string \<Rightarrow> attrs \<Rightarrow> ('s, unit) io" where
  "write_resource c lib k ns resource =
     (let resource' = SetOwnerReferences lib (SetNamespace lib resource ns) (kr_ownerRef k) in do {
        e \<leftarrow> createOrUpdate c lib resource';
        (case e of
           None \<Rightarrow> State_Monad.return ()
         | Some err \<Rightarrow> Eventf c k ''Warning'' ''CreateResource''
             (''Unable to create resource '' @ GetKind lib resource' @ ''/'' @ GetName lib resource' @
              '' for namespace '' @ quote_q ns @ '': '' @ error_text err))
      })"

text \<open>One iteration: \<open>Ret None\<close> goes on with the next resource.\<close>

definition sync_resource ::
  "'s KrakendClient \<Rightarrow> KrakendLib \<Rightarrow> Krakend \<Rightarrow> string \<Rightarrow> attrs \<Rightarrow> ('s, (error option) go) io" where
  "sync_resource c lib k ns resource0 =
     (case edit_resource lib k resource0 of
        Panic t \<Rightarrow> State_Monad.return (Panic t)
      | Ret (Inl err) \<Rightarrow> State_Monad.return (Ret (Some err))
      | Ret (Inr resource1) \<Rightarrow>
          (if GetKind lib resource1 = ''ConfigMap'' then
             (let resource2 = addAnnotations lib resource1 [(''reloader.stakater.com/match'', ''true'')] in do {
                g \<leftarrow> Get_ConfigMap (kc_Client c) \<lparr>nn_Namespace = ns, nn_Name = GetName lib resource2\<rparr>;
                (case g of
                   Inl err \<Rightarrow>
                     (if \<not> IsNotFound err
                      then State_Monad.return (Ret (Some (WrapV (''get ConfigMap '' @ quoted (GetName lib resource2)) err)))
                      else do { write_resource c lib k ns resource2; State_Monad.return (Ret None) })
                 | Inr cm \<Rightarrow>
                     (if str_HasSuffix (GetName lib resource2) ''-partials''
                      then State_Monad.return (Ret None)
                      else do { write_resource c lib k ns resource2; State_Monad.return (Ret None) }))
              })
           else do { write_resource c lib k ns resource1; State_Monad.return (Ret None) }))"

fun sync_resources ::
  "'s KrakendClient \<Rightarrow> KrakendLib \<Rightarrow> Krakend \<Rightarrow> string \<Rightarrow> attrs list \<Rightarrow> ('s, (error option) go) io" where
  "sync_resources c lib k ns [] = State_Monad.return (Ret None)"
| "sync_resources c lib k ns (resource # resources) = do {
     r \<leftarrow> sync_resource c lib k ns resource;
     (case r of
        Ret None \<Rightarrow> sync_resources c lib k ns resources
      | other \<Rightarrow> State_Monad.return other)
   }"

section \<open>Network policy\<close>

definition krakend_netpol :: "Krakend \<Rightarrow> string \<Rightarrow> NetworkPolicy" where
  "krakend_netpol k releaseName =
     SetOwnerReferences_np (kr_ownerRef k)
       (KrakendNetpol (releaseName @ ''-krakend'') (kr_Namespace k) [''app.kubernetes.io/name'' \<mapsto> ''krakend''])"

definition ensureKrakendNetpol :: "'s KrakendClient \<Rightarrow> Krakend \<Rightarrow> string \<Rightarrow> ('s, error option) io" where
  "ensureKrakendNetpol c k releaseName = do {
     g \<leftarrow> Get_NetworkPolicy (kc_Client c) \<lparr>nn_Namespace = kr_Namespace k, nn_Name = releaseName @ ''-krakend''\<rparr>;
     (case g of
        Inl err \<Rightarrow>
          (if IgnoreNotFound err \<noteq> None then State_Monad.return (Some err)
           else do {
             r \<leftarrow> Create_NetworkPolicy (kc_Client c) (krakend_netpol k releaseName);
             (case r of
                Inl err' \<Rightarrow> State_Monad.return (Some (WrapV ''create netpol'' err'))
              | Inr _ \<Rightarrow> State_Monad.return None)
           })
      | Inr existing \<Rightarrow> do {
          r \<leftarrow> Update_NetworkPolicy (kc_Client c) (krakend_netpol k releaseName);
          (case r of
             Inl err' \<Rightarrow> State_Monad.return (Some (WrapV ''update netpol'' err'))
           | Inr _ \<Rightarrow> State_Monad.return None)
        })
   }"

section \<open>Reconcile\<close>

definition write_krakend_status :: "'s KrakendClient \<Rightarrow> Krakend \<Rightarrow> string \<Rightarrow> ('s, error option) io" where
  "write_krakend_status c k hash = do {
     now \<leftarrow> Now (kc_Client c);
     let k' = k\<lparr>kr_Status := \<lparr>kt_SynchronizationTimestamp = now, kt_SynchronizationHash = hash\<rparr>\<rparr>;
     u \<leftarrow> Status_Update_Krakend c k';
     (case u of
        Inl err \<Rightarrow> do {
          Eventf c k' ''Warning'' ''UpdateStatus''
            (''Unable to update status for '' @ quote_q (kr_Name k') @ '': '' @ error_text err);
          State_Monad.return (Some err)
        }
      | Inr _ \<Rightarrow> State_Monad.return None)
   }"

definition finish_Krakend ::
  "'s KrakendClient \<Rightarrow> KrakendReconciler \<Rightarrow> Krakend \<Rightarrow> string \<Rightarrow> ('s, error option) io" where
  "finish_Krakend c r k hash =
     (if kr_NetpolEnabled r then do {
        e \<leftarrow> ensureKrakendNetpol c k (kr_Name k);
        (case e of
           Some err \<Rightarrow> State_Monad.return (Some (WrapW ''ensuring krakend egress netpol'' err))
         | None \<Rightarrow> write_krakend_status c k hash)
      }
      else write_krakend_status c k hash)"

definition sync_Krakend ::
  "'s KrakendClient \<Rightarrow> KrakendLib \<Rightarrow> KrakendReconciler \<Rightarrow> string \<Rightarrow> Krakend \<Rightarrow> string \<Rightarrow> ('s, (error option) go) io" where
  "sync_Krakend c lib r ns k hash =
     (case prepareValues k of
        Inl err \<Rightarrow> State_Monad.return (Ret (Some (WrapW ''preparing values'' err)))
      | Inr values \<Rightarrow>
          (case ToUnstructured (kr_KrakendChart r) (kr_Name k) (kr_Namespace k) [(''krakend'', AMap values)] of
             Panic t \<Rightarrow> State_Monad.return (Panic t)
           | Ret (Inl err) \<Rightarrow> State_Monad.return (Ret (Some (WrapW ''rendering helm chart'' err)))
           | Ret (Inr resources) \<Rightarrow> do {
               e \<leftarrow> sync_resources c lib k ns resources;
               (case e of
                  Ret None \<Rightarrow> do { err \<leftarrow> finish_Krakend c r k hash; State_Monad.return (Ret err) }
                | other \<Rightarrow> State_Monad.return other)
             }))"

text \<open>As in the other controller, the message logged when a run is not skipped reads the clock again.\<close>

definition krakend_live ::
  "'s KrakendClient \<Rightarrow> KrakendLib \<Rightarrow> KrakendReconciler \<Rightarrow> NamespacedName \<Rightarrow> Krakend \<Rightarrow> ('s, (error option) go) io" where
  "krakend_live c lib r req k =
     (case hash_Krakend lib (kr_Spec k) of
        Inl err \<Rightarrow> State_Monad.return (Ret (Some err))
      | Inr hash \<Rightarrow> do {
          skip \<leftarrow> (if kt_SynchronizationHash (kr_Status k) = hash then do {
                     needs \<leftarrow> krakend_needsSync c r (kt_SynchronizationTimestamp (kr_Status k));
                     State_Monad.return (\<not> needs)
                   }
                   else State_Monad.return False);
          (if skip then State_Monad.return (Ret None)
           else do {
             _ \<leftarrow> krakend_needsSync c r (kt_SynchronizationTimestamp (kr_Status k));
             sync_Krakend c lib r (nn_Namespace req) k hash
           })
        })"

definition krakend_Reconcile ::
  "'s KrakendClient \<Rightarrow> KrakendLib \<Rightarrow> KrakendReconciler \<Rightarrow> NamespacedName \<Rightarrow> ('s, (error option) go) io" where
  "krakend_Reconcile c lib r req = do {
     g \<leftarrow> Get_Krakend (kc_Client c) req;
     (case g of
        Inl err \<Rightarrow> State_Monad.return (Ret (IgnoreNotFound err))
      | Inr k \<Rightarrow> krakend_live c lib r req k)
   }"

end
