(* ===== verification/Krakend_Traces.thy ===== *)
theory Krakend_Traces
  imports Krakend_Controller Controller_Traces
begin

text \<open>
  What the Krakend controller writes, whatever the cluster answers. As for the other controller the
  client is wrapped so that its calls leave events; here a read of a ConfigMap leaves one too, since
  the controller decides on it whether the published endpoints may be overwritten.
\<close>

section \<open>The accessors of unstructured objects\<close>

text \<open>The documented behaviour of the accessors the controller relies on.\<close>

locale unstructured_lib =
  fixes lib :: KrakendLib
  assumes kind_annotations: "GetKind lib (SetAnnotations lib u m) = GetKind lib u"
    and name_annotations: "GetName lib (SetAnnotations lib u m) = GetName lib u"
    and get_annotations: "\<exists>m'. GetAnnotations lib (SetAnnotations lib u m) = Some m' \<and> map_of m' = map_of m"
    and annotations_namespace: "GetAnnotations lib (SetNamespace lib u ns) = GetAnnotations lib u"
    and annotations_owner: "GetAnnotations lib (SetOwnerReferences lib u refs) = GetAnnotations lib u"
    and annotations_version: "GetAnnotations lib (SetResourceVersion lib u v) = GetAnnotations lib u"
    and kind_namespace: "GetKind lib (SetNamespace lib u ns) = GetKind lib u"
    and name_namespace: "GetName lib (SetNamespace lib u ns) = GetName lib u"
    and kind_owner: "GetKind lib (SetOwnerReferences lib u refs) = GetKind lib u"
    and name_owner: "GetName lib (SetOwnerReferences lib u refs) = GetName lib u"
    and kind_version: "GetKind lib (SetResourceVersion lib u v) = GetKind lib u"
    and name_version: "GetName lib (SetResourceVersion lib u v) = GetName lib u"
begin

lemmas kind_name = kind_annotations name_annotations kind_namespace name_namespace kind_owner name_owner
  kind_version name_version

lemma addAnnotations_kind: "GetKind lib (addAnnotations lib u as) = GetKind lib u"
  by (simp add: addAnnotations_def Let_def kind_annotations)

lemma addAnnotations_name: "GetName lib (addAnnotations lib u as) = GetName lib u"
  by (simp add: addAnnotations_def Let_def name_annotations)

lemma addAnnotations_map:
  "\<exists>m'. GetAnnotations lib (addAnnotations lib u [(k, v)]) = Some m' \<and>
     map_of m' = (case GetAnnotations lib u of None \<Rightarrow> Map.empty | Some m \<Rightarrow> map_of m)(k \<mapsto> v)"
  using get_annotations[of u "AList.update k v (case GetAnnotations lib u of None \<Rightarrow> [] | Some m \<Rightarrow> m)"]
  by (auto simp: addAnnotations_def update_conv' split: option.split)

end

section \<open>Recording\<close>

datatype kevent =
    ReadConfigMap NamespacedName bool \<comment> \<open>whether the answer was NotFound\<close>
  | WroteResource attrs bool \<comment> \<open>whether the call succeeded\<close>
  | WroteNetpol NetworkPolicy
  | WroteStatus Krakend
  | RecordedEvent string

definition record_cm :: "NamespacedName \<Rightarrow> ('s, ConfigMap result) io \<Rightarrow> ('s \<times> kevent list, ConfigMap result) io" where
  "record_cm nn m = State (\<lambda>(s, tr). case run_state m s of (x, s') \<Rightarrow>
     (x, (s', tr @ [ReadConfigMap nn (case x of Inl e \<Rightarrow> IsNotFound e | Inr _ \<Rightarrow> False)])))"

definition record_event :: "string \<Rightarrow> ('s, unit) io \<Rightarrow> ('s \<times> kevent list, unit) io" where
  "record_event t m = State (\<lambda>(s, tr). case run_state m s of (x, s') \<Rightarrow> (x, (s', tr @ [RecordedEvent t])))"

text \<open>The calls the Krakend controller does not make are passed on as reads.\<close>

definition krecording_base :: "'s Client \<Rightarrow> ('s \<times> kevent list) Client" where
  "krecording_base c =
     \<lparr>Get_ApiEndpoints = (\<lambda>nn. lift_read (Get_ApiEndpoints c nn)),
      Get_Krakend = (\<lambda>nn. lift_read (Get_Krakend c nn)),
      Get_ConfigMap = (\<lambda>nn. record_cm nn (Get_ConfigMap c nn)),
      Get_NetworkPolicy = (\<lambda>nn. lift_read (Get_NetworkPolicy c nn)),
      List_ApiEndpoints = (\<lambda>ns. lift_read (List_ApiEndpoints c ns)),
      Create_NetworkPolicy = (\<lambda>np. lift_write (\<lambda>_. WroteNetpol np) (Create_NetworkPolicy c np)),
      Update_NetworkPolicy = (\<lambda>np. lift_write (\<lambda>_. WroteNetpol np) (Update_NetworkPolicy c np)),
      Update_ConfigMap = (\<lambda>cm. lift_read (Update_ConfigMap c cm)),
      Update_ApiEndpoints = (\<lambda>a. lift_read (Update_ApiEndpoints c a)),
      Status_Update_ApiEndpoints = (\<lambda>a. lift_read (Status_Update_ApiEndpoints c a)),
      Now = lift_read (Now c)\<rparr>"

definition krecording :: "'s KrakendClient \<Rightarrow> ('s \<times> kevent list) KrakendClient" where
  "krecording c =
     \<lparr>kc_Client = krecording_base (kc_Client c),
      Create_Unstructured = (\<lambda>u. lift_write (WroteResource u) (Create_Unstructured c u)),
      Get_Unstructured = (\<lambda>u. lift_read (Get_Unstructured c u)),
      Update_Unstructured = (\<lambda>u. lift_write (WroteResource u) (Update_Unstructured c u)),
      Status_Update_Krakend = (\<lambda>k. lift_write (\<lambda>_. WroteStatus k) (Status_Update_Krakend c k)),
      Eventf = (\<lambda>k type reason msg. record_event msg (Eventf c k type reason msg))\<rparr>"

definition krakend_trace ::
  "'s KrakendClient \<Rightarrow> KrakendLib \<Rightarrow> KrakendReconciler \<Rightarrow> NamespacedName \<Rightarrow> 's \<Rightarrow> kevent list" where
  "krakend_trace c lib r req s = snd (snd (run_state (krakend_Reconcile (krecording c) lib r req) (s, [])))"

lemma krecording_simps [simp]:
  "Get_Krakend (kc_Client (krecording c)) nn = lift_read (Get_Krakend (kc_Client c) nn)"
  "Get_ConfigMap (kc_Client (krecording c)) nn = record_cm nn (Get_ConfigMap (kc_Client c) nn)"
  "Get_NetworkPolicy (kc_Client (krecording c)) nn = lift_read (Get_NetworkPolicy (kc_Client c) nn)"
  "Create_NetworkPolicy (kc_Client (krecording c)) np =
     lift_write (\<lambda>_. WroteNetpol np) (Create_NetworkPolicy (kc_Client c) np)"
  "Update_NetworkPolicy (kc_Client (krecording c)) np =
     lift_write (\<lambda>_. WroteNetpol np) (Update_NetworkPolicy (kc_Client c) np)"
  "Now (kc_Client (krecording c)) = lift_read (Now (kc_Client c))"
  "Create_Unstructured (krecording c) u = lift_write (WroteResource u) (Create_Unstructured c u)"
  "Get_Unstructured (krecording c) u = lift_read (Get_Unstructured c u)"
  "Update_Unstructured (krecording c) u = lift_write (WroteResource u) (Update_Unstructured c u)"
  "Status_Update_Krakend (krecording c) k = lift_write (\<lambda>_. WroteStatus k) (Status_Update_Krakend c k)"
  "Eventf (krecording c) k ty re msg = record_event msg (Eventf c k ty re msg)"
  by (simp_all add: krecording_def krecording_base_def)

lemma run_record [run_simps]:
  "run_state (record_cm nn mc) (s, tr) = (case run_state mc s of (x, s') \<Rightarrow>
     (x, (s', tr @ [ReadConfigMap nn (case x of Inl e \<Rightarrow> IsNotFound e | Inr _ \<Rightarrow> False)])))"
  "run_state (record_event t m) (s, tr) = (case run_state m s of (x, s') \<Rightarrow> (x, (s', tr @ [RecordedEvent t])))"
  by (simp_all add: record_cm_def record_event_def)

lemma emits_record_cm:
  "emits (record_cm nn m) (\<lambda>x evs. evs = [ReadConfigMap nn (case x of Inl e \<Rightarrow> IsNotFound e | Inr _ \<Rightarrow> False)])"
  by (auto simp: emits_def record_cm_def split: prod.splits)

lemma emits_bind_record_cm:
  "(\<And>x. emits (f x) (\<lambda>r evs. Q r (ReadConfigMap nn (case x of Inl e \<Rightarrow> IsNotFound e | Inr _ \<Rightarrow> False) # evs))) \<Longrightarrow>
     emits (State_Monad.bind (record_cm nn m) f) Q"
  by (rule emits_bind[OF emits_record_cm]) simp

lemma emits_record_event: "Q () [RecordedEvent t] \<Longrightarrow> emits (record_event t m) Q"
  by (auto simp: emits_def record_event_def split: prod.splits)

lemma emits_bind_record_event:
  "emits (f ()) (\<lambda>r evs. Q r (RecordedEvent t # evs)) \<Longrightarrow> emits (State_Monad.bind (record_event t m) f) Q"
  by (rule emits_bind[where P = "\<lambda>_ evs. evs = [RecordedEvent t]"]) (auto intro: emits_record_event)

section \<open>The shape of a trace\<close>

text \<open>
  Writing one resource: at most two writes of it, and an event when they fail. A ConfigMap is
  read first, and one with published endpoints is only written when the read did not find it.
\<close>

definition resource_event :: "KrakendLib \<Rightarrow> attrs \<Rightarrow> kevent \<Rightarrow> bool" where
  "resource_event lib u ev \<longleftrightarrow>
     (\<exists>w b. ev = WroteResource w b \<and> GetKind lib w = GetKind lib u \<and> GetName lib w = GetName lib u) \<or>
     (\<exists>t. ev = RecordedEvent t)"

definition is_partials :: "KrakendLib \<Rightarrow> attrs \<Rightarrow> bool" where
  "is_partials lib u \<longleftrightarrow> GetKind lib u = ''ConfigMap'' \<and> str_HasSuffix (GetName lib u) ''-partials''"

definition block :: "KrakendLib \<Rightarrow> string \<Rightarrow> kevent list \<Rightarrow> bool" where
  "block lib ns evs \<longleftrightarrow>
     evs = [] \<or>
     (\<exists>u ws. GetKind lib u \<noteq> ''ConfigMap'' \<and> evs = ws \<and> list_all (resource_event lib u) ws \<and> length ws \<le> 3) \<or>
     (\<exists>u b ws. GetKind lib u = ''ConfigMap'' \<and>
        evs = ReadConfigMap \<lparr>nn_Namespace = ns, nn_Name = GetName lib u\<rparr> b # ws \<and>
        list_all (resource_event lib u) ws \<and> length ws \<le> 3 \<and>
        (b \<or> ws = [] \<or> \<not> str_HasSuffix (GetName lib u) ''-partials''))"

context unstructured_lib
begin

lemma emits_createOrUpdate:
  "emits (createOrUpdate (krecording c) lib u)
     (\<lambda>r evs. list_all (resource_event lib u) evs \<and> length evs \<le> 2)"
  unfolding createOrUpdate_def
  by (auto simp: resource_event_def kind_name intro!: emits_bind_write emits_bind_read emits_return split: sum.split)

lemma emits_write_resource:
  assumes "GetKind lib u = GetKind lib v" "GetName lib u = GetName lib v"
  shows "emits (write_resource (krecording c) lib k ns u)
     (\<lambda>r evs. list_all (resource_event lib v) evs \<and> length evs \<le> 3)"
proof -
  let ?u = "SetOwnerReferences lib (SetNamespace lib u ns) (kr_ownerRef k)"
  have same: "resource_event lib ?u = resource_event lib v"
    using assms by (auto simp: resource_event_def kind_name fun_eq_iff)
  show ?thesis
    unfolding write_resource_def Let_def
    by (rule emits_bind[OF emits_createOrUpdate])
      (auto simp: same intro!: emits_return emits_record_event split: option.split, simp_all add: resource_event_def)
qed

lemma block_simps:
  "block lib ns []"
  "GetKind lib u \<noteq> ''ConfigMap'' \<Longrightarrow> list_all (resource_event lib u) ws \<Longrightarrow> length ws \<le> 3 \<Longrightarrow> block lib ns ws"
  "GetKind lib u = ''ConfigMap'' \<Longrightarrow> list_all (resource_event lib u) ws \<Longrightarrow> length ws \<le> 3 \<Longrightarrow>
     b \<or> ws = [] \<or> \<not> str_HasSuffix (GetName lib u) ''-partials'' \<Longrightarrow>
     block lib ns (ReadConfigMap \<lparr>nn_Namespace = ns, nn_Name = GetName lib u\<rparr> b # ws)"
  unfolding block_def by blast+

lemma emits_write_block:
  assumes "GetKind lib v = ''ConfigMap''" "b \<or> \<not> str_HasSuffix (GetName lib v) ''-partials''"
    and "GetKind lib u = GetKind lib v" "GetName lib u = GetName lib v"
  shows "emits (do { write_resource (krecording c) lib k ns u; State_Monad.return (Ret None) })
     (\<lambda>_ evs. block lib ns (ReadConfigMap \<lparr>nn_Namespace = ns, nn_Name = GetName lib v\<rparr> b # evs))"
  by (rule emits_bind[OF emits_write_resource[OF assms(3,4)]], rule emits_return)
    (use assms(1,2) in \<open>auto intro!: block_simps(3)\<close>)

lemma emits_sync_resource:
  "emits (sync_resource (krecording c) lib k ns u) (\<lambda>_. block lib ns)"
proof (cases "edit_resource lib k u")
  case (Panic t)
  then show ?thesis by (auto simp: sync_resource_def intro!: emits_return block_simps(1))
next
  case (Ret r)
  show ?thesis
  proof (cases r)
    case (Inl err)
    with Ret show ?thesis by (auto simp: sync_resource_def intro!: emits_return block_simps(1))
  next
    case (Inr v)
    note nw = addAnnotations_kind addAnnotations_name
    have plain: "emits (do { write_resource (krecording c) lib k ns v; State_Monad.return (Ret None) }) (\<lambda>_. block lib ns)"
      if "GetKind lib v \<noteq> ''ConfigMap''"
      by (rule emits_bind[OF emits_write_resource[of v v]]) (use that in \<open>auto intro!: emits_return block_simps(2)\<close>)
    show ?thesis
      using plain Ret Inr
      by (auto simp: sync_resource_def Let_def nw
          intro!: emits_bind_record_cm emits_return emits_write_block block_simps(3) split: sum.split)
  qed
qed

lemma emits_sync_resources:
  "emits (sync_resources (krecording c) lib k ns us)
     (\<lambda>_ evs. \<exists>bs. evs = concat bs \<and> list_all (block lib ns) bs \<and> length bs \<le> length us)"
proof (induction us)
  case Nil
  show ?case by (auto intro!: emits_return)
next
  case (Cons u us)
  show ?case
    unfolding sync_resources.simps
  proof (rule emits_bind[OF emits_sync_resource], goal_cases)
    case (1 x evs)
    have stop: "emits (State_Monad.return y)
        (\<lambda>_ evs'. \<exists>bs. evs @ evs' = concat bs \<and> list_all (block lib ns) bs \<and> length bs \<le> length (u # us))" for y :: "(error option) go"
      using 1 by (auto intro!: emits_return exI[of _ "[evs]"])
    have go_on: "emits (sync_resources (krecording c) lib k ns us)
        (\<lambda>_ evs'. \<exists>bs. evs @ evs' = concat bs \<and> list_all (block lib ns) bs \<and> length bs \<le> length (u # us))"
    proof (rule emits_weaken[OF Cons.IH], elim exE conjE)
      fix r evs' bs
      assume "evs' = concat bs" "list_all (block lib ns) bs" "length bs \<le> length us"
      with 1 show "\<exists>bs. evs @ evs' = concat bs \<and> list_all (block lib ns) bs \<and> length bs \<le> length (u # us)"
        by (intro exI[of _ "evs # bs"]) simp
    qed
    from stop go_on show ?case by (auto split: go.split option.split)
  qed
qed

end

definition status_events :: "string \<Rightarrow> kevent list \<Rightarrow> bool" where
  "status_events h evs \<longleftrightarrow>
     (\<exists>k ts. evs = WroteStatus k # map RecordedEvent ts \<and> length ts \<le> 1 \<and>
        kt_SynchronizationHash (kr_Status k) = h)"

definition closing :: "string \<Rightarrow> kevent list \<Rightarrow> bool" where
  "closing h evs \<longleftrightarrow>
     (\<exists>nps sts. evs = map WroteNetpol nps @ sts \<and> length nps \<le> 1 \<and> (sts = [] \<or> status_events h sts))"

lemma emits_write_krakend_status:
  "emits (write_krakend_status (krecording c) k h) (\<lambda>_. status_events h)"
  unfolding write_krakend_status_def Let_def
  by (auto simp: status_events_def Cons_eq_map_conv intro!: emits_bind_read emits_bind_write emits_bind_record_event
      emits_return split: sum.split)

lemma emits_ensureKrakendNetpol:
  "emits (ensureKrakendNetpol (krecording c) k name) (\<lambda>_ evs. \<exists>nps. evs = map WroteNetpol nps \<and> length nps \<le> 1)"
  unfolding ensureKrakendNetpol_def
  by (auto simp: Cons_eq_map_conv intro!: emits_bind_read emits_bind_write emits_return split: sum.split)

lemma emits_finish_Krakend: "emits (finish_Krakend (krecording c) r k h) (\<lambda>_. closing h)"
proof -
  have st: "emits (write_krakend_status (krecording c) k h) (\<lambda>_ evs. closing h (map WroteNetpol nps @ evs))"
    if "length nps \<le> 1" for nps
    using that by (intro emits_weaken[OF emits_write_krakend_status]) (auto simp: closing_def)
  show ?thesis
  proof (cases "kr_NetpolEnabled r")
    case False
    with st[of "[]"] show ?thesis by (simp add: finish_Krakend_def)
  next
    case True
    have "emits (do {
        e \<leftarrow> ensureKrakendNetpol (krecording c) k (kr_Name k);
        (case e of
           Some err \<Rightarrow> State_Monad.return (Some (WrapW ''ensuring krakend egress netpol'' err))
         | None \<Rightarrow> write_krakend_status (krecording c) k h)
      }) (\<lambda>_. closing h)"
    proof (rule emits_bind[OF emits_ensureKrakendNetpol], elim exE conjE)
      fix x evs nps
      assume "evs = map WroteNetpol nps" "length nps \<le> 1"
      with st show "emits (case x of
           Some err \<Rightarrow> State_Monad.return (Some (WrapW ''ensuring krakend egress netpol'' err))
         | None \<Rightarrow> write_krakend_status (krecording c) k h) (\<lambda>_ evs'. closing h (evs @ evs'))"
        by (auto simp: closing_def[of h "map _ _ @ []"] closing_def[of h "map WroteNetpol nps"]
            intro!: emits_return exI[of _ nps] split: option.split)
    qed
    with True show ?thesis by (simp add: finish_Krakend_def)
  qed
qed

section \<open>A whole run\<close>

definition run_shape :: "KrakendLib \<Rightarrow> string \<Rightarrow> string \<Rightarrow> kevent list \<Rightarrow> bool" where
  "run_shape lib ns h evs \<longleftrightarrow>
     (\<exists>bs fin. evs = concat bs @ fin \<and> list_all (block lib ns) bs \<and> (fin = [] \<or> closing h fin))"

lemma run_shape_Nil [simp]: "run_shape lib ns h []"
  unfolding run_shape_def by (intro exI[of _ "[]"]) simp

lemma run_shape_intro:
  "list_all (block lib ns) bs \<Longrightarrow> fin = [] \<or> closing h fin \<Longrightarrow> run_shape lib ns h (concat bs @ fin)"
  unfolding run_shape_def by blast

lemma krakend_trace_eq:
  "krakend_trace c lib r req s =
     (case run_state (Get_Krakend (kc_Client c) req) s of
        (Inl err, s1) \<Rightarrow> []
      | (Inr k, s1) \<Rightarrow> snd (snd (run_state (krakend_live (krecording c) lib r req k) (s1, []))))"
  unfolding krakend_trace_def krakend_Reconcile_def krecording_simps run_bind run_lift_read
  by (simp add: run_return split: prod.split sum.split)

context unstructured_lib
begin

lemma emits_sync_Krakend: "emits (sync_Krakend (krecording c) lib r ns k h) (\<lambda>_. run_shape lib ns h)"
proof -
  have "emits (do {
      e \<leftarrow> sync_resources (krecording c) lib k ns us;
      (case e of
         Ret None \<Rightarrow> do { err \<leftarrow> finish_Krakend (krecording c) r k h; State_Monad.return (Ret err) }
       | other \<Rightarrow> State_Monad.return other)
    }) (\<lambda>_. run_shape lib ns h)" for us
  proof (rule emits_bind[OF emits_sync_resources], elim exE conjE)
    fix e evs bs
    assume bs: "evs = concat bs" "list_all (block lib ns) bs"
    have "emits (do { err \<leftarrow> finish_Krakend (krecording c) r k h; State_Monad.return (Ret err) })
        (\<lambda>_ evs'. run_shape lib ns h (evs @ evs'))"
      by (rule emits_bind[OF emits_finish_Krakend]) (use bs in \<open>auto intro!: emits_return run_shape_intro\<close>)
    then show "emits (case e of
         Ret None \<Rightarrow> do { err \<leftarrow> finish_Krakend (krecording c) r k h; State_Monad.return (Ret err) }
       | other \<Rightarrow> State_Monad.return other) (\<lambda>_ evs'. run_shape lib ns h (evs @ evs'))"
      using bs by (auto intro!: emits_return run_shape_intro split: go.split option.split)
  qed
  then show ?thesis
    unfolding sync_Krakend_def by (auto intro!: emits_return split: sum.split go.split)
qed

lemma emits_krakend_live:
  "emits (krakend_live (krecording c) lib r req k)
     (\<lambda>_ evs. evs = [] \<or> (\<exists>h. hash_Krakend lib (kr_Spec k) = Inr h \<and> run_shape lib (nn_Namespace req) h evs))"
proof -
  have "emits (sync_Krakend (krecording c) lib r (nn_Namespace req) k h)
      (\<lambda>_ evs. evs = [] \<or> run_shape lib (nn_Namespace req) h evs)" for h
    by (rule emits_weaken[OF emits_sync_Krakend]) blast
  then show ?thesis
    unfolding krakend_live_def krakend_needsSync_def
    by (auto intro!: emits_bind_read emits_return split: sum.split)
qed

lemma krakend_trace_shape:
  assumes "krakend_trace c lib r req s \<noteq> []"
  shows "\<exists>k s1 h. run_state (Get_Krakend (kc_Client c) req) s = (Inr k, s1) \<and> hash_Krakend lib (kr_Spec k) = Inr h \<and>
      run_shape lib (nn_Namespace req) h (krakend_trace c lib r req s)"
proof -
  from assms obtain k s1 where k: "run_state (Get_Krakend (kc_Client c) req) s = (Inr k, s1)"
    by (auto simp: krakend_trace_eq split: prod.splits sum.splits)
  obtain e s' tr where "run_state (krakend_live (krecording c) lib r req k) (s1, []) = (e, (s', tr))"
    "tr = [] \<or> (\<exists>h. hash_Krakend lib (kr_Spec k) = Inr h \<and> run_shape lib (nn_Namespace req) h tr)"
    by (rule run_emits[OF emits_krakend_live])
  with k assms show ?thesis by (auto simp: krakend_trace_eq)
qed

end

section \<open>What the shape says\<close>

fun is_read :: "kevent \<Rightarrow> bool" where
  "is_read (ReadConfigMap nn b) = True"
| "is_read ev = False"

text \<open>A write of published endpoints comes after a read that did not find them, with no read in between.\<close>

definition guarded :: "KrakendLib \<Rightarrow> string \<Rightarrow> kevent list \<Rightarrow> bool" where
  "guarded lib ns evs \<longleftrightarrow>
     (\<forall>pre w ok post. evs = pre @ WroteResource w ok # post \<longrightarrow> is_partials lib w \<longrightarrow>
        (\<exists>pre' mid. pre = pre' @ ReadConfigMap \<lparr>nn_Namespace = ns, nn_Name = GetName lib w\<rparr> True # mid \<and>
           (\<forall>ev \<in> set mid. \<not> is_read ev)))"

lemma guarded_append:
  assumes "guarded lib ns xs" "guarded lib ns ys"
  shows "guarded lib ns (xs @ ys)"
  unfolding guarded_def
proof (intro allI impI)
  fix pre w ok post
  assume eq: "xs @ ys = pre @ WroteResource w ok # post" and w: "is_partials lib w"
  let ?P = "\<lambda>pre. \<exists>pre' mid. pre = pre' @ ReadConfigMap \<lparr>nn_Namespace = ns, nn_Name = GetName lib w\<rparr> True # mid \<and>
           (\<forall>ev \<in> set mid. \<not> is_read ev)"
  from eq consider us where "xs = pre @ WroteResource w ok # us" | us where "pre = xs @ us" "ys = us @ WroteResource w ok # post"
    using append_split_at[OF eq] by blast
  then show "?P pre"
  proof cases
    case 1
    with assms(1) w show ?thesis unfolding guarded_def by blast
  next
    case 2
    with assms(2) w have "?P us" unfolding guarded_def by blast
    with 2(1) show ?thesis by (metis append.assoc)
  qed
qed

lemma guarded_no_write: "(\<forall>w ok. WroteResource w ok \<notin> set evs) \<Longrightarrow> guarded lib ns evs"
  unfolding guarded_def by (metis in_set_conv_decomp)

lemma block_guarded:
  assumes "block lib ns evs"
  shows "guarded lib ns evs"
proof -
  consider "evs = []"
    | (other) u where "GetKind lib u \<noteq> ''ConfigMap''" "list_all (resource_event lib u) evs"
    | (cm) u b ws where "evs = ReadConfigMap \<lparr>nn_Namespace = ns, nn_Name = GetName lib u\<rparr> b # ws"
        "list_all (resource_event lib u) ws" "b \<or> ws = [] \<or> \<not> str_HasSuffix (GetName lib u) ''-partials''"
    using assms unfolding block_def by blast
  then show ?thesis
  proof cases
    case other
    then show ?thesis
      by (force simp: guarded_def is_partials_def resource_event_def list_all_iff)
  next
    case cm
    have no_read: "resource_event lib u ev \<Longrightarrow> \<not> is_read ev" for ev by (auto simp: resource_event_def)
    show ?thesis
      unfolding guarded_def
    proof (intro allI impI)
      fix pre w ok post
      assume eq: "evs = pre @ WroteResource w ok # post" and w: "is_partials lib w"
      from eq cm(1) obtain mid where mid: "pre = ReadConfigMap \<lparr>nn_Namespace = ns, nn_Name = GetName lib u\<rparr> b # mid"
        "ws = mid @ WroteResource w ok # post" by (cases pre) auto
      with cm(2) have name: "GetName lib w = GetName lib u" and "\<forall>ev \<in> set mid. resource_event lib u ev"
        by (auto simp: list_all_iff, simp add: resource_event_def)
      then have "\<forall>ev \<in> set mid. \<not> is_read ev" using no_read by blast
      moreover from name have b using cm(3) mid(2) w name by (auto simp: is_partials_def)
      ultimately have "pre = [] @ ReadConfigMap \<lparr>nn_Namespace = ns, nn_Name = GetName lib w\<rparr> True # mid \<and>
          (\<forall>ev \<in> set mid. \<not> is_read ev)" using mid(1) name by simp
      then show "\<exists>pre' mid. pre = pre' @ ReadConfigMap \<lparr>nn_Namespace = ns, nn_Name = GetName lib w\<rparr> True # mid \<and>
           (\<forall>ev \<in> set mid. \<not> is_read ev)" by blast
    qed
  qed (simp add: guarded_no_write)
qed

lemma closing_events:
  assumes "closing h evs"
  obtains nps sts where "evs = map WroteNetpol nps @ sts" "length nps \<le> 1"
    "sts = [] \<or> (\<exists>k ts. sts = WroteStatus k # map RecordedEvent ts \<and> length ts \<le> 1 \<and>
        kt_SynchronizationHash (kr_Status k) = h)"
  using assms unfolding closing_def status_events_def by blast

lemma run_shape_guarded:
  assumes "run_shape lib ns h evs"
  shows "guarded lib ns evs"
proof -
  obtain bs fin where evs: "evs = concat bs @ fin" "list_all (block lib ns) bs" "fin = [] \<or> closing h fin"
    using assms unfolding run_shape_def by blast
  from evs(2) have "guarded lib ns (concat bs)"
    by (induction bs) (auto intro: guarded_append block_guarded guarded_no_write)
  moreover have "guarded lib ns fin"
    using evs(3) by (auto elim!: closing_events intro!: guarded_no_write)
  ultimately show ?thesis using evs(1) guarded_append by blast
qed

lemma block_no_status: "block lib ns evs \<Longrightarrow> WroteStatus k \<notin> set evs"
  by (auto simp: block_def resource_event_def list_all_iff)

lemma run_shape_status:
  assumes "run_shape lib ns h (pre @ WroteStatus k # post)"
  shows "kt_SynchronizationHash (kr_Status k) = h" "\<exists>ts. post = map RecordedEvent ts \<and> length ts \<le> 1"
    "\<forall>k'. WroteStatus k' \<notin> set pre"
proof -
  obtain bs fin where evs: "pre @ WroteStatus k # post = concat bs @ fin" "list_all (block lib ns) bs"
    "fin = [] \<or> closing h fin"
    using assms unfolding run_shape_def by blast
  have no: "WroteStatus k' \<notin> set (concat bs)" for k'
    using evs(2) by (auto simp: list_all_iff dest: block_no_status)
  from evs(1) no have "WroteStatus k \<in> set fin" by (metis Un_iff in_set_conv_decomp set_append)
  with evs(3) obtain nps k0 ts where fin: "fin = map WroteNetpol nps @ WroteStatus k0 # map RecordedEvent ts"
    "length ts \<le> 1" "kt_SynchronizationHash (kr_Status k0) = h"
    by (auto elim!: closing_events)
  let ?pre = "concat bs @ map WroteNetpol nps"
  have split: "pre @ WroteStatus k # post = ?pre @ WroteStatus k0 # map RecordedEvent ts"
    using evs(1) fin(1) by simp
  have "pre = ?pre \<and> WroteStatus k = WroteStatus k0 \<and> post = map RecordedEvent ts"
    by (rule split_at_unique[where P = "\<lambda>ev. \<exists>k'. ev = WroteStatus k'", OF split]) (use no in auto)
  with fin no show "kt_SynchronizationHash (kr_Status k) = h" "\<exists>ts. post = map RecordedEvent ts \<and> length ts \<le> 1"
    "\<forall>k'. WroteStatus k' \<notin> set pre" by auto
qed

section \<open>Every resource is written\<close>

text \<open>The object a rendered resource becomes: edited, annotated, in the namespace, owned.\<close>

definition desired :: "KrakendLib \<Rightarrow> Krakend \<Rightarrow> string \<Rightarrow> attrs \<Rightarrow> attrs" where
  "desired lib k ns v =
     SetOwnerReferences lib (SetNamespace lib
       (if GetKind lib v = ''ConfigMap'' then addAnnotations lib v [(''reloader.stakater.com/match'', ''true'')] else v)
       ns) (kr_ownerRef k)"

definition written :: "KrakendLib \<Rightarrow> attrs \<Rightarrow> kevent list \<Rightarrow> bool" where
  "written lib u evs \<longleftrightarrow>
     (\<exists>w. WroteResource w True \<in> set evs \<and> (w = u \<or> (\<exists>v. w = SetResourceVersion lib u v)))"

definition handled :: "KrakendLib \<Rightarrow> Krakend \<Rightarrow> string \<Rightarrow> attrs \<Rightarrow> kevent list \<Rightarrow> bool" where
  "handled lib k ns u evs \<longleftrightarrow>
     (\<exists>v. edit_resource lib k u = Ret (Inr v) \<and>
        (written lib (desired lib k ns v) evs \<or>
         is_partials lib v \<and> ReadConfigMap \<lparr>nn_Namespace = ns, nn_Name = GetName lib v\<rparr> False \<in> set evs))"

definition silent :: "kevent list \<Rightarrow> bool" where
  "silent evs \<longleftrightarrow> (\<forall>t. RecordedEvent t \<notin> set evs)"

lemma silent_simps [simp]:
  "silent []" "silent (xs @ ys) \<longleftrightarrow> silent xs \<and> silent ys" "\<not> silent (RecordedEvent t # evs)"
  "silent (ReadConfigMap nn b # evs) = silent evs" "silent (WroteResource u b # evs) = silent evs"
  "silent (WroteNetpol np # evs) = silent evs" "silent (WroteStatus k # evs) = silent evs"
  by (auto simp: silent_def)

lemma written_intros:
  "WroteResource u True \<in> set evs \<Longrightarrow> written lib u evs"
  "WroteResource (SetResourceVersion lib u v) True \<in> set evs \<Longrightarrow> written lib u evs"
  unfolding written_def by blast+

lemma written_mono: "written lib u xs \<Longrightarrow> set xs \<subseteq> set ys \<Longrightarrow> written lib u ys"
  unfolding written_def by blast

lemma handled_written:
  "edit_resource lib k u = Ret (Inr v) \<Longrightarrow> written lib (desired lib k ns v) evs \<Longrightarrow> handled lib k ns u (pre @ evs)"
  unfolding handled_def using written_mono by fastforce

lemma handled_mono: "handled lib k ns u xs \<Longrightarrow> set xs \<subseteq> set ys \<Longrightarrow> handled lib k ns u ys"
  unfolding handled_def using written_mono by blast

lemma createOrUpdate_written:
  "emits (createOrUpdate (krecording c) lib u) (\<lambda>r evs. silent evs \<and> (r = None \<longrightarrow> written lib u evs))"
  unfolding createOrUpdate_def
  by (auto simp: is_ok_def intro!: emits_bind_write emits_bind_read emits_return split: sum.split)
    (auto intro: written_intros)

lemma write_resource_written:
  "emits (write_resource (krecording c) lib k ns u)
     (\<lambda>_ evs. silent evs \<longrightarrow> written lib (SetOwnerReferences lib (SetNamespace lib u ns) (kr_ownerRef k)) evs)"
  unfolding write_resource_def Let_def
  by (rule emits_bind[OF createOrUpdate_written])
    (auto intro!: emits_return emits_record_event split: option.split)

lemma sync_resource_handled:
  assumes "unstructured_lib lib"
  shows "emits (sync_resource (krecording c) lib k ns u)
     (\<lambda>r evs. r = Ret None \<longrightarrow> silent evs \<longrightarrow> handled lib k ns u evs)"
proof (cases "edit_resource lib k u")
  case (Panic t)
  then show ?thesis by (auto simp: sync_resource_def intro!: emits_return)
next
  case (Ret r)
  show ?thesis
  proof (cases r)
    case (Inl err)
    with Ret show ?thesis by (auto simp: sync_resource_def intro!: emits_return)
  next
    case (Inr v)
    let ?w = "if GetKind lib v = ''ConfigMap'' then addAnnotations lib v [(''reloader.stakater.com/match'', ''true'')] else v"
    have wr: "emits (do { write_resource (krecording c) lib k ns ?w; State_Monad.return (Ret None) })
        (\<lambda>r evs. r = Ret None \<longrightarrow> silent (pre @ evs) \<longrightarrow> handled lib k ns u (pre @ evs))" for pre
      by (rule emits_bind[OF write_resource_written], rule emits_return)
        (use Ret Inr in \<open>auto simp flip: desired_def intro!: handled_written\<close>)
    note nm = unstructured_lib.addAnnotations_name[OF assms]
    let ?rd = "ReadConfigMap \<lparr>nn_Namespace = ns, nn_Name = GetName lib v\<rparr>"
    have skipped: "handled lib k ns u [?rd False]" if "is_partials lib v"
      using that Ret Inr by (auto simp: handled_def)
    show ?thesis
    proof (cases "GetKind lib v = ''ConfigMap''")
      case False
      with wr[of "[]"] Ret Inr show ?thesis by (simp add: sync_resource_def)
    next
      case True
      with skipped wr[of "[?rd True]"] wr[of "[?rd False]"] Ret Inr show ?thesis
        by (auto simp: sync_resource_def Let_def nm is_partials_def
            intro!: emits_bind_record_cm emits_return split: sum.split)
    qed
  qed
qed

lemma sync_resources_handled:
  assumes "unstructured_lib lib"
  shows "emits (sync_resources (krecording c) lib k ns us)
     (\<lambda>r evs. (\<forall>k'. WroteStatus k' \<notin> set evs) \<and>
        (r = Ret None \<longrightarrow> silent evs \<longrightarrow> list_all (\<lambda>u. handled lib k ns u evs) us))"
proof (induction us)
  case Nil
  show ?case by (auto intro!: emits_return)
next
  case (Cons u us)
  have one: "emits (sync_resource (krecording c) lib k ns u) (\<lambda>r evs. (\<forall>k'. WroteStatus k' \<notin> set evs) \<and>
      (r = Ret None \<longrightarrow> silent evs \<longrightarrow> handled lib k ns u evs))"
    by (rule emits_conj[OF emits_weaken[OF unstructured_lib.emits_sync_resource[OF assms]] sync_resource_handled[OF assms]])
      (simp add: block_no_status)
  show ?case
    unfolding sync_resources.simps
  proof (rule emits_bind[OF one], goal_cases)
    case (1 x evs)
    let ?P = "\<lambda>r evs'. (\<forall>k'. WroteStatus k' \<notin> set (evs @ evs')) \<and>
      (r = Ret None \<longrightarrow> silent (evs @ evs') \<longrightarrow> list_all (\<lambda>u. handled lib k ns u (evs @ evs')) (u # us))"
    have stop: "y \<noteq> Ret None \<Longrightarrow> emits (State_Monad.return y) ?P" for y
      using 1 by (auto intro!: emits_return)
    have go_on: "emits (sync_resources (krecording c) lib k ns us) ?P" if "x = Ret None"
    proof (rule emits_weaken[OF Cons.IH], goal_cases)
      case (1 r evs')
      have "handled lib k ns u' (evs @ evs')" if "handled lib k ns u' evs'" for u'
        using that by (rule handled_mono) simp
      moreover have "handled lib k ns u (evs @ evs')" if "handled lib k ns u evs"
        using that by (rule handled_mono) simp
      ultimately show ?case using 1 \<open>(\<forall>k'. WroteStatus k' \<notin> set evs) \<and> _\<close> that by (auto simp: list_all_iff)
    qed
    from stop go_on show ?case by (auto split: go.split option.split)
  qed
qed

lemma sync_Krakend_handled:
  assumes lib: "unstructured_lib lib"
    and vals: "prepareValues k = Inr vals"
    and us: "ToUnstructured (kr_KrakendChart r) (kr_Name k) (kr_Namespace k) [(''krakend'', AMap vals)] = Ret (Inr us)"
  shows "emits (sync_Krakend (krecording c) lib r ns k h)
    (\<lambda>_ evs. (\<exists>k'. WroteStatus k' \<in> set evs) \<longrightarrow> silent evs \<longrightarrow> list_all (\<lambda>u. handled lib k ns u evs) us)"
    (is "emits _ ?P")
proof -
  let ?finish = "do { err \<leftarrow> finish_Krakend (krecording c) r k h; State_Monad.return (Ret err) }"
  have mono: "list_all (\<lambda>u. handled lib k ns u (evs @ evs')) us" if "list_all (\<lambda>u. handled lib k ns u evs) us" for evs evs'
    using that by (auto simp: list_all_iff intro: handled_mono)
  have any: "emits ?finish (\<lambda>_ _. True)"
    by (rule emits_bind[OF emits_finish_Krakend]) (rule emits_return, simp)
  have "emits (do {
      e \<leftarrow> sync_resources (krecording c) lib k ns us;
      (case e of Ret None \<Rightarrow> ?finish | other \<Rightarrow> State_Monad.return other)
    }) ?P"
  proof (rule emits_bind[OF sync_resources_handled[OF lib]], goal_cases)
    case (1 e evs)
    have "emits ?finish (\<lambda>r evs'. ?P r (evs @ evs'))" if "e = Ret None"
      by (rule emits_weaken[OF any]) (use 1 that in \<open>auto intro: mono\<close>)
    with 1 show ?case by (auto intro!: emits_return split: go.split option.split)
  qed
  with vals us show ?thesis unfolding sync_Krakend_def by simp
qed

lemma krakend_live_handled:
  assumes "unstructured_lib lib" "prepareValues k = Inr vals"
    and "ToUnstructured (kr_KrakendChart r) (kr_Name k) (kr_Namespace k) [(''krakend'', AMap vals)] = Ret (Inr us)"
  shows "emits (krakend_live (krecording c) lib r req k)
    (\<lambda>_ evs. (\<exists>k'. WroteStatus k' \<in> set evs) \<longrightarrow> silent evs \<longrightarrow> list_all (\<lambda>u. handled lib k (nn_Namespace req) u evs) us)"
  unfolding krakend_live_def krakend_needsSync_def
  by (auto intro!: emits_bind_read emits_return sync_Krakend_handled[OF assms] split: sum.split)

section \<open>Failures that do not stop a run\<close>

lemma answers_bind: "(\<And>s. P (fst (run_state m s))) \<Longrightarrow> (\<And>x s. P x \<Longrightarrow> fst (run_state (f x) s) = y) \<Longrightarrow>
    fst (run_state (State_Monad.bind m f) s) = y"
  by (simp add: run_bind split: prod.split) (metis fst_conv)

lemma answers_write_resource:
  "fst (run_state (do { write_resource c lib k ns u; State_Monad.return (Ret None) }) s) = Ret None"
  by (simp add: run_simps split: prod.split)

definition steady_reads :: "'s KrakendClient \<Rightarrow> bool" where
  "steady_reads c \<longleftrightarrow> (\<forall>nn s. case fst (run_state (Get_ConfigMap (kc_Client c) nn) s) of Inl err \<Rightarrow> IsNotFound err | Inr _ \<Rightarrow> True)"

lemma answers_sync_resource:
  assumes "steady_reads c" "edit_resource lib k u = Ret (Inr v)"
  shows "fst (run_state (sync_resource c lib k ns u) s) = Ret None"
proof (cases "GetKind lib v = ''ConfigMap''")
  case False
  with assms(2) answers_write_resource show ?thesis by (simp add: sync_resource_def)
next
  case True
  let ?nn = "\<lparr>nn_Namespace = ns, nn_Name = GetName lib (addAnnotations lib v [(''reloader.stakater.com/match'', ''true'')])\<rparr>"
  from True assms(2) show ?thesis
    unfolding sync_resource_def Let_def assms(2) go.case sum.case if_P[OF True]
  proof (intro answers_bind[where P = "\<lambda>g. case g of Inl err \<Rightarrow> IsNotFound err | Inr _ \<Rightarrow> True"])
    show "case fst (run_state (Get_ConfigMap (kc_Client c) ?nn) s) of Inl err \<Rightarrow> IsNotFound err | Inr _ \<Rightarrow> True" for s
      using assms(1) unfolding steady_reads_def by blast
  qed (auto simp: run_simps split: sum.splits prod.split)
qed

lemma answers_sync_resources:
  assumes "steady_reads c"
  shows "\<forall>u \<in> set us. \<exists>v. edit_resource lib k u = Ret (Inr v) \<Longrightarrow>
    fst (run_state (sync_resources c lib k ns us) s) = Ret None"
proof (induction us arbitrary: s)
  case (Cons u us)
  then obtain v where "edit_resource lib k u = Ret (Inr v)" by auto
  note one = answers_sync_resource[OF assms this]
  show ?case
    unfolding sync_resources.simps
    by (rule answers_bind[where P = "\<lambda>x. x = Ret None"]) (use one Cons in auto)
qed (simp add: run_return)

text \<open>What a run needs besides the writing of resources: reads, the network policy and the status.\<close>

definition steady :: "'s KrakendClient \<Rightarrow> KrakendReconciler \<Rightarrow> Krakend \<Rightarrow> string \<Rightarrow> bool" where
  "steady c r k h \<longleftrightarrow> steady_reads c \<and>
     (kr_NetpolEnabled r \<longrightarrow> (\<forall>s. fst (run_state (ensureKrakendNetpol c k (kr_Name k)) s) = None)) \<and>
     (\<forall>k' s. fst (run_state (Status_Update_Krakend c k') s) = Inr ()) \<and>
     (kt_SynchronizationHash (kr_Status k) = h \<longrightarrow>
        (\<forall>s. fst (run_state (krakend_needsSync c r (kt_SynchronizationTimestamp (kr_Status k))) s)))"

lemma answers_write_krakend_status:
  "\<forall>k' s. fst (run_state (Status_Update_Krakend c k') s) = Inr () \<Longrightarrow>
     fst (run_state (write_krakend_status c k h) s) = None"
  unfolding write_krakend_status_def Let_def
  by (rule answers_bind[where P = "\<lambda>_. True"], simp, rule answers_bind[where P = "\<lambda>x. x = Inr ()"])
    (simp_all add: run_return)

lemma answers_finish_Krakend:
  assumes "steady c r k h"
  shows "fst (run_state (finish_Krakend c r k h) s) = None"
proof (cases "kr_NetpolEnabled r")
  case True
  show ?thesis
    unfolding finish_Krakend_def if_P[OF True]
    by (rule answers_bind[where P = "\<lambda>x. x = None"])
      (use assms True in \<open>auto simp: steady_def answers_write_krakend_status\<close>)
qed (use assms in \<open>simp add: finish_Krakend_def steady_def answers_write_krakend_status\<close>)

lemma answers_krakend_live:
  assumes st: "steady c r k h" and h: "hash_Krakend lib (kr_Spec k) = Inr h"
    and vals: "prepareValues k = Inr vals"
    and us: "ToUnstructured (kr_KrakendChart r) (kr_Name k) (kr_Namespace k) [(''krakend'', AMap vals)] = Ret (Inr us)"
      "\<forall>u \<in> set us. \<exists>v. edit_resource lib k u = Ret (Inr v)"
  shows "fst (run_state (krakend_live c lib r req k) s) = Ret None"
proof -
  have reads: "steady_reads c" using st by (simp add: steady_def)
  have due: "kt_SynchronizationHash (kr_Status k) = h \<Longrightarrow>
      fst (run_state (krakend_needsSync c r (kt_SynchronizationTimestamp (kr_Status k))) s)" for s
    using st by (simp add: steady_def)
  have sync: "fst (run_state (sync_Krakend c lib r (nn_Namespace req) k h) s) = Ret None" for s
    unfolding sync_Krakend_def vals us(1) sum.case go.case
  proof (rule answers_bind[where P = "\<lambda>x. x = Ret None"])
    have "fst (run_state (do { err \<leftarrow> finish_Krakend c r k h; State_Monad.return (Ret err) }) s) = Ret None" for s
      by (rule answers_bind[where P = "\<lambda>x. x = None"]) (simp_all add: answers_finish_Krakend[OF st] run_return)
    then show "x = Ret None \<Longrightarrow> fst (run_state (case x of
         Ret None \<Rightarrow> do { err \<leftarrow> finish_Krakend c r k h; State_Monad.return (Ret err) }
       | other \<Rightarrow> State_Monad.return other) s) = Ret None" for x s by (simp del: run_state_bind)
  qed (rule answers_sync_resources[OF reads us(2)])
  show ?thesis
    unfolding krakend_live_def h sum.case
  proof (rule answers_bind[where P = "\<lambda>x. \<not> x"])
    show "\<not> fst (run_state (if kt_SynchronizationHash (kr_Status k) = h then do {
          needs \<leftarrow> krakend_needsSync c r (kt_SynchronizationTimestamp (kr_Status k)); State_Monad.return (\<not> needs) }
        else State_Monad.return False) s)" for s
      using due[of s] by (cases "run_state (krakend_needsSync c r (kt_SynchronizationTimestamp (kr_Status k))) s")
        (simp add: run_simps)
    show "\<not> x \<Longrightarrow> fst (run_state (if x then State_Monad.return (Ret None) else do {
          _ \<leftarrow> krakend_needsSync c r (kt_SynchronizationTimestamp (kr_Status k));
          sync_Krakend c lib r (nn_Namespace req) k h }) s) = Ret None" for x s
      using sync by (simp add: run_bind split: prod.split)
  qed
qed

text \<open>Recording changes no answer, so a recorded client is as steady.\<close>

lemma fst_lift:
  "fst (run_state (lift_read m) st) = fst (run_state m (fst st))"
  "fst (run_state (lift_write ev w) st) = fst (run_state w (fst st))"
  "fst (run_state (record_cm nn mc) st) = fst (run_state mc (fst st))"
  by (cases st; simp add: run_simps split: prod.split)+

lemma fst_recorded_netpol:
  "fst (run_state (ensureKrakendNetpol (krecording c) k name) st) = fst (run_state (ensureKrakendNetpol c k name) (fst st))"
  by (cases st) (simp add: ensureKrakendNetpol_def run_simps split: prod.split sum.split)

lemma fst_recorded_needsSync:
  "fst (run_state (krakend_needsSync (krecording c) r t) st) = fst (run_state (krakend_needsSync c r t) (fst st))"
  by (cases st) (simp add: krakend_needsSync_def run_simps split: prod.split)

lemma steady_krecording: "steady c r k h \<Longrightarrow> steady (krecording c) r k h"
  by (simp add: steady_def steady_reads_def fst_lift fst_recorded_netpol fst_recorded_needsSync)

text \<open>A run without an error ends with the status, unless it had nothing to do.\<close>

definition ends_with_status :: "string \<Rightarrow> kevent list \<Rightarrow> bool" where
  "ends_with_status h evs \<longleftrightarrow> (\<exists>pre k'. evs = pre @ [WroteStatus k'] \<and> kt_SynchronizationHash (kr_Status k') = h)"

lemma ends_with_status_append: "ends_with_status h evs \<Longrightarrow> ends_with_status h (pre @ evs)"
  unfolding ends_with_status_def by (metis append_assoc)

lemma emits_status_ends:
  "emits (write_krakend_status (krecording c) k h) (\<lambda>r evs. r = None \<longrightarrow> ends_with_status h evs)"
  unfolding write_krakend_status_def Let_def
  by (auto simp: ends_with_status_def intro!: emits_bind_read emits_bind_write emits_bind_record_event emits_return split: sum.split)

lemma emits_finish_ends:
  "emits (finish_Krakend (krecording c) r k h) (\<lambda>r evs. r = None \<longrightarrow> ends_with_status h evs)"
proof -
  have "emits (case e of
           Some err \<Rightarrow> State_Monad.return (Some (WrapW ''ensuring krakend egress netpol'' err))
         | None \<Rightarrow> write_krakend_status (krecording c) k h) (\<lambda>r evs'. r = None \<longrightarrow> ends_with_status h (evs @ evs'))" for e evs
    by (auto intro!: emits_return emits_weaken[OF emits_status_ends] ends_with_status_append split: option.split)
  then show ?thesis
    unfolding finish_Krakend_def by (auto intro: emits_status_ends emits_bind[OF emits_ensureKrakendNetpol])
qed

lemma emits_sync_ends:
  assumes "unstructured_lib lib"
  shows "emits (sync_Krakend (krecording c) lib r ns k h) (\<lambda>a evs. a = Ret None \<longrightarrow> ends_with_status h evs)"
proof -
  have fin: "emits (do { err \<leftarrow> finish_Krakend (krecording c) r k h; State_Monad.return (Ret err) })
      (\<lambda>a evs'. a = Ret None \<longrightarrow> ends_with_status h (evs @ evs'))" for evs
    by (rule emits_bind[OF emits_finish_ends], rule emits_return) (auto intro: ends_with_status_append)
  have "emits (do {
      e \<leftarrow> sync_resources (krecording c) lib k ns us;
      (case e of
         Ret None \<Rightarrow> do { err \<leftarrow> finish_Krakend (krecording c) r k h; State_Monad.return (Ret err) }
       | other \<Rightarrow> State_Monad.return other)
    }) (\<lambda>a evs. a = Ret None \<longrightarrow> ends_with_status h evs)" for us
    by (rule emits_bind[OF sync_resources_handled[OF assms]])
      (auto intro!: emits_return fin split: go.split option.split)
  then show ?thesis
    unfolding sync_Krakend_def by (auto intro!: emits_return split: sum.split go.split)
qed

text \<open>The run itself is not skipped when the window says so.\<close>

lemma emits_live_due:
  assumes "steady c r k h" "hash_Krakend lib (kr_Spec k) = Inr h"
    and sync: "emits (sync_Krakend (krecording c) lib r (nn_Namespace req) k h) P"
  shows "emits (krakend_live (krecording c) lib r req k) P"
proof -
  have due: "emits (krakend_needsSync (krecording c) r (kt_SynchronizationTimestamp (kr_Status k)))
      (\<lambda>x evs. (kt_SynchronizationHash (kr_Status k) = h \<longrightarrow> x) \<and> evs = [])"
    unfolding emits_def
  proof (intro allI impI)
    fix s tr x s' tr'
    assume run: "run_state (krakend_needsSync (krecording c) r (kt_SynchronizationTimestamp (kr_Status k))) (s, tr) = (x, (s', tr'))"
    have "kt_SynchronizationHash (kr_Status k) = h \<longrightarrow>
        fst (run_state (krakend_needsSync (krecording c) r (kt_SynchronizationTimestamp (kr_Status k))) (s, tr))"
      using assms(1) by (simp add: fst_recorded_needsSync steady_def)
    with run show "\<exists>evs. tr' = tr @ evs \<and> (kt_SynchronizationHash (kr_Status k) = h \<longrightarrow> x) \<and> evs = []"
      by (auto simp: krakend_needsSync_def run_simps split: prod.splits)
  qed
  show ?thesis
    unfolding krakend_live_def assms(2) sum.case
    by (rule emits_bind[where P = "\<lambda>x evs. \<not> x \<and> evs = []"])
      (auto intro!: emits_bind[OF due] emits_return sync split: if_splits)
qed

section \<open>An API server that refuses every creation\<close>

definition refuses :: "'s KrakendClient \<Rightarrow> bool" where
  "refuses c \<longleftrightarrow> (\<forall>u s. \<exists>err. fst (run_state (Create_Unstructured c u) s) = Inl err \<and> \<not> IsAlreadyExists err)"

lemma emits_answer:
  assumes "emits m P" "\<And>s. fst (run_state m s) = x"
  shows "emits m (\<lambda>r evs. r = x \<and> P r evs)"
  using assms unfolding emits_def by (metis fst_conv)

definition nothing_written :: "kevent list \<Rightarrow> bool" where
  "nothing_written evs \<longleftrightarrow> (\<forall>w. WroteResource w True \<notin> set evs)"

lemma nothing_written_simps [simp]:
  "nothing_written []" "nothing_written (ReadConfigMap nn b # evs) = nothing_written evs"
  "nothing_written (RecordedEvent t # evs) = nothing_written evs"
  "nothing_written (WroteStatus k # evs) = nothing_written evs" "nothing_written (WroteNetpol np # evs) = nothing_written evs"
  "nothing_written (WroteResource w b # evs) \<longleftrightarrow> \<not> b \<and> nothing_written evs"
  "nothing_written (xs @ ys) \<longleftrightarrow> nothing_written xs \<and> nothing_written ys"
  by (auto simp: nothing_written_def)

lemma emits_refused_write:
  assumes "refuses c"
  shows "emits (lift_write (WroteResource u) (Create_Unstructured c u))
    (\<lambda>x evs. (\<exists>err. x = Inl err \<and> \<not> IsAlreadyExists err) \<and> nothing_written evs)"
  unfolding emits_def
proof (intro allI impI)
  fix s tr x s' tr'
  assume run: "run_state (lift_write (WroteResource u) (Create_Unstructured c u)) (s, tr) = (x, (s', tr'))"
  obtain err where err: "fst (run_state (Create_Unstructured c u) s) = Inl err" "\<not> IsAlreadyExists err"
    using assms unfolding refuses_def by blast
  with run have "x = Inl err" "tr' = tr @ [WroteResource u False]"
    by (auto simp: lift_write_def is_ok_def split: prod.splits)
  with err(2) show "\<exists>evs. tr' = tr @ evs \<and> (\<exists>err. x = Inl err \<and> \<not> IsAlreadyExists err) \<and> nothing_written evs" by simp
qed

lemma createOrUpdate_refused:
  assumes "refuses c"
  shows "emits (createOrUpdate (krecording c) lib u) (\<lambda>_. nothing_written)"
  unfolding createOrUpdate_def krecording_simps
  by (rule emits_bind[OF emits_refused_write[OF assms]])
    (auto simp: IgnoreAlreadyExists_def intro!: emits_return)

lemma write_resource_refused:
  assumes "refuses c"
  shows "emits (write_resource (krecording c) lib k ns u) (\<lambda>_. nothing_written)"
  unfolding write_resource_def Let_def
  by (rule emits_bind[OF createOrUpdate_refused[OF assms]])
    (auto intro!: emits_return emits_record_event split: option.split)

lemma sync_resources_refused:
  assumes "refuses c"
  shows "emits (sync_resources (krecording c) lib k ns us) (\<lambda>_. nothing_written)"
proof (induction us)
  case Nil
  show ?case by (auto intro!: emits_return)
next
  case (Cons u us)
  have wr: "emits (do { write_resource (krecording c) lib k ns v; State_Monad.return (Ret None) }) (\<lambda>_. nothing_written)" for v
    by (rule emits_bind[OF write_resource_refused[OF assms]]) (auto intro!: emits_return)
  have one: "emits (sync_resource (krecording c) lib k ns u) (\<lambda>_. nothing_written)"
    by (auto simp: sync_resource_def Let_def intro!: emits_bind_record_cm emits_return wr split: sum.split go.split)
  show ?case
    unfolding sync_resources.simps
    by (rule emits_bind[OF one]) (auto intro!: emits_return emits_weaken[OF Cons.IH] split: go.split option.split)
qed

lemma closing_nothing_written: "closing h evs \<Longrightarrow> nothing_written evs"
  by (auto simp: nothing_written_def elim!: closing_events)

lemma sync_Krakend_refused:
  assumes "refuses c"
  shows "emits (sync_Krakend (krecording c) lib r ns k h) (\<lambda>_. nothing_written)"
proof -
  have fin: "emits (do { err \<leftarrow> finish_Krakend (krecording c) r k h; State_Monad.return (Ret err) }) (\<lambda>_. nothing_written)"
    by (rule emits_bind[OF emits_finish_Krakend], rule emits_return) (simp add: closing_nothing_written)
  have "emits (do {
      e \<leftarrow> sync_resources (krecording c) lib k ns us;
      (case e of
         Ret None \<Rightarrow> do { err \<leftarrow> finish_Krakend (krecording c) r k h; State_Monad.return (Ret err) }
       | other \<Rightarrow> State_Monad.return other)
    }) (\<lambda>_. nothing_written)" for us
    by (rule emits_bind[OF sync_resources_refused[OF assms]])
      (auto intro!: emits_return emits_weaken[OF fin] split: go.split option.split)
  then show ?thesis
    unfolding sync_Krakend_def by (auto intro!: emits_return split: sum.split go.split)
qed

end
