(* ===== verification/Krakend_Properties.thy ===== *)
theory Krakend_Properties
  imports Krakend_Traces Sync_Properties
begin

text \<open>
  The properties of the Krakend controller, and their evaluation on the executable cluster, which
  is extended by a store of unstructured objects and by the accessors over their fields.
\<close>

section \<open>Accessors over fields\<close>

definition str_at :: "string list \<Rightarrow> attrs \<Rightarrow> string" where
  "str_at p u = (case at p (AMap u) of Some (AStr s) \<Rightarrow> s | _ \<Rightarrow> [])"

definition set_meta :: "string \<Rightarrow> any \<Rightarrow> attrs \<Rightarrow> attrs" where
  "set_meta key v u =
     AList.update ''metadata'' (AMap (AList.update key v (sub_map (map_of u ''metadata'')))) u"

fun str_entry :: "string \<times> any \<Rightarrow> (string \<times> string) option" where
  "str_entry (k, AStr v) = Some (k, v)"
| "str_entry (k, v) = None"

definition any_owner :: "OwnerReference \<Rightarrow> any" where
  "any_owner ref = AMap [(''apiVersion'', AStr (or_APIVersion ref)), (''kind'', AStr (or_Kind ref)),
     (''name'', AStr (or_Name ref)), (''uid'', AStr (or_UID ref))]"

definition field_lib :: KrakendLib where
  "field_lib =
     \<lparr>kl_Hash = (\<lambda>spec. Inr (word_of_nat (length (ks_AuthProviders spec)))),
      GetKind = str_at [''kind''],
      GetName = str_at [''metadata'', ''name''],
      GetAnnotations = (\<lambda>u. case at [''metadata'', ''annotations''] (AMap u) of
        Some (AMap m) \<Rightarrow> Some (List.map_filter str_entry m) | _ \<Rightarrow> None),
      SetAnnotations = (\<lambda>u m. set_meta ''annotations'' (AMap (map (\<lambda>(k, v). (k, AStr v)) m)) u),
      SetNamespace = (\<lambda>u ns. set_meta ''namespace'' (AStr ns) u),
      SetOwnerReferences = (\<lambda>u refs. set_meta ''ownerReferences'' (AList (map any_owner refs)) u),
      GetResourceVersion = str_at [''metadata'', ''resourceVersion''],
      SetResourceVersion = (\<lambda>u v. set_meta ''resourceVersion'' (AStr v) u),
      FromUnstructured = (\<lambda>u. Inr \<lparr>de_Name = str_at [''metadata'', ''name''] u, de_TemplateName = [],
         de_TemplateLabels = Some [], de_TemplateAnnotations = Some [], de_Containers = [], de_Other = AMap u\<rparr>),
      FromDeployment = (\<lambda>d. case de_Other d of AMap u \<Rightarrow> Inr u | _ \<Rightarrow> Inl (Msg ''no object''))\<rparr>"

lemma at_set_meta:
  "at (''metadata'' # k # p) (AMap (set_meta key v u)) =
     (if k = key then at p v else at (''metadata'' # k # p) (AMap u))"
  "at [''kind''] (AMap (set_meta key v u)) = at [''kind''] (AMap u)"
  by (auto simp: set_meta_def update_conv' sub_map_def split: option.splits any.splits)

lemma map_filter_str_entry: "List.map_filter str_entry (map (\<lambda>(k, v). (k, AStr v)) m) = m"
  by (induction m) (auto simp: List.map_filter_simps)

interpretation fields: unstructured_lib field_lib
  by unfold_locales
    (simp_all add: field_lib_def str_at_def at_set_meta map_filter_str_entry del: at.simps(2))

section \<open>A store of unstructured objects\<close>

type_synonym kcluster = "cluster \<times> attrs list"

definition on_base :: "(cluster, 'a) io \<Rightarrow> (kcluster, 'a) io" where
  "on_base m = State (\<lambda>(s, us). case run_state m s of (x, s') \<Rightarrow> (x, (s', us)))"

definition base_client :: "kcluster Client" where
  "base_client =
     \<lparr>Get_ApiEndpoints = (\<lambda>nn. on_base (Get_ApiEndpoints mem_client nn)),
      Get_Krakend = (\<lambda>nn. on_base (Get_Krakend mem_client nn)),
      Get_ConfigMap = (\<lambda>nn. on_base (Get_ConfigMap mem_client nn)),
      Get_NetworkPolicy = (\<lambda>nn. on_base (Get_NetworkPolicy mem_client nn)),
      List_ApiEndpoints = (\<lambda>ns. on_base (List_ApiEndpoints mem_client ns)),
      Create_NetworkPolicy = (\<lambda>np. on_base (Create_NetworkPolicy mem_client np)),
      Update_NetworkPolicy = (\<lambda>np. on_base (Update_NetworkPolicy mem_client np)),
      Update_ConfigMap = (\<lambda>cm. on_base (Update_ConfigMap mem_client cm)),
      Update_ApiEndpoints = (\<lambda>a. on_base (Update_ApiEndpoints mem_client a)),
      Status_Update_ApiEndpoints = (\<lambda>a. on_base (Status_Update_ApiEndpoints mem_client a)),
      Now = on_base (Now mem_client)\<rparr>"

definition object_key :: "attrs \<Rightarrow> string \<times> string \<times> string" where
  "object_key u = (str_at [''kind''] u, str_at [''metadata'', ''namespace''] u, str_at [''metadata'', ''name''] u)"

text \<open>Kinds in \<open>forbidden\<close> cannot be created.\<close>

definition object_client :: "string list \<Rightarrow> kcluster KrakendClient" where
  "object_client forbidden =
     \<lparr>kc_Client = base_client,
      Create_Unstructured = (\<lambda>u. State (\<lambda>(s, us).
        if str_at [''kind''] u \<in> set forbidden then (Inl (KubeErr (OtherApiError ''forbidden'')), (s, us))
        else if object_key u \<in> object_key ` set us then (Inl (KubeErr (AlreadyExists (str_at [''metadata'', ''name''] u))), (s, us))
        else (Inr (), (s, u # us)))),
      Get_Unstructured = (\<lambda>u. State (\<lambda>(s, us).
        (case find (\<lambda>v. object_key v = object_key u) us of
           None \<Rightarrow> (Inl (KubeErr (NotFound (str_at [''metadata'', ''name''] u))), (s, us))
         | Some v \<Rightarrow> (Inr v, (s, us))))),
      Update_Unstructured = (\<lambda>u. State (\<lambda>(s, us).
        (Inr (), (s, map (\<lambda>v. if object_key v = object_key u then u else v) us)))),
      Status_Update_Krakend = (\<lambda>k. on_base (write_op (\<lambda>s. locked kr_Meta (cl_krakends s) k (\<lambda>old.
        s\<lparr>cl_krakends := store_obj kr_Meta (old\<lparr>kr_Status := kr_Status k\<rparr>) (cl_krakends s)\<rparr>)))),
      Eventf = (\<lambda>k type reason msg. State_Monad.return ())\<rparr>"

lemma run_on_base [run_simps]:
  "run_state (on_base m) (s, us) = (case run_state m s of (x, s') \<Rightarrow> (x, (s', us)))"
  by (simp add: on_base_def)

section \<open>Charts of a few resources\<close>

definition partials_object :: attrs where
  "partials_object = [(''kind'', AStr ''ConfigMap''), (''metadata'', AMap [(''name'', AStr ''ns1-krakend-partials'')])]"

definition service_object :: attrs where
  "service_object = [(''kind'', AStr ''Service''), (''metadata'', AMap [(''name'', AStr ''ns1-krakend'')])]"

definition deployment_object :: attrs where
  "deployment_object = [(''kind'', AStr ''Deployment''), (''metadata'', AMap [(''name'', AStr ''ns1-krakend-server'')])]"

definition release_chart :: "attrs list \<Rightarrow> Chart" where
  "release_chart us =
     \<lparr>ch_ToRenderValues = (\<lambda>values name ns. Inr [(''Values'', AValues values)]),
      ch_Render = (\<lambda>vals. Inr (map (\<lambda>u. (str_at [''metadata'', ''name''] u @ ''.yaml'', str_at [''metadata'', ''name''] u)) us)),
      ch_yaml_Unmarshal = (\<lambda>doc. case find (\<lambda>u. str_at [''metadata'', ''name''] u = doc) us of
        Some u \<Rightarrow> Inr (AMap u) | None \<Rightarrow> Inl (Msg ''no document''))\<rparr>"

definition release_reconciler :: "attrs list \<Rightarrow> bool \<Rightarrow> KrakendReconciler" where
  "release_reconciler us netpols =
     \<lparr>kr_SyncInterval = 60000000000, kr_KrakendChart = release_chart us, kr_NetpolEnabled = netpols\<rparr>"

definition release_cluster :: "ConfigMap list \<Rightarrow> kcluster" where
  "release_cluster cms = ((sample_cluster [] False)\<lparr>cl_cms := cms\<rparr>, [])"

definition release_trace :: "string list \<Rightarrow> attrs list \<Rightarrow> ConfigMap list \<Rightarrow> kevent list" where
  "release_trace forbidden us cms =
     krakend_trace (object_client forbidden) field_lib (release_reconciler us False)
       (Krakend_NamespacedName sample_krakend) (release_cluster cms)"

lemma release_renders:
  assumes "prepareValues sample_krakend = Inr vals" "distinct (map (str_at [''metadata'', ''name'']) us)"
    and "list_all (\<lambda>u. str_at [''metadata'', ''name''] u \<notin> {[], [CHR 10]}) us"
  shows "ToUnstructured (release_chart us) name ns [(''krakend'', AMap vals)] = Ret (Inr us)"
proof -
  let ?nm = "str_at [''metadata'', ''name'']"
  have "plain_attrs vals" by (rule prepareValues_plain[OF sample_ok(1) assms(1) sample_resources_plain])
  then obtain m where m: "overrideValues (sub_map None) vals = Ret m" using overrideValues_returns_iff by blast
  have "find (\<lambda>v. ?nm v = ?nm u) us = Some u" if "u \<in> set us" for u
    using assms(2) that by (induction us) auto
  then have "parses_to (release_chart us) (?nm u @ ''.yaml'', ?nm u) u" if "u \<in> set us" for u
    using that by (simp add: parses_to_def release_chart_def)
  then have "list_all2 (parses_to (release_chart us)) (map (\<lambda>u. (?nm u @ ''.yaml'', ?nm u)) us) us"
    by (simp add: list_all2_map1 list.rel_refl_strong)
  moreover have "filter (\<lambda>f. \<not> skips (fst f) (snd f)) (map (\<lambda>u. (?nm u @ ''.yaml'', ?nm u)) us) =
      map (\<lambda>u. (?nm u @ ''.yaml'', ?nm u)) us"
    using assms(3) by (auto simp: skips_def list_all_iff str_HasSuffix_append filter_id_conv)
  ultimately have "ToUnstructured_loop (release_chart us) (map (\<lambda>u. (?nm u @ ''.yaml'', ?nm u)) us) = Ret (Inr us)"
    by (simp add: ToUnstructured_loop_Inr)
  with m show ?thesis by (simp add: ToUnstructured_def render_def release_chart_def)
qed

lemmas release_defs = release_trace_def release_reconciler_def release_cluster_def krakend_trace_def sample_run_defs

lemmas krakend_reconcile_defs = krakend_Reconcile_def krakend_live_def sync_Krakend_def sync_resource_def edit_resource_def
  write_resource_def createOrUpdate_def finish_Krakend_def write_krakend_status_def krakend_needsSync_def
  Krakend_NamespacedName_def

definition desired_sample :: "attrs \<Rightarrow> attrs" where
  "desired_sample u = desired field_lib sample_krakend ''ns1'' u"

lemma object_client_simps:
  "kc_Client (object_client fb) = base_client"
  "Get_Krakend base_client nn = on_base (Get_Krakend mem_client nn)"
  "Get_ConfigMap base_client nn = on_base (Get_ConfigMap mem_client nn)"
  "Now base_client = on_base (Now mem_client)"
  "run_state (Create_Unstructured (object_client fb) u) (s, us) =
     (if str_at [''kind''] u \<in> set fb then (Inl (KubeErr (OtherApiError ''forbidden'')), (s, us))
      else if object_key u \<in> object_key ` set us then (Inl (KubeErr (AlreadyExists (str_at [''metadata'', ''name''] u))), (s, us))
      else (Inr (), (s, u # us)))"
  "Status_Update_Krakend (object_client fb) k = on_base (write_op (\<lambda>s. locked kr_Meta (cl_krakends s) k (\<lambda>old.
     s\<lparr>cl_krakends := store_obj kr_Meta (old\<lparr>kr_Status := kr_Status k\<rparr>) (cl_krakends s)\<rparr>)))"
  "run_state (Eventf (object_client fb) k ty reason msg) st = ((), st)"
  by (simp_all add: object_client_def base_client_def run_simps)

lemma objects_kind_name:
  "GetKind field_lib partials_object = ''ConfigMap''" "GetName field_lib partials_object = ''ns1-krakend-partials''"
  "GetKind field_lib service_object = ''Service''" "GetName field_lib service_object = ''ns1-krakend''"
  by (simp_all add: field_lib_def str_at_def partials_object_def service_object_def)

lemma sample_krakend_facts:
  "get_obj kr_Meta [sample_krakend] \<lparr>nn_Namespace = ''ns1'', nn_Name = ''ns1''\<rparr> = Inr sample_krakend"
  "kr_Name sample_krakend = ''ns1''" "kr_Namespace sample_krakend = ''ns1''"
  "kt_SynchronizationHash (kr_Status sample_krakend) = []"
  "hash_Krakend field_lib (kr_Spec sample_krakend) = Inr ''1''"
  "locked kr_Meta [sample_krakend] (sample_krakend\<lparr>kr_Status := st\<rparr>) f = Inr (f sample_krakend)"
  "get_obj cm_Meta [] nn = Inl (KubeErr (NotFound (nn_Name nn)))"
  "get_obj cm_Meta [sample_cm] \<lparr>nn_Namespace = ''ns1'', nn_Name = ''ns1-krakend-partials''\<rparr> = Inr sample_cm"
  by (simp_all add: sample_defs sample_cm_def mem_defs hash_Krakend_def field_lib_def)

lemma sample_cluster_facts:
  "cl_krakends (sample_cluster apis b) = [sample_krakend]"
  by (simp add: sample_cluster_def)

lemma desired_key:
  "object_key (desired_sample partials_object) = (''ConfigMap'', ''ns1'', ''ns1-krakend-partials'')"
  "object_key (desired_sample service_object) = (''Service'', ''ns1'', ''ns1-krakend'')"
  by (simp_all add: desired_sample_def desired_def object_key_def addAnnotations_def field_lib_def str_at_def set_meta_def
      partials_object_def service_object_def sub_map_def)

lemma desired_flip:
  "SetOwnerReferences field_lib (SetNamespace field_lib (addAnnotations field_lib partials_object
     [(''reloader.stakater.com/match'', ''true'')]) ''ns1'') (kr_ownerRef sample_krakend) = desired_sample partials_object"
  "SetOwnerReferences field_lib (SetNamespace field_lib service_object ''ns1'') (kr_ownerRef sample_krakend) =
     desired_sample service_object"
  by (simp_all add: desired_sample_def desired_def objects_kind_name)

lemmas release_simps = release_trace_def krakend_trace_def krakend_reconcile_defs release_reconciler_def release_cluster_def
  run_simps object_client_simps mem_client_simps sample_krakend_facts sample_cluster_facts objects_kind_name
  fields.addAnnotations_name desired_flip desired_key Let_def

lemma sample_renders:
  assumes "prepareValues sample_krakend = Inr vals"
  shows "ToUnstructured (release_chart [partials_object, service_object]) name ns [(''krakend'', AMap vals)] =
      Ret (Inr [partials_object, service_object])"
    "ToUnstructured (release_chart [service_object]) name ns [(''krakend'', AMap vals)] = Ret (Inr [service_object])"
  by (rule release_renders[OF assms]; simp add: str_at_def partials_object_def service_object_def)+

lemma release_trace_fresh:
  "\<exists>k'. release_trace [] [partials_object, service_object] [] =
     [ReadConfigMap \<lparr>nn_Namespace = ''ns1'', nn_Name = ''ns1-krakend-partials''\<rparr> True,
      WroteResource (desired_sample partials_object) True,
      WroteResource (desired_sample service_object) True, WroteStatus k']"
proof -
  obtain vals where vals: "prepareValues sample_krakend = Inr vals" using sample_values by blast
  with sample_renders[OF vals] show ?thesis by (simp add: release_simps)
qed

lemma release_trace_existing:
  "\<exists>k'. release_trace [] [partials_object, service_object] [sample_cm] =
     [ReadConfigMap \<lparr>nn_Namespace = ''ns1'', nn_Name = ''ns1-krakend-partials''\<rparr> False,
      WroteResource (desired_sample service_object) True, WroteStatus k']"
proof -
  obtain vals where vals: "prepareValues sample_krakend = Inr vals" using sample_values by blast
  with sample_renders[OF vals] show ?thesis by (simp add: release_simps str_HasSuffix_def)
qed

section \<open>Properties\<close>

text \<open>
  C22. Published endpoints are never overwritten. Whatever the cluster answers, the controller writes a
  ConfigMap whose name ends in \<^verbatim>\<open>-partials\<close> only when the last ConfigMap it looked up before the
  write was that one, in the namespace of the request, and it did not exist.
\<close>

theorem partials_not_overwritten:
  assumes "unstructured_lib lib"
    and "krakend_trace c lib r req s = pre @ WroteResource w ok # post"
    and "GetKind lib w = ''ConfigMap''" "str_HasSuffix (GetName lib w) ''-partials''"
  shows "\<exists>pre' mid. pre = pre' @ ReadConfigMap \<lparr>nn_Namespace = nn_Namespace req, nn_Name = GetName lib w\<rparr> True # mid \<and>
    (\<forall>ev \<in> set mid. \<not> is_read ev)"
proof -
  from assms(2) have "krakend_trace c lib r req s \<noteq> []" by simp
  from unstructured_lib.krakend_trace_shape[OF assms(1) this] have "guarded lib (nn_Namespace req) (krakend_trace c lib r req s)"
    using run_shape_guarded by blast
  with assms(2-4) show ?thesis unfolding guarded_def is_partials_def by blast
qed

theorem partials_not_overwritten_witness:
  "\<exists>post. release_trace [] [partials_object, service_object] [] =
     [ReadConfigMap \<lparr>nn_Namespace = ''ns1'', nn_Name = ''ns1-krakend-partials''\<rparr> True] @
     WroteResource (desired_sample partials_object) True # post \<and>
   (\<exists>pre' mid. [ReadConfigMap \<lparr>nn_Namespace = ''ns1'', nn_Name = ''ns1-krakend-partials''\<rparr> True] =
      pre' @ ReadConfigMap \<lparr>nn_Namespace = ''ns1'', nn_Name = ''ns1-krakend-partials''\<rparr> True # mid \<and>
      (\<forall>ev \<in> set mid. \<not> is_read ev))"
proof -
  obtain k' where tr: "release_trace [] [partials_object, service_object] [] =
     [ReadConfigMap \<lparr>nn_Namespace = ''ns1'', nn_Name = ''ns1-krakend-partials''\<rparr> True] @
     WroteResource (desired_sample partials_object) True #
     [WroteResource (desired_sample service_object) True, WroteStatus k']"
    using release_trace_fresh by auto
  have nm: "GetKind field_lib (desired_sample partials_object) = ''ConfigMap''"
    "GetName field_lib (desired_sample partials_object) = ''ns1-krakend-partials''"
    using desired_key(1) by (simp_all add: object_key_def field_lib_def)
  have "str_HasSuffix (GetName field_lib (desired_sample partials_object)) ''-partials''"
    by (simp add: nm str_HasSuffix_def)
  from partials_not_overwritten[OF fields.unstructured_lib_axioms tr[unfolded release_trace_def] nm(1) this] tr nm
  show ?thesis by (auto simp: Krakend_NamespacedName_def sample_krakend_facts)
qed

text \<open>
  C24. The status comes last. Whatever the cluster answers, a run writes the status at most once, after
  every resource and network policy; what is recorded as synchronised is the hash of the
  specification that was read, and after it at most one event is left.
\<close>

theorem krakend_status_last:
  assumes "unstructured_lib lib"
    and "krakend_trace c lib r req s = pre @ WroteStatus k' # post"
  shows "(\<exists>k s1. run_state (Get_Krakend (kc_Client c) req) s = (Inr k, s1) \<and>
      hash_Krakend lib (kr_Spec k) = Inr (kt_SynchronizationHash (kr_Status k'))) \<and>
    (\<forall>k''. WroteStatus k'' \<notin> set pre) \<and> (\<exists>ts. post = map RecordedEvent ts \<and> length ts \<le> 1)"
proof -
  from assms(2) have "krakend_trace c lib r req s \<noteq> []" by simp
  from unstructured_lib.krakend_trace_shape[OF assms(1) this] assms(2) run_shape_status
  show ?thesis by metis
qed

theorem krakend_status_last_witness:
  "\<exists>pre k'. release_trace [] [partials_object, service_object] [sample_cm] = pre @ [WroteStatus k'] \<and>
     kt_SynchronizationHash (kr_Status k') = ''1'' \<and> (\<forall>k''. WroteStatus k'' \<notin> set pre)"
proof -
  obtain k' where tr: "release_trace [] [partials_object, service_object] [sample_cm] =
     [ReadConfigMap \<lparr>nn_Namespace = ''ns1'', nn_Name = ''ns1-krakend-partials''\<rparr> False,
      WroteResource (desired_sample service_object) True] @ WroteStatus k' # []"
    using release_trace_existing by auto
  obtain s1 where get: "run_state (Get_Krakend (kc_Client (object_client [])) (Krakend_NamespacedName sample_krakend))
      (release_cluster [sample_cm]) = (Inr sample_krakend, s1)"
    by (simp add: release_simps)
  note last = krakend_status_last[OF fields.unstructured_lib_axioms tr[unfolded release_trace_def]]
  from last get sample_krakend_facts(5) have "kt_SynchronizationHash (kr_Status k') = ''1''" by simp
  with last tr show ?thesis by blast
qed

text \<open>
  C23. A run that reports no failure applies the chart. When a run gets as far as the status and leaves
  no event, every resource of the rendered chart was written successfully, as edited by the
  controller, in the namespace of the request and owned by the Krakend, or it is the ConfigMap of the
  published endpoints and exists already.
\<close>

theorem krakend_applies_chart:
  assumes lib: "unstructured_lib lib"
    and read: "run_state (Get_Krakend (kc_Client c) req) s = (Inr k, s1)"
    and vals: "prepareValues k = Inr vals"
    and us: "ToUnstructured (kr_KrakendChart r) (kr_Name k) (kr_Namespace k) [(''krakend'', AMap vals)] = Ret (Inr us)"
    and status: "WroteStatus k' \<in> set (krakend_trace c lib r req s)"
    and silent: "\<forall>t. RecordedEvent t \<notin> set (krakend_trace c lib r req s)"
    and u: "u \<in> set us"
  shows "\<exists>v. edit_resource lib k u = Ret (Inr v) \<and>
    (written lib (desired lib k (nn_Namespace req) v) (krakend_trace c lib r req s) \<or>
     is_partials lib v \<and>
     ReadConfigMap \<lparr>nn_Namespace = nn_Namespace req, nn_Name = GetName lib v\<rparr> False
       \<in> set (krakend_trace c lib r req s))"
proof -
  obtain e s' tr where "run_state (krakend_live (krecording c) lib r req k) (s1, []) = (e, (s', tr))"
    "(\<exists>k'. WroteStatus k' \<in> set tr) \<longrightarrow> silent tr \<longrightarrow> list_all (\<lambda>u. handled lib k (nn_Namespace req) u tr) us"
    by (rule run_emits[OF krakend_live_handled[OF lib vals us]])
  with read status silent u show ?thesis
    unfolding handled_def[symmetric] by (auto simp: krakend_trace_eq silent_def list_all_iff)
qed

theorem krakend_applies_chart_witness:
  "\<exists>tr. tr = release_trace [] [partials_object, service_object] [] \<and>
     written field_lib (desired_sample service_object) tr"
proof -
  obtain vals where vals: "prepareValues sample_krakend = Inr vals" using sample_values by blast
  obtain k' where tr: "release_trace [] [partials_object, service_object] [] =
     [ReadConfigMap \<lparr>nn_Namespace = ''ns1'', nn_Name = ''ns1-krakend-partials''\<rparr> True,
      WroteResource (desired_sample partials_object) True,
      WroteResource (desired_sample service_object) True, WroteStatus k']"
    using release_trace_fresh by auto
  obtain s1 where get: "run_state (Get_Krakend (kc_Client (object_client [])) (Krakend_NamespacedName sample_krakend))
      (release_cluster []) = (Inr sample_krakend, s1)"
    by (simp add: release_simps)
  have "ToUnstructured (kr_KrakendChart (release_reconciler [partials_object, service_object] False))
      (kr_Name sample_krakend) (kr_Namespace sample_krakend) [(''krakend'', AMap vals)] =
      Ret (Inr [partials_object, service_object])"
    by (simp add: release_reconciler_def sample_renders[OF vals])
  from krakend_applies_chart[OF fields.unstructured_lib_axioms get vals this, folded release_trace_def, of k' service_object] tr
  show ?thesis
    by (auto simp: edit_resource_def objects_kind_name is_partials_def desired_sample_def Krakend_NamespacedName_def
        sample_krakend_facts)
qed

text \<open>
  C25. Failures are recorded as success. Take any chart, Deployments and ConfigMaps included, whose
  Deployments can be edited, a run that is due, and a client on which ConfigMaps are found or not found,
  the network policy, if it is switched on, is put in place and the status can be written. Whatever
  the API server answers to the creation, the lookup and the update of the chart's resources, the run
  answers no error, so it is not repeated, and ends with a status that holds the hash of the
  specification; this is so even if every creation is refused and nothing was written.
\<close>

theorem krakend_failures_recorded_as_success:
  assumes lib: "unstructured_lib lib"
    and read: "run_state (Get_Krakend (kc_Client c) req) s = (Inr k, s1)"
    and hash: "hash_Krakend lib (kr_Spec k) = Inr h"
    and vals: "prepareValues k = Inr vals"
    and us: "ToUnstructured (kr_KrakendChart r) (kr_Name k) (kr_Namespace k) [(''krakend'', AMap vals)] = Ret (Inr us)"
    and edits: "\<forall>u \<in> set us. \<exists>v. edit_resource lib k u = Ret (Inr v)"
    and steady: "steady c r k h"
  shows "fst (run_state (krakend_Reconcile c lib r req) s) = Ret None \<and>
    (\<exists>pre k'. krakend_trace c lib r req s = pre @ [WroteStatus k'] \<and> kt_SynchronizationHash (kr_Status k') = h) \<and>
    (refuses c \<longrightarrow> (\<forall>w. WroteResource w True \<notin> set (krakend_trace c lib r req s)))"
proof -
  let ?live = "krakend_live (krecording c) lib r req k"
  have "emits ?live (\<lambda>a evs. a = Ret None \<longrightarrow> ends_with_status h evs)"
    by (rule emits_live_due[OF steady hash emits_sync_ends[OF lib]])
  from emits_answer[OF this answers_krakend_live[OF steady_krecording[OF steady] hash vals us edits]]
  obtain e s' tr where live: "run_state ?live (s1, []) = (e, (s', tr))" and ends: "ends_with_status h tr"
    by (rule run_emits) simp
  have trace: "krakend_trace c lib r req s = tr" by (simp add: krakend_trace_eq read live)
  have "nothing_written tr" if "refuses c"
  proof -
    from steady hash sync_Krakend_refused[OF that] have "emits ?live (\<lambda>_. nothing_written)" by (rule emits_live_due)
    then show ?thesis by (rule run_emits[where s = s1]) (simp add: live)
  qed
  moreover have "fst (run_state (krakend_Reconcile c lib r req) s) = Ret None"
    using read answers_krakend_live[OF steady hash vals us edits, of req s1] by (simp add: krakend_Reconcile_def run_bind)
  ultimately show ?thesis
    using ends by (auto simp: trace ends_with_status_def nothing_written_def)
qed

text \<open>A cluster with the sample Krakend in which no object but network policies can be created.\<close>

definition refusing_client :: "unit KrakendClient" where
  "refusing_client =
     \<lparr>kc_Client =
        \<lparr>Get_ApiEndpoints = (\<lambda>nn. State_Monad.return (Inl (KubeErr (NotFound [])))),
         Get_Krakend = (\<lambda>nn. State_Monad.return (Inr sample_krakend)),
         Get_ConfigMap = (\<lambda>nn. State_Monad.return (Inl (KubeErr (NotFound [])))),
         Get_NetworkPolicy = (\<lambda>nn. State_Monad.return (Inl (KubeErr (NotFound [])))),
         List_ApiEndpoints = (\<lambda>ns. State_Monad.return (Inr \<lparr>ael_Items = []\<rparr>)),
         Create_NetworkPolicy = (\<lambda>_. State_Monad.return (Inr ())),
         Update_NetworkPolicy = (\<lambda>_. State_Monad.return (Inr ())),
         Update_ConfigMap = (\<lambda>_. State_Monad.return (Inl (KubeErr (OtherApiError [])))),
         Update_ApiEndpoints = (\<lambda>_. State_Monad.return (Inl (KubeErr (OtherApiError [])))),
         Status_Update_ApiEndpoints = (\<lambda>_. State_Monad.return (Inl (KubeErr (OtherApiError [])))),
         Now = State_Monad.return 0\<rparr>,
      Create_Unstructured = (\<lambda>u. State_Monad.return (Inl (KubeErr (OtherApiError ''forbidden'')))),
      Get_Unstructured = (\<lambda>u. State_Monad.return (Inl (KubeErr (NotFound [])))),
      Update_Unstructured = (\<lambda>u. State_Monad.return (Inl (KubeErr (NotFound [])))),
      Status_Update_Krakend = (\<lambda>k. State_Monad.return (Inr ())),
      Eventf = (\<lambda>k type reason msg. State_Monad.return ())\<rparr>"

lemma refusing_facts:
  "run_state (Get_Krakend (kc_Client refusing_client) nn) () = (Inr sample_krakend, ())"
  "refuses refusing_client"
  "steady refusing_client (release_reconciler us netpols) sample_krakend ''1''"
  by (simp_all add: refusing_client_def refuses_def steady_def steady_reads_def ensureKrakendNetpol_def
      IgnoreNotFound_def sample_krakend_facts run_simps)

lemma deployment_edits:
  "\<exists>v. edit_resource field_lib k u = Ret (Inr v)"
  by (auto simp: edit_resource_def edit_Deployment_def field_lib_def assign_def Let_def split: list.split)

lemma deployment_renders:
  "prepareValues sample_krakend = Inr vals \<Longrightarrow>
     ToUnstructured (release_chart [partials_object, deployment_object, service_object]) name ns
       [(''krakend'', AMap vals)] = Ret (Inr [partials_object, deployment_object, service_object])"
  by (rule release_renders; simp add: str_at_def partials_object_def deployment_object_def service_object_def)

theorem krakend_failures_recorded_as_success_witness:
  "let r = release_reconciler [partials_object, deployment_object, service_object] True;
       req = Krakend_NamespacedName sample_krakend; tr = krakend_trace refusing_client field_lib r req () in
   fst (run_state (krakend_Reconcile refusing_client field_lib r req) ()) = Ret None \<and>
   (\<exists>pre k'. tr = pre @ [WroteStatus k'] \<and> kt_SynchronizationHash (kr_Status k') = ''1'') \<and>
   (\<forall>w. WroteResource w True \<notin> set tr)"
proof -
  let ?us = "[partials_object, deployment_object, service_object]"
  obtain vals where vals: "prepareValues sample_krakend = Inr vals" using sample_values by blast
  have us: "ToUnstructured (kr_KrakendChart (release_reconciler ?us True)) (kr_Name sample_krakend)
      (kr_Namespace sample_krakend) [(''krakend'', AMap vals)] = Ret (Inr ?us)"
    by (simp add: release_reconciler_def deployment_renders[OF vals])
  show ?thesis
    unfolding Let_def
    using krakend_failures_recorded_as_success[OF fields.unstructured_lib_axioms refusing_facts(1)
        sample_krakend_facts(5) vals us _ refusing_facts(3)] refusing_facts(2) deployment_edits by blast
qed

text \<open>
  C26. Editing a Deployment. The edit panics exactly when the pod template has no labels or no
  annotations. Otherwise the template and its only container take the name of the Deployment, the
  container's environment is extended by the one of the Krakend, containers are left alone when there
  is not exactly one, the two labels are set, and everything else stays.
\<close>

theorem edit_Deployment_correct:
  "case edit_Deployment k d of
     Panic t \<Rightarrow> de_TemplateLabels d = None \<or> de_TemplateAnnotations d = None
   | Ret d' \<Rightarrow>
       d' = d\<lparr>de_TemplateName := de_Name d, de_TemplateLabels := de_TemplateLabels d',
         de_TemplateAnnotations := de_TemplateAnnotations d',
         de_Containers := (if length (de_Containers d) = 1
           then map (\<lambda>x. x\<lparr>co_Name := de_Name d, co_Env := co_Env x @ elems (kd_ExtraEnvVars (ks_Deployment (kr_Spec k)))\<rparr>) (de_Containers d)
           else de_Containers d)\<rparr> \<and>
       (\<exists>ls ls'. de_TemplateLabels d = Some ls \<and> de_TemplateLabels d' = Some ls' \<and>
          map_of ls' = (map_of ls)(''logs.nais.io/flow-loki'' \<mapsto> ''true'')) \<and>
       (\<exists>as as'. de_TemplateAnnotations d = Some as \<and> de_TemplateAnnotations d' = Some as' \<and>
          map_of as' = (map_of as)(''kubectl.kubernetes.io/default-container'' \<mapsto> de_Name d))"
  by (auto simp: edit_Deployment_def assign_def Let_def update_conv' split: option.split list.split)

end
