(* ===== verification/Go_Process.thy ===== *)
theory Go_Process
  imports Go_Strings
begin

text \<open>
  What the command line programs use of the operating system: leaving the process with a message
  (\<^verbatim>\<open>log.Fatalf\<close>, \<^verbatim>\<open>os.Exit\<close>), environment variables as a map, and \<^verbatim>\<open>filepath.Join\<close> on Unix.
\<close>

datatype 'a process = Running 'a | Exit string

definition and_then :: "'a process \<Rightarrow> ('a \<Rightarrow> 'b process) \<Rightarrow> 'b process" where
  "and_then p f = (case p of Running x \<Rightarrow> f x | Exit t \<Rightarrow> Exit t)"

lemma and_then_simps [simp]: "and_then (Running x) f = f x" "and_then (Exit t) f = Exit t"
  by (simp_all add: and_then_def)

lemma and_then_Running: "and_then p f = Running y \<longleftrightarrow> (\<exists>x. p = Running x \<and> f x = Running y)"
  by (cases p) simp_all

type_synonym environment = "string \<rightharpoonup> string"

text \<open>\<^verbatim>\<open>os.Getenv\<close>\<close>

definition Getenv :: "environment \<Rightarrow> string \<Rightarrow> string" where
  "Getenv env key = (case env key of None \<Rightarrow> [] | Some v \<Rightarrow> v)"

text \<open>\<^verbatim>\<open>filepath.Clean\<close>: the elements kept so far, the last one first.\<close>

fun clean_elems :: "bool \<Rightarrow> string list \<Rightarrow> string list \<Rightarrow> string list" where
  "clean_elems rooted kept [] = rev kept"
| "clean_elems rooted kept (e # es) =
     (if e = [] \<or> e = ''.'' then clean_elems rooted kept es
      else if e = ''..'' then
        (case kept of
           k # ks \<Rightarrow> (if k = ''..'' then clean_elems rooted (e # kept) es else clean_elems rooted ks es)
         | [] \<Rightarrow> (if rooted then clean_elems rooted [] es else clean_elems rooted [e] es))
      else clean_elems rooted (e # kept) es)"

definition filepath_Clean :: "string \<Rightarrow> string" where
  "filepath_Clean path =
     (let rooted = str_HasPrefix path ''/'';
          cleaned = (if rooted then ''/'' else []) @ str_Join (clean_elems rooted [] (str_Split (CHR ''/'') path)) ''/'' in
      if cleaned = [] then ''.'' else cleaned)"

definition filepath_Join :: "string list \<Rightarrow> string" where
  "filepath_Join elems =
     (case filter (\<lambda>e. e \<noteq> []) elems of [] \<Rightarrow> [] | es \<Rightarrow> filepath_Clean (str_Join es ''/''))"

text \<open>
  \<^verbatim>\<open>strings.ReplaceAll(s, old, new)\<close> for a non-empty \<open>old\<close>: matches from the left, none inside
  another.
\<close>

function str_ReplaceAll :: "string \<Rightarrow> string \<Rightarrow> string \<Rightarrow> string" where
  "str_ReplaceAll [] old new = []"
| "str_ReplaceAll (c # cs) old new =
     (if old \<noteq> [] \<and> str_HasPrefix (c # cs) old then new @ str_ReplaceAll (drop (length old - 1) cs) old new
      else c # str_ReplaceAll cs old new)"
  by pat_completeness auto
termination
  by (relation "measure (\<lambda>(s, _, _). length s)") auto

lemma str_ReplaceAll_none: "\<not> sublist old s \<Longrightarrow> str_ReplaceAll s old new = s"
proof (induction s old new rule: str_ReplaceAll.induct)
  case (2 c cs old new)
  then show ?case by (auto simp: str_HasPrefix_iff sublist_Cons_right)
qed simp

text \<open>A replacement by nothing never lengthens.\<close>

lemma str_ReplaceAll_length: "length (str_ReplaceAll s old []) \<le> length s"
proof (induction s old "[] :: string" rule: str_ReplaceAll.induct)
  case (2 c cs old)
  show ?case
  proof (cases "old \<noteq> [] \<and> str_HasPrefix (c # cs) old")
    case True
    with 2(1) have "length (str_ReplaceAll (drop (length old - 1) cs) old []) \<le> length (drop (length old - 1) cs)" by blast
    with True show ?thesis by simp
  qed (use 2(2) in auto)
qed simp

end
