(* ===== verification/Go_Json_Indent.thy ===== *)
theory Go_Json_Indent
  imports Go_Json_Reader
begin

text \<open>
  \<^verbatim>\<open>json.MarshalIndent(v, "", "  ")\<close>: the compact text laid out with a line per element and two
  blanks per level, empty arrays and objects kept on one line. The main lemma is the round trip
  through the reader.
\<close>

definition NEWLINE :: char where "NEWLINE = CHR 10"

definition pad :: "nat \<Rightarrow> string" where
  "pad d = NEWLINE # replicate (2 * d) (CHR '' '')"

fun json_indent :: "nat \<Rightarrow> json \<Rightarrow> string"
  and indent_elems :: "nat \<Rightarrow> json list \<Rightarrow> string"
  and indent_members :: "nat \<Rightarrow> (string \<times> json) list \<Rightarrow> string" where
  "json_indent d JNull = ''null''"
| "json_indent d (JBool b) = (if b then ''true'' else ''false'')"
| "json_indent d (JNum n) = n"
| "json_indent d (JStr s) = json_str s"
| "json_indent d (JArr vs) =
     (if vs = [] then ''[]'' else CHR ''['' # indent_elems (Suc d) vs @ pad d @ '']'')"
| "json_indent d (JObj ms) =
     (if ms = [] then ''{}'' else CHR ''{'' # indent_members (Suc d) ms @ pad d @ ''}'')"
| "indent_elems d [] = []"
| "indent_elems d [v] = pad d @ json_indent d v"
| "indent_elems d (v # w # vs) = pad d @ json_indent d v @ CHR '','' # indent_elems d (w # vs)"
| "indent_members d [] = []"
| "indent_members d [(k, v)] = pad d @ json_str k @ '': '' @ json_indent d v"
| "indent_members d ((k, v) # m # ms) =
     pad d @ json_str k @ '': '' @ json_indent d v @ CHR '','' # indent_members d (m # ms)"

definition json_MarshalIndent :: "json \<Rightarrow> string result" where
  "json_MarshalIndent v = Inr (json_indent 0 v)"

section \<open>Reading it back\<close>

lemma skip_ws_replicate [simp]: "skip_ws (replicate n (CHR '' '') @ s) = skip_ws s"
  by (induction n) (simp_all add: skip_ws_def is_ws_def)

lemma skip_pad [simp]: "skip_ws (pad d @ s) = skip_ws s"
  using skip_ws_replicate[of "2 * d" s] by (simp add: pad_def NEWLINE_def skip_ws_def is_ws_def)

lemma delim_pad [simp]: "delim (pad d @ s)"
  by (simp add: pad_def NEWLINE_def is_ws_def)

lemma skip_blank [simp]: "skip_ws (CHR '' '' # s) = skip_ws s"
  by (simp add: skip_ws_def is_ws_def)

text \<open>White space before a value does not matter.\<close>

lemma read_value_skip: "skip_ws s = skip_ws t \<Longrightarrow> read_value n d s = read_value n d t"
  by (cases n) (simp_all add: read_value.simps(2))

lemma read_value_pad: "read_value n d (pad e @ s) = read_value n d s" "read_value n d (CHR '' '' # s) = read_value n d s"
  by (rule read_value_skip, simp)+

lemma read_members_pad: "read_members n d (pad e @ s) = read_members n d s"
  by (cases n) (simp_all add: read_members.simps(2))

lemma indent_start:
  assumes "json_ok v"
  obtains c cs where "json_indent d v = c # cs" "\<not> is_ws c" "c \<noteq> CHR '']''" "c \<noteq> CHR ''}''"
proof (cases "json_text v = json_indent d v")
  case True
  with text_start[OF assms] that show thesis by metis
next
  case False
  then have "(\<exists>vs. v = JArr vs) \<or> (\<exists>ms. v = JObj ms)" by (cases v) auto
  then show thesis
  proof (elim disjE exE)
    fix vs assume "v = JArr vs" then show thesis using that by (cases "vs = []") auto
  next
    fix ms assume "v = JObj ms" then show thesis using that by (cases "ms = []") auto
  qed
qed

lemma indent_elems_start:
  assumes "json_ok v"
  obtains c cs where "skip_ws (indent_elems d (v # vs) @ rest) = c # cs" "c \<noteq> CHR '']''"
    "read_elems n e (indent_elems d (v # vs) @ rest) = read_elems n e (c # cs)"
proof -
  obtain c cs where c: "json_indent d v = c # cs" "\<not> is_ws c" "c \<noteq> CHR '']''" "c \<noteq> CHR ''}''"
    using assms by (rule indent_start)
  obtain r where r: "indent_elems d (v # vs) @ rest = pad d @ c # r" using c(1) by (cases vs) auto
  have "read_elems n e (pad d @ c # r) = read_elems n e (c # r)"
    by (cases n) (simp_all add: read_elems.simps(2) read_value_pad)
  with r c show thesis by (intro that[of c r]) simp_all
qed

lemma indent_members_start:
  obtains cs where "skip_ws (indent_members d (m # ms) @ rest) = CHR 0x22 # cs"
    "read_members n e (indent_members d (m # ms) @ rest) = read_members n e (CHR 0x22 # cs)"
proof -
  obtain r where r: "indent_members d (m # ms) @ rest = pad d @ CHR 0x22 # r"
    by (cases m; cases ms) (auto simp: json_str_def)
  show thesis by (rule that[of r]) (simp_all add: r read_members_pad)
qed

lemma read_value_indent:
  "json_ok v \<Longrightarrow> nesting v \<le> d \<Longrightarrow> need v \<le> n \<Longrightarrow> delim rest \<Longrightarrow>
     read_value n d (json_indent i v @ rest) = Some (v, rest)"
  "jsons_ok vs \<Longrightarrow> vs \<noteq> [] \<Longrightarrow> nestings vs \<le> d \<Longrightarrow> needs_elems vs \<le> n \<Longrightarrow>
     read_elems n d (indent_elems i vs @ pad j @ CHR '']'' # rest) = Some (vs, rest)"
  "members_ok ms \<Longrightarrow> ms \<noteq> [] \<Longrightarrow> members_nesting ms \<le> d \<Longrightarrow> needs_members ms \<le> n \<Longrightarrow>
     read_members n d (indent_members i ms @ pad j @ CHR ''}'' # rest) = Some (ms, rest)"
proof (induction i v and i vs and i ms arbitrary: n d rest and n d rest j and n d rest j
    rule: json_indent_indent_elems_indent_members.induct)
  case 1
  then obtain k where "n = Suc k" by (cases n) auto
  then show ?case by (simp add: read_value.simps(2) strip_append[where p = "''ull''", simplified])
next
  case (2 i b)
  then obtain k where "n = Suc k" by (cases n) auto
  then show ?case
    by (simp add: read_value.simps(2) strip_append[where p = "''rue''", simplified]
        strip_append[where p = "''alse''", simplified])
next
  case (3 i x)
  then obtain k where "n = Suc k" by (cases n) auto
  with 3 show ?case using read_value_number by simp
next
  case (4 i s)
  then obtain k where "n = Suc k" by (cases n) auto
  with 4 show ?case using read_str_esc[of s rest] by (simp add: read_value.simps(2) json_str_def)
next
  case (5 i vs)
  then obtain k where k: "n = Suc k" by (cases n) auto
  show ?case
  proof (cases vs)
    case Nil
    with k 5 show ?thesis by (simp add: read_value.simps(2))
  next
    case (Cons v vs')
    let ?s = "indent_elems (Suc i) vs @ pad i @ CHR '']'' # rest"
    have el: "read_elems k (d - 1) ?s = Some (vs, rest)"
      using 5 Cons k by (intro "5.IH") auto
    obtain c cs where "skip_ws ?s = c # cs" "c \<noteq> CHR '']''" "read_elems k (d - 1) ?s = read_elems k (d - 1) (c # cs)"
      unfolding Cons by (rule indent_elems_start) (use 5 Cons in auto)
    with el k 5 Cons show ?thesis by (simp add: read_value.simps(2))
  qed
next
  case (6 i ms)
  then obtain k where k: "n = Suc k" by (cases n) auto
  show ?case
  proof (cases ms)
    case Nil
    with k 6 show ?thesis by (simp add: read_value.simps(2))
  next
    case (Cons m ms')
    let ?s = "indent_members (Suc i) ms @ pad i @ CHR ''}'' # rest"
    have el: "read_members k (d - 1) ?s = Some (ms, rest)"
      using 6 Cons k by (intro "6.IH") auto
    obtain cs where "skip_ws ?s = CHR 0x22 # cs" "read_members k (d - 1) ?s = read_members k (d - 1) (CHR 0x22 # cs)"
      unfolding Cons by (rule indent_members_start)
    with el k 6 Cons show ?thesis by (simp add: read_value.simps(2))
  qed
next
  case 7
  then show ?case by simp
next
  case (8 i v)
  then obtain k where "n = Suc k" by (cases n) auto
  with 8 show ?case by (simp add: read_elems.simps(2) read_value_pad)
next
  case (9 i v w vs)
  then obtain k where "n = Suc k" by (cases n) auto
  with 9 show ?case by (simp add: read_elems.simps(2) read_value_pad)
next
  case 10
  then show ?case by simp
next
  case (11 i key v)
  then obtain k where "n = Suc k" by (cases n) auto
  with 11 show ?case
    using read_str_esc[of key "CHR '':'' # CHR '' '' # json_indent i v @ pad j @ CHR ''}'' # rest"]
    by (simp add: read_members_pad read_members.simps(2) read_value_pad json_str_def)
next
  case (12 i key v m ms)
  then obtain k where "n = Suc k" by (cases n) auto
  with 12 show ?case
    using read_str_esc[of key "CHR '':'' # CHR '' '' # json_indent i v @ CHR '','' # indent_members i (m # ms) @ pad j @ CHR ''}'' # rest"]
    by (simp add: read_members_pad read_members.simps(2) read_value_pad json_str_def)
qed

lemma length_json_indent:
  "json_ok v \<Longrightarrow> need v \<le> 2 * length (json_indent i v) + 1"
  "jsons_ok vs \<Longrightarrow> needs_elems vs \<le> 2 * length (indent_elems i vs) + 2"
  "members_ok ms \<Longrightarrow> needs_members ms \<le> 2 * length (indent_members i ms) + 2"
  by (induction i v and i vs and i ms rule: json_indent_indent_elems_indent_members.induct) auto

lemma json_read_indent:
  assumes "json_ok v" "nesting v \<le> max_nesting"
  shows "json_read (json_indent 0 v) = Some v"
  using read_value_indent(1)[OF assms length_json_indent(1)[OF assms(1)], of "[]"]
  by (simp add: json_read_def skip_ws_def)

end
