(* ===== verification/Migration.thy ===== *)
theory Migration
  imports Go_Process Go_Url Go_Json_Indent Kube_Client Krakend_Parser Krakend_Decoder
begin

text \<open>
  \<^verbatim>\<open>pkg/migration\<close>: turning the Krakend instances of a namespace, with their ApiEndpoints, into Nais
  applications and ConfigMaps, as one YAML text. The embedded template files, the YAML decoder, the
  serializer of Kubernetes objects and the client are parameters. A map or slice of the application
  that the code does not touch is kept in \<open>nap_Other\<close>.
\<close>

section \<open>Applications\<close>

record Replicas =
  re_Min :: "int option"

record FilesFrom =
  ff_ConfigMap :: string
  ff_MountPath :: string

record AccessPolicyOutbound =
  ob_Rules :: "string list" \<comment> \<open>the \<^verbatim>\<open>Application\<close> of each rule\<close>
  ob_External :: "string list" \<comment> \<open>the \<^verbatim>\<open>Host\<close> of each rule\<close>

record AccessPolicy =
  ac_Inbound :: json
  ac_Outbound :: "AccessPolicyOutbound option"

record Application =
  nap_Name :: string
  nap_Namespace :: string
  nap_Image :: string
  nap_WebProxy :: bool
  nap_Ingresses :: "string list"
  nap_Replicas :: "Replicas option"
  nap_FilesFrom :: "FilesFrom list"
  nap_AccessPolicy :: "AccessPolicy option"
  nap_Other :: json

datatype Object = OApplication Application | OConfigMap ConfigMap

record MigrationLib =
  mg_Open :: "string \<Rightarrow> string result" \<comment> \<open>the embedded directory\<close>
  mg_Decode_Application :: "string \<Rightarrow> Application result"
  mg_Decode_ConfigMap :: "string \<Rightarrow> ConfigMap result"
  mg_AddToScheme :: "error option"
  mg_Encode :: "Object \<Rightarrow> string result"

definition ParseYaml :: "(string \<Rightarrow> string result) \<Rightarrow> (string \<Rightarrow> 'a result) \<Rightarrow> string \<Rightarrow> 'a result" where
  "ParseYaml open_file decode name =
     (case open_file name of
        Inl err \<Rightarrow> Inl (WrapV (''opening '' @ name) err)
      | Inr content \<Rightarrow> decode content)"

section \<open>Names, ingresses and egresses\<close>

definition resourceName :: "Krakend \<Rightarrow> string list \<Rightarrow> string" where
  "resourceName k sfxs = fold (\<lambda>sfx name. name @ ''-'' @ sfx) sfxs (kr_Name k @ ''-'' @ ''gw'')"

definition getIngresses :: "Krakend \<Rightarrow> string list" where
  "getIngresses k =
     map (\<lambda>host. fold (\<lambda>path ing. if pa_Path path = ''/'' then ing else ing @ pa_Path path) (elems (ho_Paths host))
         (''https://'' @ ho_Host host))
       (elems (ig_Hosts (ks_Ingress (kr_Spec k))))"

record Egress =
  eg_App :: string
  eg_ExternalHost :: string

definition getEgressesFromAuth :: "Krakend \<Rightarrow> Egress list" where
  "getEgressesFromAuth k =
     List.map_filter (\<lambda>a. case Parse (ap_JwkUrl a) of
        None \<Rightarrow> None
      | Some u \<Rightarrow> Some \<lparr>eg_App = [], eg_ExternalHost = url_Host u\<rparr>) (ks_AuthProviders (kr_Spec k))"

text \<open>The inner loop, with the \<^verbatim>\<open>seen\<close> map and the egresses collected so far.\<close>

fun getEgresses_loop :: "v1_Endpoint list \<Rightarrow> (string \<rightharpoonup> bool) \<Rightarrow> Egress list \<Rightarrow> (string \<rightharpoonup> bool) \<times> Egress list" where
  "getEgresses_loop [] seen egresses = (seen, egresses)"
| "getEgresses_loop (e # es) seen egresses =
     (case Parse (ep_BackendHost e) of
        None \<Rightarrow> getEgresses_loop es seen egresses
      | Some u \<Rightarrow>
          (if url_Scheme u = ''http'' \<and> Hostname u \<noteq> [] then
             (let parts = str_Split (CHR ''.'') (Hostname u);
                  app = (if parts \<noteq> [] then hd parts else []) in
              if seen app = None \<and> app \<noteq> []
              then getEgresses_loop es (seen(app \<mapsto> True)) (egresses @ [\<lparr>eg_App = app, eg_ExternalHost = []\<rparr>])
              else getEgresses_loop es seen egresses)
           else if Hostname u \<noteq> [] then
             (if seen (Hostname u) = None
              then getEgresses_loop es (seen(Hostname u \<mapsto> True)) (egresses @ [\<lparr>eg_App = [], eg_ExternalHost = Hostname u\<rparr>])
              else getEgresses_loop es seen egresses)
           else getEgresses_loop es seen egresses))"

definition getEgresses :: "ApiEndpoints list \<Rightarrow> Egress list" where
  "getEgresses endpoints =
     snd (fold (\<lambda>ep (seen, egresses). getEgresses_loop (as_Endpoints (ae_Spec ep)) seen egresses) endpoints (Map.empty, []))"

section \<open>The application\<close>

definition AppTemplateFile :: string where "AppTemplateFile = ''templates/app.yaml''"
definition DefaultImage :: string where "DefaultImage = ''krakend:2.12.0''"

definition empty_Outbound :: AccessPolicyOutbound where
  "empty_Outbound = \<lparr>ob_Rules = [], ob_External = []\<rparr>"

definition empty_AccessPolicy :: AccessPolicy where
  "empty_AccessPolicy = \<lparr>ac_Inbound = JNull, ac_Outbound = None\<rparr>"

text \<open>The rules one egress adds.\<close>

definition add_egress :: "Egress \<Rightarrow> AccessPolicyOutbound \<Rightarrow> AccessPolicyOutbound" where
  "add_egress e ob =
     (let ob1 = (if eg_App e \<noteq> [] then ob\<lparr>ob_Rules := ob_Rules ob @ [eg_App e]\<rparr> else ob) in
      if eg_ExternalHost e \<noteq> [] then ob1\<lparr>ob_External := ob_External ob1 @ [eg_ExternalHost e]\<rparr> else ob1)"

definition auth_policy :: "Egress list \<Rightarrow> AccessPolicy option \<Rightarrow> AccessPolicy option" where
  "auth_policy egressesFromAuth policy =
     (if egressesFromAuth \<noteq> []
      then Some (empty_AccessPolicy\<lparr>ac_Outbound := Some (empty_Outbound\<lparr>ob_External := map eg_ExternalHost egressesFromAuth\<rparr>)\<rparr>)
      else policy)"

definition egress_policy :: "Egress list \<Rightarrow> AccessPolicy option \<Rightarrow> AccessPolicy option" where
  "egress_policy egresses policy =
     (if egresses \<noteq> [] then
        (let p = (case policy of None \<Rightarrow> empty_AccessPolicy | Some p \<Rightarrow> p);
             ob = (case ac_Outbound p of None \<Rightarrow> empty_Outbound | Some ob \<Rightarrow> ob) in
         Some (p\<lparr>ac_Outbound := Some (fold add_egress egresses ob)\<rparr>))
      else policy)"

text \<open>A template that cannot be read ends the process.\<close>

definition ToApp :: "MigrationLib \<Rightarrow> Krakend \<Rightarrow> ApiEndpoints list \<Rightarrow> Application process" where
  "ToApp lib k endpoints =
     (case ParseYaml (mg_Open lib) (mg_Decode_Application lib) AppTemplateFile of
        Inl err \<Rightarrow> Exit (''parsing application template: '' @ error_text err)
      | Inr app \<Rightarrow>
          (let ingresses = getIngresses k;
               replicas = kd_ReplicaCount (ks_Deployment (kr_Spec k)) in
           Running (app\<lparr>nap_Name := resourceName k [],
             nap_Namespace := kr_Namespace k,
             nap_Image := DefaultImage,
             nap_WebProxy := (if list_ex (\<lambda>ing. str_Contains ing ''fss'') ingresses then True else nap_WebProxy app),
             nap_Ingresses := ingresses,
             nap_Replicas := (if replicas > 0 then Some \<lparr>re_Min = Some replicas\<rparr> else nap_Replicas app),
             nap_FilesFrom :=
               [\<lparr>ff_ConfigMap = resourceName k [''config''], ff_MountPath = ''/etc/krakend''\<rparr>,
                \<lparr>ff_ConfigMap = resourceName k [''partials''], ff_MountPath = ''/etc/krakend/partials''\<rparr>],
             nap_AccessPolicy :=
               egress_policy (getEgresses endpoints) (auth_policy (getEgressesFromAuth k) (nap_AccessPolicy app))\<rparr>)))"

section \<open>The ConfigMaps\<close>

definition ConfigMapEndpointsKey :: string where "ConfigMapEndpointsKey = ''endpoints.json''"

definition ToKrakendConfig :: "MigrationLib \<Rightarrow> Krakend \<Rightarrow> ConfigMap result" where
  "ToKrakendConfig lib k =
     (case ParseYaml (mg_Open lib) (mg_Decode_ConfigMap lib) ''templates/krakend_config.yaml'' of
        Inl err \<Rightarrow> Inl (WrapV ''parsing krakend config template'' err)
      | Inr cm \<Rightarrow> Inr (cm\<lparr>cm_Meta := (cm_Meta cm)
          \<lparr>om_Name := resourceName k [''config''], om_Namespace := kr_Namespace k\<rparr>\<rparr>))"

definition ToPartialsConfig :: "Krakend \<Rightarrow> ApiEndpoints list \<Rightarrow> ConfigMap result" where
  "ToPartialsConfig k list =
     (let cm = \<lparr>cm_TypeMeta = \<lparr>tm_Kind = ''ConfigMap'', tm_APIVersion = ''v1''\<rparr>,
                cm_Meta = zero_ObjectMeta
                  \<lparr>om_Namespace := kr_Namespace k, om_Name := resourceName k [''partials''],
                   om_Annotations := [''reloader.stakater.com/match'' \<mapsto> ''true'']\<rparr>,
                cm_Data = Map.empty\<rparr> in
      case ToKrakendEndpoints k list of
        Inl err \<Rightarrow> Inl (WrapV ''convert ApiEndpoints to Krakend endpoints'' err)
      | Inr allEndpoints \<Rightarrow>
          (case json_MarshalIndent (json_Endpoints allEndpoints) of
             Inl err \<Rightarrow> Inl err
           | Inr partials \<Rightarrow> Inr (cm\<lparr>cm_Data := [ConfigMapEndpointsKey \<mapsto> partials]\<rparr>)))"

definition owner_refs :: "ApiEndpoints \<Rightarrow> OwnerReference list" where
  "owner_refs e = (case om_OwnerReferences (ae_Meta e) of None \<Rightarrow> [] | Some refs \<Rightarrow> refs)"

text \<open>An ApiEndpoints is taken once per reference to the Krakend.\<close>

definition owned :: "Krakend \<Rightarrow> ApiEndpoints list \<Rightarrow> ApiEndpoints list" where
  "owned k endpoints =
     concat (map (\<lambda>e. map (\<lambda>ref. e) (filter (\<lambda>ref. or_UID ref = om_UID (kr_Meta k)) (owner_refs e))) endpoints)"

definition Convert :: "MigrationLib \<Rightarrow> Krakend \<Rightarrow> ApiEndpoints list \<Rightarrow> (Object list result) process" where
  "Convert lib k endpoints =
     and_then (ToApp lib k endpoints) (\<lambda>app. Running
       (case ToKrakendConfig lib k of
          Inl err \<Rightarrow> Inl (WrapV ''creating krakend config configmap'' err)
        | Inr config \<Rightarrow>
            (case ToPartialsConfig k (owned k endpoints) of
               Inl err \<Rightarrow> Inl (WrapV ''creating partials config configmap'' err)
             | Inr partials \<Rightarrow> Inr [OApplication app, OConfigMap config, OConfigMap partials])))"

section \<open>YAML\<close>

definition serializeToYAML :: "MigrationLib \<Rightarrow> Object \<Rightarrow> string result" where
  "serializeToYAML lib obj =
     (case mg_AddToScheme lib of
        Some err \<Rightarrow> Inl err
      | None \<Rightarrow>
          (case mg_Encode lib obj of
             Inl err \<Rightarrow> Inl err
           | Inr ret \<Rightarrow>
               Inr (str_ReplaceAll
                 (str_ReplaceAll ret (''  creationTimestamp: null'' @ [NEWLINE]) [])
                 (''status: {}'' @ [NEWLINE]) [])))"

definition separator :: string where "separator = NEWLINE # ''---'' @ [NEWLINE]"

fun ToYAML_loop :: "MigrationLib \<Rightarrow> Object list \<Rightarrow> string \<Rightarrow> string result" where
  "ToYAML_loop lib [] out = Inr out"
| "ToYAML_loop lib (obj # objs) out =
     (case serializeToYAML lib obj of
        Inl err \<Rightarrow> Inl err
      | Inr s \<Rightarrow> ToYAML_loop lib objs ((if out \<noteq> [] then out @ separator else out) @ s))"

definition ToYAML :: "MigrationLib \<Rightarrow> Object list \<Rightarrow> string result" where
  "ToYAML lib objs = ToYAML_loop lib objs []"

section \<open>The command\<close>

definition kubeconfigPath :: "environment \<Rightarrow> string \<Rightarrow> string" where
  "kubeconfigPath env home =
     (if Getenv env ''KUBECONFIG'' \<noteq> [] then Getenv env ''KUBECONFIG''
      else if home = [] then []
      else filepath_Join [home, ''.kube'', ''config''])"

text \<open>A client is what it lists.\<close>

record ReadClient =
  rc_Krakends :: "string \<Rightarrow> KrakendList result"
  rc_ApiEndpoints :: "string \<Rightarrow> ApiEndpointsList result"

record ClientLib =
  cl_HomeDir :: string
  cl_ClientConfig :: "string \<Rightarrow> string result" \<comment> \<open>from the path to the REST configuration\<close>
  cl_AddKrakend :: "error option"
  cl_AddCore :: "error option"
  cl_New :: "string \<Rightarrow> ReadClient result"
  cl_Namespace :: "string \<Rightarrow> string result"

definition NewClient :: "environment \<Rightarrow> ClientLib \<Rightarrow> (ReadClient \<times> string) process" where
  "NewClient env lib =
     (let path = kubeconfigPath env (cl_HomeDir lib) in
      case cl_ClientConfig lib path of
        Inl err \<Rightarrow> Exit (''kubeconfig: '' @ error_text err)
      | Inr restCfg \<Rightarrow>
          (case cl_AddKrakend lib of
             Some err \<Rightarrow> Exit (''scheme: '' @ error_text err)
           | None \<Rightarrow>
               (case cl_AddCore lib of
                  Some err \<Rightarrow> Exit (''scheme: '' @ error_text err)
                | None \<Rightarrow>
                    (case cl_New lib restCfg of
                       Inl err \<Rightarrow> Exit (''client: '' @ error_text err)
                     | Inr c \<Rightarrow>
                         (let ns = (case cl_Namespace lib path of
                                      Inl err \<Rightarrow> ''default''
                                    | Inr ns \<Rightarrow> (if ns = [] then ''default'' else ns)) in
                          Running (c, ns))))))"

fun convert_all :: "MigrationLib \<Rightarrow> Krakend list \<Rightarrow> ApiEndpoints list \<Rightarrow> Object list \<Rightarrow> (Object list result) process" where
  "convert_all lib [] endpoints objs = Running (Inr objs)"
| "convert_all lib (k # ks) endpoints objs =
     and_then (Convert lib k endpoints) (\<lambda>r.
       (case r of
          Inl err \<Rightarrow> Running (Inl (WrapV (''converting krakend '' @ kr_Name k) err))
        | Inr o' \<Rightarrow> convert_all lib ks endpoints (objs @ o')))"

definition ConvertKrakends :: "environment \<Rightarrow> ClientLib \<Rightarrow> MigrationLib \<Rightarrow> (string result) process" where
  "ConvertKrakends env clib lib =
     and_then (NewClient env clib) (\<lambda>(c, ns).
       (case rc_Krakends c ns of
          Inl err \<Rightarrow> Running (Inl (WrapV ''listing krakends'' err))
        | Inr krakends \<Rightarrow>
            (case rc_ApiEndpoints c ns of
               Inl err \<Rightarrow> Running (Inl (WrapV ''listing apiendpoints'' err))
             | Inr apiEndpoints \<Rightarrow>
                 and_then (convert_all lib (krl_Items krakends) (ael_Items apiEndpoints) []) (\<lambda>r.
                   Running (case r of Inl err \<Rightarrow> Inl err | Inr objs \<Rightarrow> ToYAML lib objs)))))"

end
