(* ===== verification/Migration_Properties.thy ===== *)
theory Migration_Properties
  imports Migration Mem_Cluster "HOL-Library.Multiset"
begin

text \<open>
  What the migration keeps of a running gateway: the published endpoints, the backends it may call,
  its addresses, and how the documents are put together. The published endpoints are compared with
  what the ApiEndpoints controller publishes.
\<close>

section \<open>Egresses\<close>














section \<open>What the application may call\<close>







section \<open>A sample\<close>

definition sample_template :: Application where
  "sample_template =
     \<lparr>nap_Name = ''change-me'', nap_Namespace = ''change-me'', nap_Image = ''krakend:2.11.1'', nap_WebProxy = False,
      nap_Ingresses = [], nap_Replicas = None, nap_FilesFrom = [], nap_AccessPolicy = None, nap_Other = JNull\<rparr>"

definition sample_config :: ConfigMap where
  "sample_config = \<lparr>cm_TypeMeta = \<lparr>tm_Kind = ''ConfigMap'', tm_APIVersion = ''v1''\<rparr>,
     cm_Meta = zero_ObjectMeta, cm_Data = [''krakend.json'' \<mapsto> ''{}'']\<rparr>"

definition sample_migration :: MigrationLib where
  "sample_migration =
     \<lparr>mg_Open = Inr, mg_Decode_Application = (\<lambda>_. Inr sample_template), mg_Decode_ConfigMap = (\<lambda>_. Inr sample_config),
      mg_AddToScheme = None,
      mg_Encode = (\<lambda>obj. Inr (case obj of
          OApplication app \<Rightarrow> ''app: '' @ nap_Name app @ [NEWLINE] @ ''status: {}'' @ [NEWLINE]
        | OConfigMap cm \<Rightarrow> ''cm: '' @ om_Name (cm_Meta cm) @ [NEWLINE]))\<rparr>"

definition owned_sample :: "ApiEndpoints \<Rightarrow> ApiEndpoints" where
  "owned_sample a = a\<lparr>ae_Meta := (ae_Meta a)\<lparr>om_OwnerReferences := Some (kr_ownerRef sample_krakend)\<rparr>\<rparr>"



section \<open>The published endpoints\<close>

lemma owned_all:
  assumes "\<forall>a \<in> set eps. length (filter (\<lambda>ref. or_UID ref = om_UID (kr_Meta k)) (owner_refs a)) = 1"
  shows "owned k eps = eps"
proof -
  have one: "map (\<lambda>ref. a) rs = [a]" if "length rs = 1" for a :: ApiEndpoints and rs :: "OwnerReference list"
    using that by (cases rs) auto
  show ?thesis using assms unfolding owned_def by (induction eps) (simp_all add: one)
qed

text \<open>
  C33. The migration publishes what the operator publishes. For resources of which none is being
  deleted and each has exactly one reference to the Krakend, the migrated ConfigMap, written with
  indentation under another name and key, reads back as exactly the endpoints that the operator
  publishes for the namespace.
\<close>

theorem migrated_partials_equal_published:
  assumes "\<forall>a \<in> set eps. om_DeletionTimestamp (ae_Meta a) = None \<and>
      length (filter (\<lambda>ref. or_UID ref = om_UID (kr_Meta k)) (owner_refs a)) = 1"
    and conv: "ToKrakendEndpoints k eps = Inr es" and "list_all utf8_Endpoint es" "list_all int64_Endpoint es"
  shows "\<exists>cm migrated published. ToPartialsConfig k (owned k eps) = Inr cm \<and>
    om_Name (cm_Meta cm) = kr_Name k @ ''-gw-partials'' \<and> om_Namespace (cm_Meta cm) = kr_Namespace k \<and>
    cm_Data cm ConfigMapEndpointsKey = Some migrated \<and>
    partials_text k \<lparr>ael_Items = eps\<rparr> = Inr published \<and>
    ParsePartials migrated = Inr \<lparr>pt_Endpoints = map Some es\<rparr> \<and> ParsePartials published = ParsePartials migrated"
proof -
  have live: "filter (\<lambda>e. om_DeletionTimestamp (ae_Meta e) = None) eps = eps"
    using assms(1) by (simp add: filter_id_conv)
  have "nesting (json_Endpoints es) \<le> max_nesting"
    using nesting_le(6)[of es] by (simp add: max_nesting_def)
  from json_read_indent[OF json_ok_Endpoints[OF assms(3)] this] dec_Endpoints_json[OF assms(4)]
  have "ParsePartials (json_indent 0 (json_Endpoints es)) = Inr \<lparr>pt_Endpoints = map Some es\<rparr>"
    by (simp add: ParsePartials_def)
  with conv live ParsePartials_text[OF assms(3,4)] owned_all[of eps k] assms(1) show ?thesis
    by (simp add: ToPartialsConfig_def json_MarshalIndent_def partials_text_def json_Marshal_def resourceName_def)
qed

lemmas sample_endpoints_wf = secured_endpoint_def open_endpoint_def with_ExtraConfig_def parseEndpoint_def
  parseRateLimit_def findAuthProvider_def sample_defs utf8_Endpoint_def int64_Endpoint_def
  utf8_ExtraConfig_def int64_ExtraConfig_def utf8_AuthValidator_def utf8_Backend_def
  DefaultOutputEncoding_def DefaultScopesKey_def valid_utf8_ascii

theorem migrated_partials_equal_published_witness:
  "\<exists>cm migrated es. ToPartialsConfig sample_krakend (owned sample_krakend [owned_sample sample_app1]) = Inr cm \<and>
     cm_Data cm ConfigMapEndpointsKey = Some migrated \<and>
     ParsePartials migrated = Inr \<lparr>pt_Endpoints = map Some es\<rparr> \<and> map en_Endpoint es = [''/app1/secure'', ''/doc'']"
proof -
  have conv: "ToKrakendEndpoints sample_krakend [owned_sample sample_app1] = Inr
      [secured_endpoint (projr (findAuthProvider sample_krakend sample_auth)) None
         (sample_endpoint ''/app1/secure'' ''http://app1''),
       open_endpoint None (sample_endpoint ''/doc'' ''http://app1'')]" (is "_ = Inr ?eps")
    by (simp add: ToKrakendEndpoints_def parseKrakendEndpointsSpec_def findAuthProvider_def sample_defs owned_sample_def)
  have wf: "list_all utf8_Endpoint ?eps" "list_all int64_Endpoint ?eps"
    by (simp_all add: sample_endpoints_wf)
  have "\<forall>a \<in> set [owned_sample sample_app1]. om_DeletionTimestamp (ae_Meta a) = None \<and>
      length (filter (\<lambda>ref. or_UID ref = om_UID (kr_Meta sample_krakend)) (owner_refs a)) = 1"
    by (simp add: owned_sample_def owner_refs_def kr_ownerRef_def sample_defs)
  from migrated_partials_equal_published[OF this conv wf]
  obtain cm migrated where r: "ToPartialsConfig sample_krakend (owned sample_krakend [owned_sample sample_app1]) = Inr cm"
    "cm_Data cm ConfigMapEndpointsKey = Some migrated" "ParsePartials migrated = Inr \<lparr>pt_Endpoints = map Some ?eps\<rparr>"
    by blast
  have "map en_Endpoint ?eps = [''/app1/secure'', ''/doc'']" by (simp add: sample_defs)
  with r show ?thesis by (intro exI[of _ cm] exI[of _ migrated] exI[of _ ?eps] conjI)
qed

lemma ToKrakendEndpoints_subset:
  assumes "ToKrakendEndpoints k items = Inr es" "set items' \<subseteq> set items"
  obtains es' where "ToKrakendEndpoints k items' = Inr es'" "set es' \<subseteq> set es"
    "set (map en_Endpoint es') = (\<Union>a \<in> set items'. set (ae_paths a))"
proof -
  obtain es' where es': "ToKrakendEndpoints k items' = Inr es'"
    using assms by (auto simp: ToKrakendEndpoints_Inr)
  moreover have "set es' \<subseteq> set es"
    using assms es' by (auto simp: ToKrakendEndpoints_Inr)
  moreover have "set (map en_Endpoint es') = (\<Union>a \<in> set items'. set (ae_paths a))"
    using ToKrakendEndpoints_paths[OF es'] by auto
  ultimately show thesis by (rule that)
qed

lemma ToPartialsConfig_reads_back:
  assumes "ToKrakendEndpoints k items = Inr es" "list_all utf8_Endpoint es" "list_all int64_Endpoint es"
  shows "\<exists>cm migrated. ToPartialsConfig k items = Inr cm \<and> cm_Data cm ConfigMapEndpointsKey = Some migrated \<and>
    ParsePartials migrated = Inr \<lparr>pt_Endpoints = map Some es\<rparr>"
proof -
  have "nesting (json_Endpoints es) \<le> max_nesting"
    using nesting_le(6)[of es] by (simp add: max_nesting_def)
  from json_read_indent[OF json_ok_Endpoints[OF assms(2)] this] dec_Endpoints_json[OF assms(3)]
  have "ParsePartials (json_indent 0 (json_Endpoints es)) = Inr \<lparr>pt_Endpoints = map Some es\<rparr>"
    by (simp add: ParsePartials_def)
  with assms(1) show ?thesis
    by (simp add: ToPartialsConfig_def json_MarshalIndent_def resourceName_def)
qed

lemma disjoint_paths:
  assumes "distinct (concat (map ae_paths items))" "a \<in> set items" "b \<in> set items" "a \<noteq> b"
  shows "set (ae_paths a) \<inter> set (ae_paths b) = {}"
proof -
  from assms(2) obtain xs ys where items: "items = xs @ a # ys" by (meson split_list)
  with assms(3,4) have "b \<in> set xs \<union> set ys" by auto
  with assms(1) show ?thesis unfolding items by fastforce
qed

text \<open>The paths a published text serves.\<close>

definition served :: "string \<Rightarrow> string set" where
  "served content =
     (case ParsePartials content of Inl err \<Rightarrow> {} | Inr p \<Rightarrow> {en_Endpoint e | e. Some e \<in> set (pt_Endpoints p)})"

lemma served_endpoints: "ParsePartials content = Inr \<lparr>pt_Endpoints = map Some es\<rparr> \<Longrightarrow> served content = set (map en_Endpoint es)"
  by (auto simp: served_def)

text \<open>
  C36. Resources with another owner are lost. The operator sets its owner reference only on resources
  that have none, so a resource that has owners, none of them the Krakend, keeps them. In a namespace
  that is published, with unique paths and no resource being deleted, the text the operator publishes
  serves the paths of such a resource, and the text of the migrated ConfigMap, which is built without
  an error, serves none of them.
\<close>

theorem migration_loses_foreign_owned:
  assumes "a \<in> set items" "om_OwnerReferences (ae_Meta a) = Some refs"
    "\<forall>ref \<in> set refs. or_UID ref \<noteq> om_UID (kr_Meta k)"
    and lib: "finalizer_ops lib"
    and live: "\<forall>b \<in> set items. om_DeletionTimestamp (ae_Meta b) = None"
    and unique: "distinct (concat (map ae_paths items))"
    and conv: "ToKrakendEndpoints k items = Inr es" "list_all utf8_Endpoint es" "list_all int64_Endpoint es"
  shows "om_OwnerReferences (ae_Meta (snd (ensure_metadata lib k a))) = Some refs \<and>
    (\<exists>published cm migrated. partials_text k \<lparr>ael_Items = items\<rparr> = Inr published \<and>
       ToPartialsConfig k (owned k items) = Inr cm \<and> cm_Data cm ConfigMapEndpointsKey = Some migrated \<and>
       set (ae_paths a) \<subseteq> served published \<and> set (ae_paths a) \<inter> served migrated = {})"
proof -
  have a: "a \<notin> set (owned k items)" and sub: "set (owned k items) \<subseteq> set items"
    using assms(2,3) by (auto simp: owned_def owner_refs_def)
  obtain es' where es': "ToKrakendEndpoints k (owned k items) = Inr es'" "set es' \<subseteq> set es"
    "set (map en_Endpoint es') = (\<Union>b \<in> set (owned k items). set (ae_paths b))"
    by (rule ToKrakendEndpoints_subset[OF conv(1) sub])
  then have "list_all utf8_Endpoint es'" "list_all int64_Endpoint es'" using conv(2,3) by (auto simp: list_all_iff)
  from ToPartialsConfig_reads_back[OF es'(1) this] obtain cm migrated where
    m: "ToPartialsConfig k (owned k items) = Inr cm" "cm_Data cm ConfigMapEndpointsKey = Some migrated"
    "served migrated = (\<Union>b \<in> set (owned k items). set (ae_paths b))"
    using served_endpoints es'(3) by metis
  have "set (ae_paths a) \<inter> set (ae_paths b) = {}" if "b \<in> set (owned k items)" for b
    using disjoint_paths[OF unique assms(1)] that a sub by blast
  then have "set (ae_paths a) \<inter> served migrated = {}" using m(3) by auto
  moreover have "partials_text k \<lparr>ael_Items = items\<rparr> = Inr (json_text (json_Endpoints es))"
    using conv(1) live by (simp add: partials_text_def json_Marshal_def filter_id_conv)
  moreover have "served (json_text (json_Endpoints es)) = set (concat (map ae_paths items))"
    using served_endpoints[OF ParsePartials_text[OF conv(2,3)]] ToKrakendEndpoints_paths[OF conv(1)] by simp
  moreover have "om_OwnerReferences (ae_Meta (snd (ensure_metadata lib k a))) = Some refs"
    using assms(2) by (simp add: ensure_metadata_def finalizer_ops.add[OF lib])
  ultimately show ?thesis using m(1,2) assms(1) by auto
qed

section \<open>Ingresses\<close>

text \<open>
  C37. The addresses of the migrated application. There is one ingress per host, whatever its number of
  paths: the paths other than the root are appended to each other, so that two paths of a host become
  one address below the first. The shortcut \<^verbatim>\<open>ingressHost\<close> is not migrated.
\<close>

theorem getIngresses_correct:
  "getIngresses k = map (\<lambda>h. ''https://'' @ ho_Host h @
     concat (filter (\<lambda>p. p \<noteq> ''/'') (map pa_Path (elems (ho_Paths h))))) (elems (ig_Hosts (ks_Ingress (kr_Spec k))))"
proof -
  have "fold (\<lambda>path ing. if pa_Path path = ''/'' then ing else ing @ pa_Path path) ps base =
      base @ concat (filter (\<lambda>p. p \<noteq> ''/'') (map pa_Path ps))" for ps :: "Path list" and base
    by (induction ps arbitrary: base) auto
  then show ?thesis unfolding getIngresses_def by (simp only: append_assoc)
qed

section \<open>The documents\<close>

fun documents :: "MigrationLib \<Rightarrow> Object list \<Rightarrow> string list result" where
  "documents lib [] = Inr []"
| "documents lib (obj # objs) =
     (case serializeToYAML lib obj of
        Inl err \<Rightarrow> Inl err
      | Inr s \<Rightarrow> (case documents lib objs of Inl err \<Rightarrow> Inl err | Inr ds \<Rightarrow> Inr (s # ds)))"

lemma documents_Inr:
  "documents lib objs = Inr ds \<longleftrightarrow> list_all2 (\<lambda>obj d. serializeToYAML lib obj = Inr d) objs ds"
proof (induction objs arbitrary: ds)
  case (Cons obj objs)
  show ?case
    by (cases "serializeToYAML lib obj"; cases "documents lib objs")
      (auto simp: list_all2_Cons1 Cons.IH[symmetric])
qed auto

lemma ToYAML_loop_eq:
  "ToYAML_loop lib objs out =
     (case documents lib objs of
        Inl err \<Rightarrow> Inl err
      | Inr ds \<Rightarrow> Inr (fold (\<lambda>s out. (if out \<noteq> [] then out @ separator else out) @ s) ds out))"
  by (induction objs arbitrary: out) (auto split: sum.split)

text \<open>A separator is only written after something: documents that are empty at the start leave none.\<close>

lemma fold_join:
  "fold (\<lambda>s out. (if out \<noteq> [] then out @ separator else out) @ s) ds [] =
     str_Join (dropWhile (\<lambda>d. d = []) ds) separator"
proof -
  have step: "fold (\<lambda>s out. (if out \<noteq> [] then out @ separator else out) @ s) ds out = str_Join (out # ds) separator"
    if "out \<noteq> []" for ds out
    using that
  proof (induction ds arbitrary: out)
    case (Cons d ds)
    then have "fold (\<lambda>s out. (if out \<noteq> [] then out @ separator else out) @ s) ds (out @ separator @ d) =
        str_Join ((out @ separator @ d) # ds) separator" by simp
    with Cons.prems show ?case by (cases ds) simp_all
  qed simp
  show ?thesis by (induction ds) (simp_all add: step)
qed

lemma ToYAML_Inr:
  "ToYAML lib objs = Inr out \<longleftrightarrow>
     (\<exists>ds. list_all2 (\<lambda>obj d. serializeToYAML lib obj = Inr d) objs ds \<and>
        out = str_Join (dropWhile (\<lambda>d. d = []) ds) separator)"
  by (auto simp: ToYAML_def ToYAML_loop_eq fold_join documents_Inr[symmetric] split: sum.splits)

text \<open>The three objects of one Krakend.\<close>

definition triple :: "MigrationLib \<Rightarrow> ApiEndpoints list \<Rightarrow> Krakend \<Rightarrow> Object list \<Rightarrow> bool" where
  "triple lib eps k objs \<longleftrightarrow>
     (\<exists>app config partials. objs = [OApplication app, OConfigMap config, OConfigMap partials] \<and>
        ToApp lib k eps = Running app \<and> ToKrakendConfig lib k = Inr config \<and>
        ToPartialsConfig k (owned k eps) = Inr partials)"

lemma Convert_triple: "Convert lib k eps = Running (Inr objs) \<longleftrightarrow> triple lib eps k objs"
  by (cases "ToApp lib k eps"; cases "ToKrakendConfig lib k"; cases "ToPartialsConfig k (owned k eps)")
    (auto simp: Convert_def triple_def)

lemma convert_all_triples:
  "convert_all lib ks eps acc = Running (Inr objs) \<longleftrightarrow>
     (\<exists>parts. objs = acc @ concat parts \<and> list_all2 (triple lib eps) ks parts)"
proof (induction ks arbitrary: acc)
  case (Cons k ks)
  have "convert_all lib (k # ks) eps acc = Running (Inr objs) \<longleftrightarrow>
      (\<exists>part. triple lib eps k part \<and> convert_all lib ks eps (acc @ part) = Running (Inr objs))"
    by (cases "Convert lib k eps") (auto simp: Convert_triple[symmetric] split: sum.split)
  also have "\<dots> \<longleftrightarrow> (\<exists>part parts. triple lib eps k part \<and> objs = acc @ part @ concat parts \<and> list_all2 (triple lib eps) ks parts)"
    by (simp add: Cons.IH)
  also have "\<dots> \<longleftrightarrow> (\<exists>parts. objs = acc @ concat parts \<and> list_all2 (triple lib eps) (k # ks) parts)"
    by (simp add: list_all2_Cons1) (metis append_assoc concat.simps(2))
  finally show ?case .
qed auto

text \<open>
  C34. The whole command. It answers a text exactly when a client can be made, both lists are read for
  the client's namespace, every Krakend converts and every resulting object serializes; the text is
  then the application, the configuration and the published endpoints of every Krakend, in the order
  listed, joined by document separators. A failure at any of these points leaves no text.
\<close>

theorem ConvertKrakends_correct:
  "ConvertKrakends env clib lib = Running (Inr out) \<longleftrightarrow>
    (\<exists>c ns krakends apis parts docs. NewClient env clib = Running (c, ns) \<and>
       rc_Krakends c ns = Inr krakends \<and> rc_ApiEndpoints c ns = Inr apis \<and>
       list_all2 (triple lib (ael_Items apis)) (krl_Items krakends) parts \<and>
       list_all2 (\<lambda>obj d. serializeToYAML lib obj = Inr d) (concat parts) docs \<and>
       out = str_Join (dropWhile (\<lambda>d. d = []) docs) separator)"
proof (cases "NewClient env clib")
  case (Running cns)
  obtain c ns where c: "cns = (c, ns)" by fastforce
  show ?thesis
  proof (cases "rc_Krakends c ns")
    case (Inl err)
    with Running c show ?thesis by (simp add: ConvertKrakends_def)
  next
    case ks: (Inr krakends)
    show ?thesis
    proof (cases "rc_ApiEndpoints c ns")
      case (Inl err)
      with Running c ks show ?thesis by (simp add: ConvertKrakends_def)
    next
      case (Inr apis)
      let ?conv = "convert_all lib (krl_Items krakends) (ael_Items apis) []"
      have "ConvertKrakends env clib lib = and_then ?conv (\<lambda>r. Running (case r of Inl err \<Rightarrow> Inl err | Inr objs \<Rightarrow> ToYAML lib objs))"
        using Running c ks Inr by (simp add: ConvertKrakends_def)
      then have "ConvertKrakends env clib lib = Running (Inr out) \<longleftrightarrow>
          (\<exists>objs. ?conv = Running (Inr objs) \<and> ToYAML lib objs = Inr out)"
        by (cases ?conv) (auto split: sum.split)
      also have "\<dots> \<longleftrightarrow> (\<exists>parts. list_all2 (triple lib (ael_Items apis)) (krl_Items krakends) parts \<and>
          ToYAML lib (concat parts) = Inr out)"
        using convert_all_triples[of lib "krl_Items krakends" "ael_Items apis" "[]"] by auto
      finally show ?thesis using Running c ks Inr by (auto simp: ToYAML_Inr)
    qed
  qed
qed (simp add: ConvertKrakends_def)

definition foreign_sample :: ApiEndpoints where
  "foreign_sample = sample_app1\<lparr>ae_Meta := (ae_Meta sample_app1)\<lparr>om_OwnerReferences :=
     Some [\<lparr>or_APIVersion = ''argoproj.io/v1'', or_Kind = ''Application'', or_Name = ''team'', or_UID = ''uid-team''\<rparr>]\<rparr>\<rparr>"

theorem migration_loses_foreign_owned_witness:
  "\<exists>published cm migrated. partials_text sample_krakend \<lparr>ael_Items = [foreign_sample]\<rparr> = Inr published \<and>
     ToPartialsConfig sample_krakend (owned sample_krakend [foreign_sample]) = Inr cm \<and>
     cm_Data cm ConfigMapEndpointsKey = Some migrated \<and>
     ''/app1/secure'' \<in> served published \<and> ''/app1/secure'' \<notin> served migrated"
proof -
  have conv: "ToKrakendEndpoints sample_krakend [foreign_sample] = Inr
      [secured_endpoint (projr (findAuthProvider sample_krakend sample_auth)) None
         (sample_endpoint ''/app1/secure'' ''http://app1''),
       open_endpoint None (sample_endpoint ''/doc'' ''http://app1'')]" (is "_ = Inr ?eps")
    by (simp add: ToKrakendEndpoints_def parseKrakendEndpointsSpec_def findAuthProvider_def sample_defs foreign_sample_def)
  have wf: "list_all utf8_Endpoint ?eps" "list_all int64_Endpoint ?eps"
    by (simp_all add: sample_endpoints_wf)
  have a: "foreign_sample \<in> set [foreign_sample]" by simp
  have refs: "om_OwnerReferences (ae_Meta foreign_sample) =
      Some [\<lparr>or_APIVersion = ''argoproj.io/v1'', or_Kind = ''Application'', or_Name = ''team'', or_UID = ''uid-team''\<rparr>]"
    by (simp add: foreign_sample_def)
  have "\<forall>ref \<in> set [\<lparr>or_APIVersion = ''argoproj.io/v1'', or_Kind = ''Application'', or_Name = ''team'', or_UID = ''uid-team''\<rparr>].
      or_UID ref \<noteq> om_UID (kr_Meta sample_krakend)"
    "\<forall>b \<in> set [foreign_sample]. om_DeletionTimestamp (ae_Meta b) = None"
    "distinct (concat (map ae_paths [foreign_sample]))" "''/app1/secure'' \<in> set (ae_paths foreign_sample)"
    by (simp_all add: foreign_sample_def ae_paths_def sample_defs)
  with migration_loses_foreign_owned[OF a refs this(1) mem.finalizer_ops_axioms this(2,3) conv wf] show ?thesis by blast
qed

definition sample_clib :: ClientLib where
  "sample_clib =
     \<lparr>cl_HomeDir = ''/home/u/'', cl_ClientConfig = Inr, cl_AddKrakend = None, cl_AddCore = None,
      cl_New = (\<lambda>_. Inr \<lparr>rc_Krakends = (\<lambda>_. Inr \<lparr>krl_Items = [sample_krakend]\<rparr>),
                        rc_ApiEndpoints = (\<lambda>_. Inr \<lparr>ael_Items = [owned_sample sample_app1]\<rparr>)\<rparr>),
      cl_Namespace = (\<lambda>_. Inr ''ns1'')\<rparr>"

theorem ConvertKrakends_correct_witness:
  "\<exists>out app config partials docs. ConvertKrakends Map.empty sample_clib sample_migration = Running (Inr out) \<and>
     list_all2 (\<lambda>obj d. serializeToYAML sample_migration obj = Inr d)
       [OApplication app, OConfigMap config, OConfigMap partials] docs \<and>
     out = str_Join (dropWhile (\<lambda>d. d = []) docs) separator \<and> nap_Name app = ''ns1-gw''"
proof -
  obtain c where c: "NewClient Map.empty sample_clib = Running (c, ''ns1'')"
    "rc_Krakends c ''ns1'' = Inr \<lparr>krl_Items = [sample_krakend]\<rparr>"
    "rc_ApiEndpoints c ''ns1'' = Inr \<lparr>ael_Items = [owned_sample sample_app1]\<rparr>"
    by (simp add: NewClient_def sample_clib_def)
  obtain app where app: "ToApp sample_migration sample_krakend [owned_sample sample_app1] = Running app"
    "nap_Name app = ''ns1-gw''"
    by (simp add: ToApp_def ParseYaml_def sample_migration_def Let_def resourceName_def sample_defs)
  obtain config where config: "ToKrakendConfig sample_migration sample_krakend = Inr config"
    by (simp add: ToKrakendConfig_def ParseYaml_def sample_migration_def)
  obtain partials where partials: "ToPartialsConfig sample_krakend (owned sample_krakend [owned_sample sample_app1]) = Inr partials"
    by (simp add: ToPartialsConfig_def json_MarshalIndent_def ToKrakendEndpoints_def parseKrakendEndpointsSpec_def
        findAuthProvider_def owned_def owner_refs_def owned_sample_def kr_ownerRef_def sample_defs)
  let ?objs = "[OApplication app, OConfigMap config, OConfigMap partials]"
  have "triple sample_migration [owned_sample sample_app1] sample_krakend ?objs"
    using app config partials by (simp add: triple_def)
  then have tr: "list_all2 (triple sample_migration (ael_Items \<lparr>ael_Items = [owned_sample sample_app1]\<rparr>))
      (krl_Items \<lparr>krl_Items = [sample_krakend]\<rparr>) [?objs]" by simp
  have "\<exists>d. serializeToYAML sample_migration obj = Inr d" for obj
    by (simp add: serializeToYAML_def sample_migration_def)
  then obtain f where "\<And>obj. serializeToYAML sample_migration obj = Inr (f obj)" by metis
  then have docs: "list_all2 (\<lambda>obj d. serializeToYAML sample_migration obj = Inr d) ?objs (map f ?objs)" by simp
  let ?out = "str_Join (dropWhile (\<lambda>d. d = []) (map f ?objs)) separator"
  have "ConvertKrakends Map.empty sample_clib sample_migration = Running (Inr ?out)"
    unfolding ConvertKrakends_correct
    by (intro exI conjI, rule c(1), rule c(2), rule c(3), rule tr) (use docs in \<open>simp_all only: concat.simps append_Nil2\<close>)
  with docs app(2) show ?thesis by blast
qed

end
