(* ===== verification/Manager.thy ===== *)
theory Manager
  imports Krakend_Controller Controller_Traces Go_Process
begin

text \<open>
  \<^verbatim>\<open>cmd/main.go\<close>: the process of the operator. Flags with their defaults from the environment, the
  manager, the chart, both reconcilers, the webhook and the health checks are set up in this order;
  the first failure ends the process. The flag package with the flags of the logger bound to it, and
  the manager library, are parameters; the configuration of logging is not modelled.
\<close>

section \<open>Set-up\<close>

text \<open>\<^verbatim>\<open>utilruntime.Must\<close> panics.\<close>

definition main_init :: "error option \<Rightarrow> error option \<Rightarrow> unit go" where
  "main_init core krakend =
     (case core of
        Some err \<Rightarrow> Panic (error_text err)
      | None \<Rightarrow> (case krakend of Some err \<Rightarrow> Panic (error_text err) | None \<Rightarrow> Ret ()))"


record Flags =
  fl_metricsAddr :: string
  fl_probeAddr :: string
  fl_enableLeaderElection :: bool
  fl_debug :: bool
  fl_interval :: "64 word"
  fl_krakendChartPath :: string
  fl_netpolEnabled :: bool



record Options =
  op_BindAddress :: string
  op_HealthProbeBindAddress :: string
  op_LeaderElection :: bool
  op_LeaderElectionID :: string



record 's ManagerLib =
  mn_Parse :: "Flags \<Rightarrow> Flags process"
  mn_GetConfigOrDie :: "unit process"
  mn_Stat :: "string \<Rightarrow> error option"
  mn_Load :: "string \<Rightarrow> Chart result"
  mn_NewManager :: "Options \<Rightarrow> ('s, unit result) io"
  mn_Setup_Krakend :: "KrakendReconciler \<Rightarrow> ('s, unit result) io"
  mn_Setup_ApiEndpoints :: "ApiEndpointsReconciler \<Rightarrow> ('s, unit result) io"
  mn_Setup_Webhook :: "('s, unit result) io"
  mn_AddHealthzCheck :: "string \<Rightarrow> ('s, unit result) io"
  mn_AddReadyzCheck :: "string \<Rightarrow> ('s, unit result) io"
  mn_Start :: "('s, unit result) io"

section \<open>The process\<close>





section \<open>What is set up, in which order\<close>

datatype setup_step =
    NewManager Options
  | SetupKrakend KrakendReconciler
  | SetupApiEndpoints ApiEndpointsReconciler
  | SetupWebhook
  | HealthzCheck string
  | ReadyzCheck string
  | Start

definition noting :: "setup_step \<Rightarrow> ('s, unit result) io \<Rightarrow> ('s \<times> (setup_step \<times> bool) list, unit result) io" where
  "noting st call = lift_write (Pair st) call"

definition recording_manager :: "'s ManagerLib \<Rightarrow> ('s \<times> (setup_step \<times> bool) list) ManagerLib" where
  "recording_manager lib =
     \<lparr>mn_Parse = mn_Parse lib, mn_GetConfigOrDie = mn_GetConfigOrDie lib, mn_Stat = mn_Stat lib, mn_Load = mn_Load lib,
      mn_NewManager = (\<lambda>os. noting (NewManager os) (mn_NewManager lib os)),
      mn_Setup_Krakend = (\<lambda>r. noting (SetupKrakend r) (mn_Setup_Krakend lib r)),
      mn_Setup_ApiEndpoints = (\<lambda>r. noting (SetupApiEndpoints r) (mn_Setup_ApiEndpoints lib r)),
      mn_Setup_Webhook = noting SetupWebhook (mn_Setup_Webhook lib),
      mn_AddHealthzCheck = (\<lambda>n. noting (HealthzCheck n) (mn_AddHealthzCheck lib n)),
      mn_AddReadyzCheck = (\<lambda>n. noting (ReadyzCheck n) (mn_AddReadyzCheck lib n)),
      mn_Start = noting Start (mn_Start lib)\<rparr>"

lemma recording_manager_simps [simp]:
  "mn_Parse (recording_manager lib) = mn_Parse lib"
  "mn_GetConfigOrDie (recording_manager lib) = mn_GetConfigOrDie lib"
  "mn_Stat (recording_manager lib) = mn_Stat lib" "mn_Load (recording_manager lib) = mn_Load lib"
  "mn_NewManager (recording_manager lib) os = noting (NewManager os) (mn_NewManager lib os)"
  "mn_Setup_Krakend (recording_manager lib) kr = noting (SetupKrakend kr) (mn_Setup_Krakend lib kr)"
  "mn_Setup_ApiEndpoints (recording_manager lib) ar = noting (SetupApiEndpoints ar) (mn_Setup_ApiEndpoints lib ar)"
  "mn_Setup_Webhook (recording_manager lib) = noting SetupWebhook (mn_Setup_Webhook lib)"
  "mn_AddHealthzCheck (recording_manager lib) n = noting (HealthzCheck n) (mn_AddHealthzCheck lib n)"
  "mn_AddReadyzCheck (recording_manager lib) n = noting (ReadyzCheck n) (mn_AddReadyzCheck lib n)"
  "mn_Start (recording_manager lib) = noting Start (mn_Start lib)"
  by (simp_all add: recording_manager_def)








section \<open>Properties\<close>





end
