(* ===== verification/Deep_Copy.thy ===== *)
theory Deep_Copy
  imports Prelude "HOL-Library.AList"
begin

text \<open>
  \<^verbatim>\<open>api/v1/zz_generated.deepcopy.go\<close>, over an explicit memory: the objects the controllers get from
  the cache are shared, and the copies are what keeps their changes private. Memory holds arrays, a
  slice is an array with an offset and a length, a pointer leads to an array of one element, a map to
  an array with one struct of its entries. A struct is the list of its fields under their Go names.
  The copy functions of the Kubernetes types are parameters.
\<close>

section \<open>Memory\<close>

type_synonym addr = nat

datatype val =
    Scalar string
  | Struct "(string \<times> val) list"
  | Ptr "addr option"
  | Slice "(addr \<times> nat \<times> nat) option" \<comment> \<open>array, offset, length\<close>
  | MapRef "addr option"

record memory =
  cells :: "addr \<rightharpoonup> val list"
  limit :: addr

type_synonym 'a mem = "(memory, 'a) state"

definition array_at :: "memory \<Rightarrow> addr \<Rightarrow> val list" where
  "array_at h a = (case cells h a of None \<Rightarrow> [] | Some xs \<Rightarrow> xs)"

definition read_array :: "addr \<Rightarrow> val list mem" where
  "read_array a = State (\<lambda>h. (array_at h a, h))"

text \<open>\<^verbatim>\<open>make\<close> and \<^verbatim>\<open>new\<close>: a fresh array of zero values, which are written before they are read.\<close>

definition new_array :: "nat \<Rightarrow> addr mem" where
  "new_array n = State (\<lambda>h. (limit h,
     h\<lparr>cells := (cells h)(limit h \<mapsto> replicate n (Scalar [])), limit := Suc (limit h)\<rparr>))"

definition write_array :: "addr \<Rightarrow> val list \<Rightarrow> unit mem" where
  "write_array a xs = State (\<lambda>h. ((), h\<lparr>cells := (cells h)(a \<mapsto> xs)\<rparr>))"

section \<open>The statements of the generated code\<close>

fun copy_elems :: "(val \<Rightarrow> val mem) \<Rightarrow> val list \<Rightarrow> val list mem" where
  "copy_elems f [] = State_Monad.return []"
| "copy_elems f (x # xs) = do { y \<leftarrow> f x; ys \<leftarrow> copy_elems f xs; State_Monad.return (y # ys) }"

text \<open>A slice that is not nil: a new array of its length, filled element by element.\<close>

definition copy_slice :: "(val \<Rightarrow> val mem) \<Rightarrow> val \<Rightarrow> val mem" where
  "copy_slice f v =
     (case v of
        Slice (Some (a, off, n)) \<Rightarrow> do {
          xs \<leftarrow> read_array a;
          b \<leftarrow> new_array n;
          ys \<leftarrow> copy_elems f (take n (drop off xs));
          _ \<leftarrow> write_array b ys;
          State_Monad.return (Slice (Some (b, 0, n)))
        }
      | _ \<Rightarrow> State_Monad.return v)"

text \<open>A pointer that is not nil: a new element, the copy of the one it leads to.\<close>

definition copy_ptr :: "(val \<Rightarrow> val mem) \<Rightarrow> val \<Rightarrow> val mem" where
  "copy_ptr f v =
     (case v of
        Ptr (Some a) \<Rightarrow> do {
          xs \<leftarrow> read_array a;
          b \<leftarrow> new_array 1;
          ys \<leftarrow> copy_elems f (take 1 xs);
          _ \<leftarrow> write_array b ys;
          State_Monad.return (Ptr (Some b))
        }
      | _ \<Rightarrow> State_Monad.return v)"

text \<open>A map that is not nil: a new map, into which the entries are put one after the other.\<close>

fun copy_entries :: "val \<Rightarrow> val" where
  "copy_entries (Struct es) = Struct (fold (\<lambda>(key, val) out. AList.update key val out) es [])"
| "copy_entries v = v"

definition copy_map :: "val \<Rightarrow> val mem" where
  "copy_map v =
     (case v of
        MapRef (Some a) \<Rightarrow> do {
          xs \<leftarrow> read_array a;
          b \<leftarrow> new_array 1;
          _ \<leftarrow> write_array b (map copy_entries xs);
          State_Monad.return (MapRef (Some b))
        }
      | _ \<Rightarrow> State_Monad.return v)"

text \<open>The field of a struct that a statement reads and writes.\<close>

definition on_field :: "string \<Rightarrow> (val \<Rightarrow> val mem) \<Rightarrow> val \<Rightarrow> val mem" where
  "on_field name f v =
     (case v of
        Struct fs \<Rightarrow>
          (case map_of fs name of
             None \<Rightarrow> State_Monad.return v
           | Some x \<Rightarrow> do { y \<leftarrow> f x; State_Monad.return (Struct (AList.update name y fs)) })
      | _ \<Rightarrow> State_Monad.return v)"

text \<open>Plain assignment of a value without references.\<close>

definition assign_value :: "val \<Rightarrow> val mem" where
  "assign_value v = State_Monad.return v"

text \<open>\<^verbatim>\<open>DeepCopy\<close>: nil for nil, otherwise a new struct the copy is written to.\<close>

definition DeepCopy :: "(val \<Rightarrow> val mem) \<Rightarrow> val \<Rightarrow> val mem" where
  "DeepCopy DeepCopyInto in' = copy_ptr DeepCopyInto in'"

text \<open>\<^verbatim>\<open>DeepCopyObject\<close>: the copy as an object, nil if it is nil.\<close>

definition DeepCopyObject :: "(val \<Rightarrow> val mem) \<Rightarrow> val \<Rightarrow> val option mem" where
  "DeepCopyObject DeepCopyInto in' = do {
     c \<leftarrow> DeepCopy DeepCopyInto in';
     State_Monad.return (if c \<noteq> Ptr None then Some c else None)
   }"

section \<open>The copy functions\<close>

text \<open>The functions of the Kubernetes types, of which the API types hold values.\<close>

record Foreign =
  fo_ObjectMeta :: "val \<Rightarrow> val mem"
  fo_ListMeta :: "val \<Rightarrow> val mem"
  fo_Time :: "val \<Rightarrow> val mem"
  fo_ResourceRequirements :: "val \<Rightarrow> val mem"
  fo_EnvVar :: "val \<Rightarrow> val mem"

definition Path_DeepCopyInto :: "val \<Rightarrow> val mem" where "Path_DeepCopyInto = assign_value"
definition RateLimit_DeepCopyInto :: "val \<Rightarrow> val mem" where "RateLimit_DeepCopyInto = assign_value"
definition AuthProvider_DeepCopyInto :: "val \<Rightarrow> val mem" where "AuthProvider_DeepCopyInto = assign_value"
definition Image_DeepCopyInto :: "val \<Rightarrow> val mem" where "Image_DeepCopyInto = assign_value"

definition Endpoint_DeepCopyInto :: "val \<Rightarrow> val mem" where
  "Endpoint_DeepCopyInto in' = do {
     out \<leftarrow> on_field ''ForwardHeaders'' (copy_slice assign_value) in';
     on_field ''QueryParams'' (copy_slice assign_value) out
   }"

definition Auth_DeepCopyInto :: "val \<Rightarrow> val mem" where
  "Auth_DeepCopyInto in' = do {
     out \<leftarrow> on_field ''Audience'' (copy_slice assign_value) in';
     on_field ''Scope'' (copy_slice assign_value) out
   }"

definition ApiEndpointsSpec_DeepCopyInto :: "val \<Rightarrow> val mem" where
  "ApiEndpointsSpec_DeepCopyInto in' = do {
     out \<leftarrow> on_field ''Auth'' Auth_DeepCopyInto in';
     out \<leftarrow> on_field ''RateLimit'' (copy_ptr assign_value) out;
     out \<leftarrow> on_field ''Endpoints'' (copy_slice Endpoint_DeepCopyInto) out;
     on_field ''OpenEndpoints'' (copy_slice Endpoint_DeepCopyInto) out
   }"

definition ApiEndpointsStatus_DeepCopyInto :: "Foreign \<Rightarrow> val \<Rightarrow> val mem" where
  "ApiEndpointsStatus_DeepCopyInto F in' = on_field ''SynchronizationTimestamp'' (fo_Time F) in'"

definition ApiEndpoints_DeepCopyInto :: "Foreign \<Rightarrow> val \<Rightarrow> val mem" where
  "ApiEndpoints_DeepCopyInto F in' = do {
     out \<leftarrow> on_field ''TypeMeta'' assign_value in';
     out \<leftarrow> on_field ''ObjectMeta'' (fo_ObjectMeta F) out;
     out \<leftarrow> on_field ''Spec'' ApiEndpointsSpec_DeepCopyInto out;
     on_field ''Status'' (ApiEndpointsStatus_DeepCopyInto F) out
   }"

definition ApiEndpointsList_DeepCopyInto :: "Foreign \<Rightarrow> val \<Rightarrow> val mem" where
  "ApiEndpointsList_DeepCopyInto F in' = do {
     out \<leftarrow> on_field ''TypeMeta'' assign_value in';
     out \<leftarrow> on_field ''ListMeta'' (fo_ListMeta F) out;
     on_field ''Items'' (copy_slice (ApiEndpoints_DeepCopyInto F)) out
   }"

definition Host_DeepCopyInto :: "val \<Rightarrow> val mem" where
  "Host_DeepCopyInto in' = on_field ''Paths'' (copy_slice assign_value) in'"

definition Ingress_DeepCopyInto :: "val \<Rightarrow> val mem" where
  "Ingress_DeepCopyInto in' = do {
     out \<leftarrow> on_field ''Annotations'' copy_map in';
     on_field ''Hosts'' (copy_slice Host_DeepCopyInto) out
   }"

definition KrakendDeployment_DeepCopyInto :: "Foreign \<Rightarrow> val \<Rightarrow> val mem" where
  "KrakendDeployment_DeepCopyInto F in' = do {
     out \<leftarrow> on_field ''Resources'' (fo_ResourceRequirements F) in';
     out \<leftarrow> on_field ''Image'' assign_value out;
     on_field ''ExtraEnvVars'' (copy_slice (fo_EnvVar F)) out
   }"

definition KrakendSpec_DeepCopyInto :: "Foreign \<Rightarrow> val \<Rightarrow> val mem" where
  "KrakendSpec_DeepCopyInto F in' = do {
     out \<leftarrow> on_field ''Ingress'' Ingress_DeepCopyInto in';
     out \<leftarrow> on_field ''AuthProviders'' (copy_slice assign_value) out;
     on_field ''Deployment'' (KrakendDeployment_DeepCopyInto F) out
   }"

definition KrakendStatus_DeepCopyInto :: "Foreign \<Rightarrow> val \<Rightarrow> val mem" where
  "KrakendStatus_DeepCopyInto F in' = on_field ''SynchronizationTimestamp'' (fo_Time F) in'"

definition Krakend_DeepCopyInto :: "Foreign \<Rightarrow> val \<Rightarrow> val mem" where
  "Krakend_DeepCopyInto F in' = do {
     out \<leftarrow> on_field ''TypeMeta'' assign_value in';
     out \<leftarrow> on_field ''ObjectMeta'' (fo_ObjectMeta F) out;
     out \<leftarrow> on_field ''Spec'' (KrakendSpec_DeepCopyInto F) out;
     on_field ''Status'' (KrakendStatus_DeepCopyInto F) out
   }"

definition KrakendList_DeepCopyInto :: "Foreign \<Rightarrow> val \<Rightarrow> val mem" where
  "KrakendList_DeepCopyInto F in' = do {
     out \<leftarrow> on_field ''TypeMeta'' assign_value in';
     out \<leftarrow> on_field ''ListMeta'' (fo_ListMeta F) out;
     on_field ''Items'' (copy_slice (Krakend_DeepCopyInto F)) out
   }"

text \<open>The remaining functions of every type.\<close>

definition Path_DeepCopy :: "val \<Rightarrow> val mem" where
  "Path_DeepCopy = DeepCopy Path_DeepCopyInto"

definition RateLimit_DeepCopy :: "val \<Rightarrow> val mem" where
  "RateLimit_DeepCopy = DeepCopy RateLimit_DeepCopyInto"

definition AuthProvider_DeepCopy :: "val \<Rightarrow> val mem" where
  "AuthProvider_DeepCopy = DeepCopy AuthProvider_DeepCopyInto"

definition Image_DeepCopy :: "val \<Rightarrow> val mem" where
  "Image_DeepCopy = DeepCopy Image_DeepCopyInto"

definition Endpoint_DeepCopy :: "val \<Rightarrow> val mem" where
  "Endpoint_DeepCopy = DeepCopy Endpoint_DeepCopyInto"

definition Auth_DeepCopy :: "val \<Rightarrow> val mem" where
  "Auth_DeepCopy = DeepCopy Auth_DeepCopyInto"

definition ApiEndpointsSpec_DeepCopy :: "val \<Rightarrow> val mem" where
  "ApiEndpointsSpec_DeepCopy = DeepCopy ApiEndpointsSpec_DeepCopyInto"

definition ApiEndpointsStatus_DeepCopy :: "Foreign \<Rightarrow> val \<Rightarrow> val mem" where
  "ApiEndpointsStatus_DeepCopy F = DeepCopy (ApiEndpointsStatus_DeepCopyInto F)"

definition ApiEndpoints_DeepCopy :: "Foreign \<Rightarrow> val \<Rightarrow> val mem" where
  "ApiEndpoints_DeepCopy F = DeepCopy (ApiEndpoints_DeepCopyInto F)"

definition ApiEndpointsList_DeepCopy :: "Foreign \<Rightarrow> val \<Rightarrow> val mem" where
  "ApiEndpointsList_DeepCopy F = DeepCopy (ApiEndpointsList_DeepCopyInto F)"

definition Host_DeepCopy :: "val \<Rightarrow> val mem" where
  "Host_DeepCopy = DeepCopy Host_DeepCopyInto"

definition Ingress_DeepCopy :: "val \<Rightarrow> val mem" where
  "Ingress_DeepCopy = DeepCopy Ingress_DeepCopyInto"

definition KrakendDeployment_DeepCopy :: "Foreign \<Rightarrow> val \<Rightarrow> val mem" where
  "KrakendDeployment_DeepCopy F = DeepCopy (KrakendDeployment_DeepCopyInto F)"

definition KrakendSpec_DeepCopy :: "Foreign \<Rightarrow> val \<Rightarrow> val mem" where
  "KrakendSpec_DeepCopy F = DeepCopy (KrakendSpec_DeepCopyInto F)"

definition KrakendStatus_DeepCopy :: "Foreign \<Rightarrow> val \<Rightarrow> val mem" where
  "KrakendStatus_DeepCopy F = DeepCopy (KrakendStatus_DeepCopyInto F)"

definition Krakend_DeepCopy :: "Foreign \<Rightarrow> val \<Rightarrow> val mem" where
  "Krakend_DeepCopy F = DeepCopy (Krakend_DeepCopyInto F)"

definition KrakendList_DeepCopy :: "Foreign \<Rightarrow> val \<Rightarrow> val mem" where
  "KrakendList_DeepCopy F = DeepCopy (KrakendList_DeepCopyInto F)"

definition ApiEndpoints_DeepCopyObject :: "Foreign \<Rightarrow> val \<Rightarrow> val option mem" where
  "ApiEndpoints_DeepCopyObject F = DeepCopyObject (ApiEndpoints_DeepCopyInto F)"

definition ApiEndpointsList_DeepCopyObject :: "Foreign \<Rightarrow> val \<Rightarrow> val option mem" where
  "ApiEndpointsList_DeepCopyObject F = DeepCopyObject (ApiEndpointsList_DeepCopyInto F)"

definition Krakend_DeepCopyObject :: "Foreign \<Rightarrow> val \<Rightarrow> val option mem" where
  "Krakend_DeepCopyObject F = DeepCopyObject (Krakend_DeepCopyInto F)"

definition KrakendList_DeepCopyObject :: "Foreign \<Rightarrow> val \<Rightarrow> val option mem" where
  "KrakendList_DeepCopyObject F = DeepCopyObject (KrakendList_DeepCopyInto F)"

section \<open>Types\<close>

datatype ty =
    TScalar
  | TStruct "(string \<times> ty) list"
  | TPtr ty
  | TSlice ty
  | TMap

abbreviation window :: "memory \<Rightarrow> addr \<Rightarrow> nat \<Rightarrow> nat \<Rightarrow> val list" where
  "window h a off n \<equiv> take n (drop off (array_at h a))"

text \<open>The entries of a map: keys occur once, values are strings.\<close>

definition map_entries :: "val \<Rightarrow> bool" where
  "map_entries v \<longleftrightarrow> (case v of Struct fs \<Rightarrow> distinct (map fst fs) \<and> list_all (\<lambda>(k, x). \<exists>s. x = Scalar s) fs | _ \<Rightarrow> False)"

text \<open>A value of a type: references lead to allocated arrays of values of the right type.\<close>

fun has_ty :: "memory \<Rightarrow> ty \<Rightarrow> val \<Rightarrow> bool"
  and has_fields :: "memory \<Rightarrow> (string \<times> ty) list \<Rightarrow> (string \<times> val) list \<Rightarrow> bool" where
  "has_ty h TScalar v = (case v of Scalar _ \<Rightarrow> True | _ \<Rightarrow> False)"
| "has_ty h (TStruct ts) v = (case v of Struct fs \<Rightarrow> has_fields h ts fs | _ \<Rightarrow> False)"
| "has_ty h (TPtr t) v =
     (case v of
        Ptr None \<Rightarrow> True
      | Ptr (Some a) \<Rightarrow> a < limit h \<and> length (array_at h a) = 1 \<and> list_all (has_ty h t) (array_at h a)
      | _ \<Rightarrow> False)"
| "has_ty h (TSlice t) v =
     (case v of
        Slice None \<Rightarrow> True
      | Slice (Some (a, off, n)) \<Rightarrow>
          a < limit h \<and> off + n \<le> length (array_at h a) \<and> list_all (has_ty h t) (window h a off n)
      | _ \<Rightarrow> False)"
| "has_ty h TMap v =
     (case v of
        MapRef None \<Rightarrow> True
      | MapRef (Some a) \<Rightarrow> a < limit h \<and> length (array_at h a) = 1 \<and> list_all map_entries (array_at h a)
      | _ \<Rightarrow> False)"
| "has_fields h [] fs = (fs = [])"
| "has_fields h ((k, t) # ts) fs =
     (case fs of [] \<Rightarrow> False | (k', v) # fs' \<Rightarrow> k = k' \<and> has_ty h t v \<and> has_fields h ts fs')"

text \<open>What a value stands for, with all references followed, and the addresses it can reach.\<close>

datatype tree =
    Leaf string
  | Node "(string \<times> tree) list"
  | Elems "tree list option"
  | Entries "val list option"
  | Ill_typed

fun tree_of :: "memory \<Rightarrow> ty \<Rightarrow> val \<Rightarrow> tree"
  and tree_fields :: "memory \<Rightarrow> (string \<times> ty) list \<Rightarrow> (string \<times> val) list \<Rightarrow> (string \<times> tree) list" where
  "tree_of h TScalar v = (case v of Scalar s \<Rightarrow> Leaf s | _ \<Rightarrow> Ill_typed)"
| "tree_of h (TStruct ts) v = (case v of Struct fs \<Rightarrow> Node (tree_fields h ts fs) | _ \<Rightarrow> Ill_typed)"
| "tree_of h (TPtr t) v =
     (case v of
        Ptr None \<Rightarrow> Elems None
      | Ptr (Some a) \<Rightarrow> Elems (Some (map (tree_of h t) (array_at h a)))
      | _ \<Rightarrow> Ill_typed)"
| "tree_of h (TSlice t) v =
     (case v of
        Slice None \<Rightarrow> Elems None
      | Slice (Some (a, off, n)) \<Rightarrow> Elems (Some (map (tree_of h t) (window h a off n)))
      | _ \<Rightarrow> Ill_typed)"
| "tree_of h TMap v =
     (case v of
        MapRef None \<Rightarrow> Entries None
      | MapRef (Some a) \<Rightarrow> Entries (Some (array_at h a))
      | _ \<Rightarrow> Ill_typed)"
| "tree_fields h [] fs = []"
| "tree_fields h ((k, t) # ts) fs =
     (case fs of [] \<Rightarrow> [] | (k', v) # fs' \<Rightarrow> (k', tree_of h t v) # tree_fields h ts fs')"

fun reach :: "memory \<Rightarrow> ty \<Rightarrow> val \<Rightarrow> addr set"
  and reach_fields :: "memory \<Rightarrow> (string \<times> ty) list \<Rightarrow> (string \<times> val) list \<Rightarrow> addr set" where
  "reach h TScalar v = {}"
| "reach h (TStruct ts) v = (case v of Struct fs \<Rightarrow> reach_fields h ts fs | _ \<Rightarrow> {})"
| "reach h (TPtr t) v =
     (case v of Ptr (Some a) \<Rightarrow> insert a (\<Union>x \<in> set (array_at h a). reach h t x) | _ \<Rightarrow> {})"
| "reach h (TSlice t) v =
     (case v of Slice (Some (a, off, n)) \<Rightarrow> insert a (\<Union>x \<in> set (window h a off n). reach h t x) | _ \<Rightarrow> {})"
| "reach h TMap v = (case v of MapRef (Some a) \<Rightarrow> {a} | _ \<Rightarrow> {})"
| "reach_fields h [] fs = {}"
| "reach_fields h ((k, t) # ts) fs =
     (case fs of [] \<Rightarrow> {} | (k', v) # fs' \<Rightarrow> reach h t v \<union> reach_fields h ts fs')"

section \<open>Frames\<close>

lemma array_at_cong: "cells h' a = cells h a \<Longrightarrow> array_at h' a = array_at h a"
  by (simp add: array_at_def)

text \<open>Only the cells a value reaches matter for it.\<close>

lemma frame:
  "has_ty h t v \<Longrightarrow> limit h \<le> limit h' \<Longrightarrow> \<forall>a \<in> reach h t v. cells h' a = cells h a \<Longrightarrow>
     has_ty h' t v \<and> tree_of h' t v = tree_of h t v \<and> reach h' t v = reach h t v"
  "has_fields h ts fs \<Longrightarrow> limit h \<le> limit h' \<Longrightarrow> \<forall>a \<in> reach_fields h ts fs. cells h' a = cells h a \<Longrightarrow>
     has_fields h' ts fs \<and> tree_fields h' ts fs = tree_fields h ts fs \<and> reach_fields h' ts fs = reach_fields h ts fs"
proof (induction h t v and h ts fs rule: has_ty_has_fields.induct)
  case (3 h t v)
  show ?case
  proof (cases v)
    case (Ptr p)
    show ?thesis
    proof (cases p)
      case (Some a)
      have "array_at h' a = array_at h a" using 3(4) Ptr Some by (intro array_at_cong) simp
      moreover have "has_ty h' t x \<and> tree_of h' t x = tree_of h t x \<and> reach h' t x = reach h t x"
        if "x \<in> set (array_at h a)" for x
        using 3(1)[OF Ptr Some that] 3(2-4) Ptr Some that by (auto simp: list_all_iff)
      ultimately show ?thesis using 3(2,3) Ptr Some by (auto simp: list_all_iff)
    qed (use Ptr in simp)
  qed (use 3 in simp_all)
next
  case (4 h t v)
  show ?case
  proof (cases v)
    case (Slice p)
    show ?thesis
    proof (cases p)
      case (Some q)
      obtain a off n where q: "q = (a, off, n)" by (cases q)
      have same: "array_at h' a = array_at h a" using 4(4) Slice Some q by (intro array_at_cong) simp
      moreover have "has_ty h' t x \<and> tree_of h' t x = tree_of h t x \<and> reach h' t x = reach h t x"
        if "x \<in> set (window h a off n)" for x
        using 4(1)[OF Slice Some q[symmetric] refl that] 4(2-4) Slice Some q that by (auto simp: list_all_iff)
      ultimately show ?thesis using 4(2,3) Slice Some q by (auto simp: list_all_iff)
    qed (use Slice in simp)
  qed (use 4 in simp_all)
next
  case (5 h v)
  show ?case
  proof (cases v)
    case (MapRef p)
    show ?thesis
    proof (cases p)
      case (Some a)
      then have "array_at h' a = array_at h a" using 5(3) MapRef by (intro array_at_cong) simp
      with 5 MapRef Some show ?thesis by simp
    qed (use MapRef in simp)
  qed (use 5 in simp_all)
next
  case (7 h k t ts fs)
  then obtain v fs' where fs: "fs = (k, v) # fs'" "has_ty h t v" "has_fields h ts fs'"
    by (auto split: list.splits)
  have "has_ty h' t v \<and> tree_of h' t v = tree_of h t v \<and> reach h' t v = reach h t v"
    using 7(1)[OF fs(1) refl fs(2) 7(4)] 7(5) fs(1) by simp
  moreover have "has_fields h' ts fs' \<and> tree_fields h' ts fs' = tree_fields h ts fs' \<and> reach_fields h' ts fs' = reach_fields h ts fs'"
    using 7(2)[OF fs(1) refl fs(3) 7(4)] 7(5) fs(1) by simp
  ultimately show ?case using fs(1) by simp
qed (auto split: val.splits)

lemma reach_lt:
  "has_ty h t v \<Longrightarrow> a \<in> reach h t v \<Longrightarrow> a < limit h"
  "has_fields h ts fs \<Longrightarrow> a \<in> reach_fields h ts fs \<Longrightarrow> a < limit h"
  by (induction h t v and h ts fs rule: has_ty_has_fields.induct)
    (fastforce split: val.splits option.splits list.splits simp: list_all_iff)+

definition extends :: "memory \<Rightarrow> memory \<Rightarrow> bool" where
  "extends h h' \<longleftrightarrow> limit h \<le> limit h' \<and> (\<forall>a < limit h. cells h' a = cells h a)"

lemma extends_refl [simp]: "extends h h"
  by (simp add: extends_def)

lemma extends_trans: "extends h1 h2 \<Longrightarrow> extends h2 h3 \<Longrightarrow> extends h1 h3"
  by (auto simp: extends_def)

lemma extends_frame:
  assumes "extends h h'" "has_ty h t v"
  shows "has_ty h' t v" "tree_of h' t v = tree_of h t v" "reach h' t v = reach h t v"
  using frame(1)[OF assms(2), of h'] assms reach_lt(1)[OF assms(2)] by (auto simp: extends_def)

section \<open>Deep copies\<close>

text \<open>
  The contract: a copy of a well-typed value is well typed and stands for the same tree, reaches only
  memory that was allocated by copying, and leaves the memory there was alone.
\<close>

definition deep_copies :: "ty \<Rightarrow> (val \<Rightarrow> val mem) \<Rightarrow> bool" where
  "deep_copies t f \<longleftrightarrow>
     (\<forall>h v w h'. has_ty h t v \<longrightarrow> run_state (f v) h = (w, h') \<longrightarrow>
        extends h h' \<and> has_ty h' t w \<and> tree_of h' t w = tree_of h t v \<and> (\<forall>a \<in> reach h' t w. limit h \<le> a))"

lemma deep_copiesD:
  assumes "deep_copies t f" "has_ty h t v" "run_state (f v) h = (w, h')"
  shows "extends h h'" "has_ty h' t w" "tree_of h' t w = tree_of h t v" "a \<in> reach h' t w \<Longrightarrow> limit h \<le> a"
  using assms unfolding deep_copies_def by blast+

fun flat :: "ty \<Rightarrow> bool"
  and flat_fields :: "(string \<times> ty) list \<Rightarrow> bool" where
  "flat TScalar = True"
| "flat (TStruct ts) = flat_fields ts"
| "flat t = False"
| "flat_fields [] = True"
| "flat_fields ((k, t) # ts) = (flat t \<and> flat_fields ts)"

lemma flat_reach:
  "has_ty h t v \<Longrightarrow> flat t \<Longrightarrow> reach h t v = {}"
  "has_fields h ts fs \<Longrightarrow> flat_fields ts \<Longrightarrow> reach_fields h ts fs = {}"
  by (induction h t v and h ts fs rule: has_ty_has_fields.induct) (auto split: val.splits list.splits)

lemma deep_copies_assign: "flat t \<Longrightarrow> deep_copies t assign_value"
  by (auto simp: deep_copies_def assign_value_def run_simps flat_reach)

lemma copy_elems_correct:
  assumes "deep_copies t f"
  shows "list_all (has_ty h t) xs \<Longrightarrow> run_state (copy_elems f xs) h = (ys, h') \<Longrightarrow>
    extends h h' \<and> length ys = length xs \<and> list_all (has_ty h' t) ys \<and>
    map (tree_of h' t) ys = map (tree_of h t) xs \<and> (\<forall>y \<in> set ys. \<forall>a \<in> reach h' t y. limit h \<le> a)"
proof (induction xs arbitrary: h ys)
  case Nil
  then show ?case by (simp add: run_simps)
next
  case (Cons x xs)
  obtain y h1 where x: "run_state (f x) h = (y, h1)" by fastforce
  obtain zs h2 where xs: "run_state (copy_elems f xs) h1 = (zs, h2)" by fastforce
  with Cons.prems(2) x have ys: "ys = y # zs" "h' = h2" by (simp_all add: run_simps)
  have hx: "has_ty h t x" "list_all (has_ty h t) xs" using Cons.prems(1) by simp_all
  note c = deep_copiesD[OF assms hx(1) x]
  have moved: "has_ty h1 t z \<and> tree_of h1 t z = tree_of h t z" if "z \<in> set xs" for z
    using extends_frame[OF c(1)] hx(2) that by (auto simp: list_all_iff)
  then have "list_all (has_ty h1 t) xs" by (simp add: list_all_iff)
  from Cons.IH[OF this xs[folded ys(2)]] have ih: "extends h1 h'" "length zs = length xs" "list_all (has_ty h' t) zs"
    "map (tree_of h' t) zs = map (tree_of h1 t) xs" "\<forall>z \<in> set zs. \<forall>a \<in> reach h' t z. limit h1 \<le> a" by blast+
  have "map (tree_of h1 t) xs = map (tree_of h t) xs" using moved by simp
  moreover note extends_frame[OF ih(1) c(2)]
  moreover have "limit h \<le> limit h1" using c(1) by (simp add: extends_def)
  ultimately show ?case
    using ys ih c extends_trans[OF c(1) ih(1)] by fastforce
qed

text \<open>The array a copy is written to is not reached by its elements.\<close>

lemma copy_array_correct:
  assumes f: "deep_copies t f" and xs: "list_all (has_ty h t) xs"
    and run: "run_state (do { b \<leftarrow> new_array n; ys \<leftarrow> copy_elems f xs; _ \<leftarrow> write_array b ys; State_Monad.return b }) h = (b, h')"
  shows "extends h h' \<and> b = limit h \<and> b < limit h' \<and> length (array_at h' b) = length xs \<and>
    list_all (has_ty h' t) (array_at h' b) \<and> map (tree_of h' t) (array_at h' b) = map (tree_of h t) xs \<and>
    (\<forall>y \<in> set (array_at h' b). \<forall>a \<in> reach h' t y. limit h \<le> a)"
proof -
  define h1 where "h1 = h\<lparr>cells := (cells h)(limit h \<mapsto> replicate n (Scalar [])), limit := Suc (limit h)\<rparr>"
  obtain ys h2 where el: "run_state (copy_elems f xs) h1 = (ys, h2)" by fastforce
  have b: "b = limit h" and h': "h' = h2\<lparr>cells := (cells h2)(b \<mapsto> ys)\<rparr>"
    using run el by (auto simp: run_simps new_array_def write_array_def h1_def)
  have e1: "extends h h1" by (simp add: extends_def h1_def)
  have old: "has_ty h1 t x \<and> tree_of h1 t x = tree_of h t x" if "x \<in> set xs" for x
    using extends_frame[OF e1] xs that by (auto simp: list_all_iff)
  then have "list_all (has_ty h1 t) xs" by (simp add: list_all_iff)
  from copy_elems_correct[OF f this el] have c: "extends h1 h2" "length ys = length xs" "list_all (has_ty h2 t) ys"
    "map (tree_of h2 t) ys = map (tree_of h1 t) xs" "\<forall>y \<in> set ys. \<forall>a \<in> reach h2 t y. limit h1 \<le> a" by blast+
  have lim: "limit h1 = Suc b" "limit h2 = limit h'" "b < limit h2"
    using c(1) by (auto simp: b h1_def h' extends_def)
  have new: "has_ty h' t y \<and> tree_of h' t y = tree_of h2 t y \<and> reach h' t y = reach h2 t y" if "y \<in> set ys" for y
  proof (rule frame(1))
    show "has_ty h2 t y" using c(3) that by (simp add: list_all_iff)
    have "b \<notin> reach h2 t y" using c(5) that lim(1) by (metis Suc_n_not_le_n)
    then show "\<forall>a \<in> reach h2 t y. cells h' a = cells h2 a" by (auto simp: h')
  qed (simp add: lim(2))
  have "map (tree_of h1 t) xs = map (tree_of h t) xs" using old by simp
  moreover have "map (tree_of h' t) ys = map (tree_of h2 t) ys" using new by simp
  moreover have "extends h h'" using extends_trans[OF e1 c(1)] b by (auto simp: extends_def h')
  moreover have "array_at h' b = ys" by (simp add: array_at_def h')
  ultimately show ?thesis
    unfolding b using c lim new by (fastforce simp: list_all_iff b)
qed

lemma deep_copies_slice:
  assumes "deep_copies t f"
  shows "deep_copies (TSlice t) (copy_slice f)"
  unfolding deep_copies_def
proof (intro allI impI)
  fix h v w h'
  assume v: "has_ty h (TSlice t) v" and run: "run_state (copy_slice f v) h = (w, h')"
  show "extends h h' \<and> has_ty h' (TSlice t) w \<and> tree_of h' (TSlice t) w = tree_of h (TSlice t) v \<and>
      (\<forall>a \<in> reach h' (TSlice t) w. limit h \<le> a)"
  proof (cases "v = Slice None")
    case True
    with run have "w = Slice None" "h' = h" by (auto simp: copy_slice_def run_simps)
    with True show ?thesis by simp
  next
    case False
    with v obtain a off n where s: "v = Slice (Some (a, off, n))" "off + n \<le> length (array_at h a)"
      "list_all (has_ty h t) (window h a off n)" by (auto split: val.splits option.splits)
    define b where "b = limit h"
    have step: "run_state (do { b \<leftarrow> new_array n; ys \<leftarrow> copy_elems f (window h a off n); _ \<leftarrow> write_array b ys; State_Monad.return b }) h = (b, h')"
      and w: "w = Slice (Some (b, 0, n))"
      using run s(1) by (auto simp: copy_slice_def run_simps read_array_def new_array_def write_array_def b_def
          split: prod.splits)
    have "length (window h a off n) = n" using s(2) by simp
    with copy_array_correct[OF assms s(3) step] show ?thesis
      unfolding w s(1) by (auto simp: b_def)
  qed
qed

lemma deep_copies_ptr:
  assumes "deep_copies t f"
  shows "deep_copies (TPtr t) (copy_ptr f)"
  unfolding deep_copies_def
proof (intro allI impI)
  fix h v w h'
  assume v: "has_ty h (TPtr t) v" and run: "run_state (copy_ptr f v) h = (w, h')"
  show "extends h h' \<and> has_ty h' (TPtr t) w \<and> tree_of h' (TPtr t) w = tree_of h (TPtr t) v \<and>
      (\<forall>a \<in> reach h' (TPtr t) w. limit h \<le> a)"
  proof (cases "v = Ptr None")
    case True
    with run have "w = Ptr None" "h' = h" by (auto simp: copy_ptr_def run_simps)
    with True show ?thesis by simp
  next
    case False
    with v obtain a where s: "v = Ptr (Some a)" "length (array_at h a) = 1" "list_all (has_ty h t) (array_at h a)"
      by (auto split: val.splits option.splits)
    define b where "b = limit h"
    have "take 1 (array_at h a) = array_at h a" using s(2) by simp
    then have step: "run_state (do { b \<leftarrow> new_array 1; ys \<leftarrow> copy_elems f (array_at h a); _ \<leftarrow> write_array b ys; State_Monad.return b }) h = (b, h')"
      and w: "w = Ptr (Some b)"
      using run s(1) by (auto simp: copy_ptr_def run_simps read_array_def new_array_def write_array_def b_def
          split: prod.splits)
    from copy_array_correct[OF assms s(3) step] s(2) show ?thesis
      unfolding w s(1) by (auto simp: b_def)
  qed
qed

lemma copy_entries_same: "map_entries v \<Longrightarrow> copy_entries v = v"
proof -
  have "fold (\<lambda>(key, val) out. AList.update key val out) es acc = acc @ es" if "distinct (map fst (acc @ es))" for es acc
    using that
  proof (induction es arbitrary: acc)
    case (Cons e es)
    then have "fst e \<notin> set (map fst acc)" by auto
    then have "AList.update (fst e) (snd e) acc = acc @ [e]" by (induction acc) auto
    with Cons.IH[of "acc @ [e]"] Cons.prems show ?case by (simp add: split_beta)
  qed simp
  from this[of "[]"] show "map_entries v \<Longrightarrow> copy_entries v = v" by (auto simp: map_entries_def split: val.splits)
qed

lemma deep_copies_map: "deep_copies TMap copy_map"
  unfolding deep_copies_def
proof (intro allI impI)
  fix h v w h'
  assume v: "has_ty h TMap v" and run: "run_state (copy_map v) h = (w, h')"
  show "extends h h' \<and> has_ty h' TMap w \<and> tree_of h' TMap w = tree_of h TMap v \<and> (\<forall>a \<in> reach h' TMap w. limit h \<le> a)"
  proof (cases "v = MapRef None")
    case True
    with run have "w = MapRef None" "h' = h" by (auto simp: copy_map_def run_simps)
    with True show ?thesis by simp
  next
    case False
    with v obtain a where s: "v = MapRef (Some a)" "length (array_at h a) = 1" "list_all map_entries (array_at h a)"
      by (auto split: val.splits option.splits)
    have "map copy_entries (array_at h a) = array_at h a"
      using s(3) by (intro map_idI copy_entries_same) (simp add: list_all_iff)
    then have "w = MapRef (Some (limit h))"
      "h' = h\<lparr>cells := (cells h)(limit h \<mapsto> array_at h a), limit := Suc (limit h)\<rparr>"
      using run s(1) by (auto simp: copy_map_def run_simps read_array_def new_array_def write_array_def)
    then show ?thesis using s by (auto simp: extends_def array_at_def)
  qed
qed

section \<open>Structs\<close>

text \<open>The copied fields, one after the other.\<close>

fun run_fields :: "(string \<times> (val \<Rightarrow> val mem)) list \<Rightarrow> val \<Rightarrow> val mem" where
  "run_fields [] v = State_Monad.return v"
| "run_fields ((k, f) # kfs) v = do { w \<leftarrow> on_field k f v; run_fields kfs w }"

lemma fields_by_name:
  assumes "distinct (map fst ts)"
  shows "has_fields h ts fs \<longleftrightarrow> map fst fs = map fst ts \<and> (\<forall>(k, t) \<in> set ts. has_ty h t (the (map_of fs k)))"
    and "map fst fs = map fst ts \<Longrightarrow> tree_fields h ts fs = map (\<lambda>(k, t). (k, tree_of h t (the (map_of fs k)))) ts"
    and "map fst fs = map fst ts \<Longrightarrow> reach_fields h ts fs = (\<Union>(k, t) \<in> set ts. reach h t (the (map_of fs k)))"
proof -
  have skip: "map_of ((k, v) # fs') j = map_of fs' j"
    if "distinct (map fst ((k, t) # ts'))" "(j, u) \<in> set ts'" for k v fs' t and ts' :: "(string \<times> ty) list" and j u
    using that by force
  show "has_fields h ts fs \<longleftrightarrow> map fst fs = map fst ts \<and> (\<forall>(k, t) \<in> set ts. has_ty h t (the (map_of fs k)))"
    using assms
  proof (induction ts arbitrary: fs)
    case (Cons kt ts)
    obtain k t where kt: "kt = (k, t)" by fastforce
    show ?case
    proof (cases fs)
      case fs: (Cons kv fs')
      obtain k' v where kv: "kv = (k', v)" by fastforce
      have "(\<forall>(j, u) \<in> set ts. has_ty h u (the (map_of ((k, v) # fs') j))) = (\<forall>(j, u) \<in> set ts. has_ty h u (the (map_of fs' j)))"
        using skip[of k t ts _ _ v fs'] Cons.prems by (intro ball_cong) (auto simp: kt)
      then show ?thesis using Cons.IH[of fs'] Cons.prems by (cases "k' = k") (auto simp: kt fs kv)
    qed (simp add: kt)
  qed simp
  show "map fst fs = map fst ts \<Longrightarrow> tree_fields h ts fs = map (\<lambda>(k, t). (k, tree_of h t (the (map_of fs k)))) ts"
    using assms
  proof (induction ts arbitrary: fs)
    case (Cons kt ts)
    obtain k t where kt: "kt = (k, t)" by fastforce
    obtain v fs' where fs: "fs = (k, v) # fs'" using Cons.prems(1) by (cases fs) (auto simp: kt)
    have "map (\<lambda>(j, u). (j, tree_of h u (the (map_of ((k, v) # fs') j)))) ts = map (\<lambda>(j, u). (j, tree_of h u (the (map_of fs' j)))) ts"
      using skip[of k t ts _ _ v fs'] Cons.prems(2) by (intro map_cong refl) (auto simp: kt)
    then show ?case using Cons.IH[of fs'] Cons.prems by (simp add: kt fs)
  qed simp
  show "map fst fs = map fst ts \<Longrightarrow> reach_fields h ts fs = (\<Union>(k, t) \<in> set ts. reach h t (the (map_of fs k)))"
    using assms
  proof (induction ts arbitrary: fs)
    case (Cons kt ts)
    obtain k t where kt: "kt = (k, t)" by fastforce
    obtain v fs' where fs: "fs = (k, v) # fs'" using Cons.prems(1) by (cases fs) (auto simp: kt)
    have "(\<Union>(j, u) \<in> set ts. reach h u (the (map_of ((k, v) # fs') j))) = (\<Union>(j, u) \<in> set ts. reach h u (the (map_of fs' j)))"
      using skip[of k t ts _ _ v fs'] Cons.prems(2) by (intro SUP_cong refl) (auto simp: kt)
    then show ?case using Cons.IH[of fs'] Cons.prems by (simp add: kt fs)
  qed simp
qed

text \<open>One statement: the field is copied, the others stay what they are.\<close>

lemma on_field_correct:
  assumes f: "deep_copies t f" and d: "distinct (map fst ts)" and k: "map_of ts k = Some t"
    and fs: "has_fields h ts fs" and run: "run_state (on_field k f (Struct fs)) h = (w, h')"
  obtains y where "w = Struct (AList.update k y fs)" "extends h h'" "has_fields h' ts (AList.update k y fs)"
    "tree_fields h' ts (AList.update k y fs) = tree_fields h ts fs" "\<And>a. a \<in> reach h' t y \<Longrightarrow> limit h \<le> a"
    "\<And>j u. (j, u) \<in> set ts \<Longrightarrow> j \<noteq> k \<Longrightarrow> reach h' u (the (map_of fs j)) = reach h u (the (map_of fs j))"
proof -
  have kt: "(k, t) \<in> set ts" using k by (rule map_of_SomeD)
  have keys: "map fst fs = map fst ts" and field: "has_ty h u (the (map_of fs j))" if "(j, u) \<in> set ts" for j u
    using fs that unfolding fields_by_name(1)[OF d] by auto
  have keys: "map fst fs = map fst ts" using fs unfolding fields_by_name(1)[OF d] by simp
  then have "fst ` set fs = fst ` set ts" by (metis list.set_map)
  then have "k \<in> fst ` set fs" using kt by force
  then obtain x where x: "map_of fs k = Some x" by (metis map_of_eq_None_iff not_Some_eq)
  obtain y h1 where y: "run_state (f x) h = (y, h1)" by fastforce
  have out: "w = Struct (AList.update k y fs)" "h' = h1"
    using run x y by (auto simp: on_field_def run_simps)
  note c = deep_copiesD[OF f field[OF kt, unfolded x option.sel] y, folded out(2)]
  note old = extends_frame[OF c(1) field]
  have keys': "map fst (AList.update k y fs) = map fst ts"
    using kt keys by (force simp: update_keys)
  have same: "(j, u) \<in> set ts \<Longrightarrow> j = k \<Longrightarrow> u = t" for j u
    using k d by (metis map_of_eq_Some_iff option.inject)
  show thesis
  proof (rule that[OF out(1) c(1)])
    show "has_fields h' ts (AList.update k y fs)"
      unfolding fields_by_name(1)[OF d] using keys' c(2) old(1) same by (auto simp: update_conv')
    show "tree_fields h' ts (AList.update k y fs) = tree_fields h ts fs"
      unfolding fields_by_name(2)[OF d keys'] fields_by_name(2)[OF d keys]
      using c(3) old(2) same x by (auto simp: update_conv')
  qed (use c(4) old(3) in auto)
qed

lemma run_fields_invariant:
  assumes d: "distinct (map fst ts)"
  shows "\<forall>(k, f) \<in> set kfs. \<exists>t. map_of ts k = Some t \<and> deep_copies t f \<Longrightarrow> extends h0 h \<Longrightarrow> has_fields h ts fs \<Longrightarrow>
    \<forall>(k, t) \<in> set ts. k \<in> P \<longrightarrow> (\<forall>a \<in> reach h t (the (map_of fs k)). limit h0 \<le> a) \<Longrightarrow>
    run_state (run_fields kfs (Struct fs)) h = (w, h') \<Longrightarrow>
    \<exists>gs. w = Struct gs \<and> extends h0 h' \<and> has_fields h' ts gs \<and> tree_fields h' ts gs = tree_fields h ts fs \<and>
      (\<forall>(k, t) \<in> set ts. k \<in> P \<union> fst ` set kfs \<longrightarrow> (\<forall>a \<in> reach h' t (the (map_of gs k)). limit h0 \<le> a))"
proof (induction kfs arbitrary: h fs P)
  case Nil
  then show ?case by (auto simp: run_simps)
next
  case (Cons kf kfs)
  obtain k f where kf: "kf = (k, f)" by fastforce
  obtain t where t: "map_of ts k = Some t" "deep_copies t f" using Cons.prems(1) kf by auto
  obtain v h1 where one: "run_state (on_field k f (Struct fs)) h = (v, h1)" by fastforce
  from on_field_correct[OF t(2) d t(1) Cons.prems(3) one] obtain y where y: "v = Struct (AList.update k y fs)"
    "extends h h1" "has_fields h1 ts (AList.update k y fs)"
    "tree_fields h1 ts (AList.update k y fs) = tree_fields h ts fs" "\<And>a. a \<in> reach h1 t y \<Longrightarrow> limit h \<le> a"
    "\<And>j u. (j, u) \<in> set ts \<Longrightarrow> j \<noteq> k \<Longrightarrow> reach h1 u (the (map_of fs j)) = reach h u (the (map_of fs j))" by blast
  have rest: "run_state (run_fields kfs (Struct (AList.update k y fs))) h1 = (w, h')"
    using Cons.prems(5) one y(1) by (simp add: kf run_simps)
  have "limit h0 \<le> limit h" using Cons.prems(2) by (simp add: extends_def)
  moreover have "(j, u) \<in> set ts \<Longrightarrow> j = k \<Longrightarrow> u = t" for j u
    using t(1) d by (metis map_of_eq_Some_iff option.inject)
  ultimately have "limit h0 \<le> a" if "(j, u) \<in> set ts" "j \<in> insert k P" "a \<in> reach h1 u (the (map_of (AList.update k y fs) j))" for j u a
    using that y(5)[of a] y(6)[of j u] bspec[OF Cons.prems(4) that(1)]
    by (cases "j = k") (force simp: update_conv')+
  then have fresh: "\<forall>(j, u) \<in> set ts. j \<in> insert k P \<longrightarrow>
      (\<forall>a \<in> reach h1 u (the (map_of (AList.update k y fs) j)). limit h0 \<le> a)" by blast
  have good: "\<forall>(k, f) \<in> set kfs. \<exists>t. map_of ts k = Some t \<and> deep_copies t f" using Cons.prems(1) by simp
  from Cons.IH[OF good extends_trans[OF Cons.prems(2) y(2)] y(3) fresh rest] show ?case
    by (simp add: kf y(4))
qed

text \<open>A struct is copied if every field with references is.\<close>

lemma deep_copies_struct:
  assumes d: "distinct (map fst ts)"
    and good: "\<forall>(k, f) \<in> set kfs. \<exists>t. map_of ts k = Some t \<and> deep_copies t f"
    and rest: "\<forall>(k, t) \<in> set ts. k \<in> fst ` set kfs \<or> flat t"
  shows "deep_copies (TStruct ts) (run_fields kfs)"
  unfolding deep_copies_def
proof (intro allI impI)
  fix h v w h'
  assume v: "has_ty h (TStruct ts) v" and run: "run_state (run_fields kfs v) h = (w, h')"
  then obtain fs where fs: "v = Struct fs" "has_fields h ts fs" by (auto split: val.splits)
  from run_fields_invariant[OF d good extends_refl fs(2), of "{}", OF _ run[unfolded fs(1)]]
  obtain gs where gs: "w = Struct gs" "extends h h'" "has_fields h' ts gs" "tree_fields h' ts gs = tree_fields h ts fs"
    "\<forall>(k, t) \<in> set ts. k \<in> fst ` set kfs \<longrightarrow> (\<forall>a \<in> reach h' t (the (map_of gs k)). limit h \<le> a)" by auto
  have "map fst gs = map fst ts" and field: "\<And>k t. (k, t) \<in> set ts \<Longrightarrow> has_ty h' t (the (map_of gs k))"
    using gs(3) unfolding fields_by_name(1)[OF d] by auto
  then have "\<forall>a \<in> reach_fields h' ts gs. limit h \<le> a"
    unfolding fields_by_name(3)[OF d \<open>map fst gs = map fst ts\<close>] using gs(5) rest flat_reach(1)[OF field]
    by fastforce
  with gs fs(1) show "extends h h' \<and> has_ty h' (TStruct ts) w \<and> tree_of h' (TStruct ts) w = tree_of h (TStruct ts) v \<and>
      (\<forall>a \<in> reach h' (TStruct ts) w. limit h \<le> a)" by simp
qed

section \<open>The API types\<close>

text \<open>The types of the fields that Kubernetes defines.\<close>

record Foreign_types =
  ty_TypeMeta :: ty
  ty_ObjectMeta :: ty
  ty_ListMeta :: ty
  ty_Time :: ty
  ty_ResourceRequirements :: ty
  ty_EnvVar :: ty

definition TPath :: ty where
  "TPath = TStruct [(''Path'', TScalar), (''PathType'', TScalar)]"

definition TRateLimit :: ty where
  "TRateLimit = TStruct [(''MaxRate'', TScalar), (''ClientMaxRate'', TScalar), (''Every'', TScalar), (''Key'', TScalar),
     (''Strategy'', TScalar), (''Capacity'', TScalar), (''ClientCapacity'', TScalar)]"

definition TAuthProvider :: ty where
  "TAuthProvider = TStruct [(''Name'', TScalar), (''Alg'', TScalar), (''JwkUrl'', TScalar), (''Issuer'', TScalar)]"

definition TImage :: ty where
  "TImage = TStruct [(''Registry'', TScalar), (''Repository'', TScalar), (''Tag'', TScalar), (''PullPolicy'', TScalar)]"

definition TEndpoint :: ty where
  "TEndpoint = TStruct [(''Path'', TScalar), (''Method'', TScalar), (''BackendHost'', TScalar), (''BackendPath'', TScalar),
     (''ForwardHeaders'', TSlice TScalar), (''QueryParams'', TSlice TScalar), (''TimeOut'', TScalar)]"

definition TAuth :: ty where
  "TAuth = TStruct [(''Name'', TScalar), (''Cache'', TScalar), (''Debug'', TScalar), (''Audience'', TSlice TScalar),
     (''Scope'', TSlice TScalar)]"

definition TApiEndpointsSpec :: ty where
  "TApiEndpointsSpec = TStruct [(''Krakend'', TScalar), (''AppName'', TScalar), (''Auth'', TAuth),
     (''RateLimit'', TPtr TRateLimit), (''Endpoints'', TSlice TEndpoint), (''OpenEndpoints'', TSlice TEndpoint)]"

definition TStatus :: "Foreign_types \<Rightarrow> ty" where
  "TStatus T = TStruct [(''SynchronizationTimestamp'', ty_Time T), (''SynchronizationHash'', TScalar)]"

definition TApiEndpoints :: "Foreign_types \<Rightarrow> ty" where
  "TApiEndpoints T = TStruct [(''TypeMeta'', ty_TypeMeta T), (''ObjectMeta'', ty_ObjectMeta T),
     (''Spec'', TApiEndpointsSpec), (''Status'', TStatus T)]"

definition TApiEndpointsList :: "Foreign_types \<Rightarrow> ty" where
  "TApiEndpointsList T = TStruct [(''TypeMeta'', ty_TypeMeta T), (''ListMeta'', ty_ListMeta T),
     (''Items'', TSlice (TApiEndpoints T))]"

definition THost :: ty where
  "THost = TStruct [(''Host'', TScalar), (''Paths'', TSlice TPath)]"

definition TIngress :: ty where
  "TIngress = TStruct [(''Enabled'', TScalar), (''ClassName'', TScalar), (''Annotations'', TMap), (''Hosts'', TSlice THost)]"

definition TKrakendDeployment :: "Foreign_types \<Rightarrow> ty" where
  "TKrakendDeployment T = TStruct [(''DeploymentType'', TScalar), (''ReplicaCount'', TScalar),
     (''Resources'', ty_ResourceRequirements T), (''Image'', TImage), (''ExtraEnvVars'', TSlice (ty_EnvVar T))]"

definition TKrakendSpec :: "Foreign_types \<Rightarrow> ty" where
  "TKrakendSpec T = TStruct [(''Ingress'', TIngress), (''IngressHost'', TScalar), (''AuthProviders'', TSlice TAuthProvider),
     (''Deployment'', TKrakendDeployment T)]"

definition TKrakend :: "Foreign_types \<Rightarrow> ty" where
  "TKrakend T = TStruct [(''TypeMeta'', ty_TypeMeta T), (''ObjectMeta'', ty_ObjectMeta T),
     (''Spec'', TKrakendSpec T), (''Status'', TStatus T)]"

definition TKrakendList :: "Foreign_types \<Rightarrow> ty" where
  "TKrakendList T = TStruct [(''TypeMeta'', ty_TypeMeta T), (''ListMeta'', ty_ListMeta T), (''Items'', TSlice (TKrakend T))]"

text \<open>What the API types rely on: the Kubernetes copy functions are deep, and \<^verbatim>\<open>TypeMeta\<close> holds no references.\<close>

definition foreign_laws :: "Foreign_types \<Rightarrow> Foreign \<Rightarrow> bool" where
  "foreign_laws T F \<longleftrightarrow>
     flat (ty_TypeMeta T) \<and> deep_copies (ty_ObjectMeta T) (fo_ObjectMeta F) \<and> deep_copies (ty_ListMeta T) (fo_ListMeta F) \<and>
     deep_copies (ty_Time T) (fo_Time F) \<and> deep_copies (ty_ResourceRequirements T) (fo_ResourceRequirements F) \<and>
     deep_copies (ty_EnvVar T) (fo_EnvVar F)"

lemmas ty_defs = TPath_def TRateLimit_def TAuthProvider_def TImage_def TEndpoint_def TAuth_def TApiEndpointsSpec_def
  TStatus_def TApiEndpoints_def TApiEndpointsList_def THost_def TIngress_def TKrakendDeployment_def TKrakendSpec_def
  TKrakend_def TKrakendList_def

lemma run_fields_Nil [simp]: "run_fields [] = State_Monad.return"
  by (rule ext) simp

lemma run_fields_Cons [simp]:
  "run_fields ((k, f) # kfs) = (\<lambda>v. do { w \<leftarrow> on_field k f v; run_fields kfs w })"
  by (rule ext) simp

lemma deep_copies_fields:
  assumes "\<And>v. f v = run_fields kfs v" "distinct (map fst ts)"
    "\<forall>(k, f) \<in> set kfs. \<exists>t. map_of ts k = Some t \<and> deep_copies t f"
    "\<forall>(k, t) \<in> set ts. k \<in> fst ` set kfs \<or> flat t"
  shows "deep_copies (TStruct ts) f"
proof -
  have "f = run_fields kfs" using assms(1) by (rule ext)
  with deep_copies_struct[OF assms(2-4)] show ?thesis by simp
qed

text \<open>Every type of the package.\<close>

lemma deep_copies_values [intro]:
  "deep_copies TPath Path_DeepCopyInto" "deep_copies TRateLimit RateLimit_DeepCopyInto"
  "deep_copies TAuthProvider AuthProvider_DeepCopyInto" "deep_copies TImage Image_DeepCopyInto"
  by (simp_all add: ty_defs deep_copies_assign Path_DeepCopyInto_def RateLimit_DeepCopyInto_def
      AuthProvider_DeepCopyInto_def Image_DeepCopyInto_def)

lemma deep_copies_strings: "deep_copies (TSlice TScalar) (copy_slice assign_value)"
  by (rule deep_copies_slice[OF deep_copies_assign]) simp

lemma flat_types: "flat TPath" "flat TRateLimit" "flat TAuthProvider" "flat TImage"
  by (simp_all add: ty_defs)

lemma deep_copies_Endpoint: "deep_copies TEndpoint Endpoint_DeepCopyInto"
  unfolding TEndpoint_def
  by (rule deep_copies_fields[where kfs = "[(''ForwardHeaders'', copy_slice assign_value), (''QueryParams'', copy_slice assign_value)]"])
    (simp_all add: Endpoint_DeepCopyInto_def deep_copies_strings)

lemma deep_copies_Auth: "deep_copies TAuth Auth_DeepCopyInto"
  unfolding TAuth_def
  by (rule deep_copies_fields[where kfs = "[(''Audience'', copy_slice assign_value), (''Scope'', copy_slice assign_value)]"])
    (simp_all add: Auth_DeepCopyInto_def deep_copies_strings)

lemma deep_copies_ApiEndpointsSpec: "deep_copies TApiEndpointsSpec ApiEndpointsSpec_DeepCopyInto"
  unfolding TApiEndpointsSpec_def
  by (rule deep_copies_fields[where kfs = "[(''Auth'', Auth_DeepCopyInto), (''RateLimit'', copy_ptr assign_value),
      (''Endpoints'', copy_slice Endpoint_DeepCopyInto), (''OpenEndpoints'', copy_slice Endpoint_DeepCopyInto)]"])
    (simp_all add: ApiEndpointsSpec_DeepCopyInto_def deep_copies_Auth deep_copies_slice deep_copies_ptr deep_copies_Endpoint flat_types deep_copies_assign)

lemma deep_copies_Host: "deep_copies THost Host_DeepCopyInto"
  unfolding THost_def
  by (rule deep_copies_fields[where kfs = "[(''Paths'', copy_slice assign_value)]"])
    (simp_all add: Host_DeepCopyInto_def deep_copies_slice flat_types deep_copies_assign)

lemma deep_copies_Ingress: "deep_copies TIngress Ingress_DeepCopyInto"
  unfolding TIngress_def
  by (rule deep_copies_fields[where kfs = "[(''Annotations'', copy_map), (''Hosts'', copy_slice Host_DeepCopyInto)]"])
    (simp_all add: Ingress_DeepCopyInto_def deep_copies_map deep_copies_slice deep_copies_Host)

lemma deep_copies_ApiEndpointsStatus: "foreign_laws T F \<Longrightarrow> deep_copies (TStatus T) (ApiEndpointsStatus_DeepCopyInto F)"
  unfolding TStatus_def
  by (rule deep_copies_fields[where kfs = "[(''SynchronizationTimestamp'', fo_Time F)]"])
    (simp_all add: ApiEndpointsStatus_DeepCopyInto_def foreign_laws_def)

lemma deep_copies_ApiEndpoints: "foreign_laws T F \<Longrightarrow> deep_copies (TApiEndpoints T) (ApiEndpoints_DeepCopyInto F)"
  unfolding TApiEndpoints_def
  by (rule deep_copies_fields[where kfs = "[(''TypeMeta'', assign_value), (''ObjectMeta'', fo_ObjectMeta F),
      (''Spec'', ApiEndpointsSpec_DeepCopyInto), (''Status'', ApiEndpointsStatus_DeepCopyInto F)]"])
    (simp_all add: ApiEndpoints_DeepCopyInto_def foreign_laws_def deep_copies_assign deep_copies_ApiEndpointsSpec deep_copies_ApiEndpointsStatus)

lemma deep_copies_ApiEndpointsList: "foreign_laws T F \<Longrightarrow> deep_copies (TApiEndpointsList T) (ApiEndpointsList_DeepCopyInto F)"
  unfolding TApiEndpointsList_def
  by (rule deep_copies_fields[where kfs = "[(''TypeMeta'', assign_value), (''ListMeta'', fo_ListMeta F),
      (''Items'', copy_slice (ApiEndpoints_DeepCopyInto F))]"])
    (simp_all add: ApiEndpointsList_DeepCopyInto_def foreign_laws_def deep_copies_assign deep_copies_slice deep_copies_ApiEndpoints)

lemma deep_copies_KrakendDeployment: "foreign_laws T F \<Longrightarrow> deep_copies (TKrakendDeployment T) (KrakendDeployment_DeepCopyInto F)"
  unfolding TKrakendDeployment_def
  by (rule deep_copies_fields[where kfs = "[(''Resources'', fo_ResourceRequirements F), (''Image'', assign_value),
      (''ExtraEnvVars'', copy_slice (fo_EnvVar F))]"])
    (simp_all add: KrakendDeployment_DeepCopyInto_def foreign_laws_def deep_copies_assign deep_copies_slice flat_types)

lemma deep_copies_KrakendSpec: "foreign_laws T F \<Longrightarrow> deep_copies (TKrakendSpec T) (KrakendSpec_DeepCopyInto F)"
  unfolding TKrakendSpec_def
  by (rule deep_copies_fields[where kfs = "[(''Ingress'', Ingress_DeepCopyInto), (''AuthProviders'', copy_slice assign_value),
      (''Deployment'', KrakendDeployment_DeepCopyInto F)]"])
    (simp_all add: KrakendSpec_DeepCopyInto_def deep_copies_Ingress deep_copies_slice deep_copies_assign deep_copies_KrakendDeployment flat_types)

lemma deep_copies_KrakendStatus: "foreign_laws T F \<Longrightarrow> deep_copies (TStatus T) (KrakendStatus_DeepCopyInto F)"
  unfolding TStatus_def
  by (rule deep_copies_fields[where kfs = "[(''SynchronizationTimestamp'', fo_Time F)]"])
    (simp_all add: KrakendStatus_DeepCopyInto_def foreign_laws_def)

lemma deep_copies_Krakend: "foreign_laws T F \<Longrightarrow> deep_copies (TKrakend T) (Krakend_DeepCopyInto F)"
  unfolding TKrakend_def
  by (rule deep_copies_fields[where kfs = "[(''TypeMeta'', assign_value), (''ObjectMeta'', fo_ObjectMeta F),
      (''Spec'', KrakendSpec_DeepCopyInto F), (''Status'', KrakendStatus_DeepCopyInto F)]"])
    (simp_all add: Krakend_DeepCopyInto_def foreign_laws_def deep_copies_assign deep_copies_KrakendSpec deep_copies_KrakendStatus)

lemma deep_copies_KrakendList: "foreign_laws T F \<Longrightarrow> deep_copies (TKrakendList T) (KrakendList_DeepCopyInto F)"
  unfolding TKrakendList_def
  by (rule deep_copies_fields[where kfs = "[(''TypeMeta'', assign_value), (''ListMeta'', fo_ListMeta F),
      (''Items'', copy_slice (Krakend_DeepCopyInto F))]"])
    (simp_all add: KrakendList_DeepCopyInto_def foreign_laws_def deep_copies_assign deep_copies_slice deep_copies_Krakend)

section \<open>Private copies\<close>

text \<open>The objects of the API with the copy the client libraries use.\<close>

definition object_copies :: "Foreign_types \<Rightarrow> Foreign \<Rightarrow> ((val \<Rightarrow> val option mem) \<times> ty) list" where
  "object_copies T F =
     [(ApiEndpoints_DeepCopyObject F, TApiEndpoints T), (ApiEndpointsList_DeepCopyObject F, TApiEndpointsList T),
      (Krakend_DeepCopyObject F, TKrakend T), (KrakendList_DeepCopyObject F, TKrakendList T)]"

text \<open>Later memory in which, of what there was, only cells of a set were written.\<close>

definition writes_within :: "addr set \<Rightarrow> memory \<Rightarrow> memory \<Rightarrow> bool" where
  "writes_within A h h' \<longleftrightarrow> limit h \<le> limit h' \<and> (\<forall>a < limit h. a \<notin> A \<longrightarrow> cells h' a = cells h a)"

lemma object_copies_deep:
  assumes "foreign_laws T F" "(copy, t) \<in> set (object_copies T F)"
  obtains D where "copy = DeepCopyObject D" "deep_copies t D"
  using assms deep_copies_ApiEndpoints deep_copies_ApiEndpointsList deep_copies_Krakend deep_copies_KrakendList
  by (auto simp: object_copies_def ApiEndpoints_DeepCopyObject_def ApiEndpointsList_DeepCopyObject_def
      Krakend_DeepCopyObject_def KrakendList_DeepCopyObject_def)

lemma run_DeepCopyObject:
  assumes "run_state (DeepCopyObject D v) h = (r, h')" "has_ty h (TPtr t) v" "v \<noteq> Ptr None"
  obtains w where "r = Some w" "run_state (copy_ptr D v) h = (w, h')"
proof -
  obtain a where v: "v = Ptr (Some a)" using assms(2,3) by (auto split: val.splits option.splits)
  obtain w h1 where w: "run_state (copy_ptr D v) h = (w, h1)" by fastforce
  then have "w \<noteq> Ptr None"
    by (auto simp: v copy_ptr_def run_simps read_array_def new_array_def write_array_def split: prod.splits)
  with w assms(1) show thesis by (auto simp: DeepCopyObject_def DeepCopy_def run_simps intro: that)
qed

lemma deep_copy_private:
  assumes "deep_copies t f" "has_ty h t v" "run_state (f v) h = (w, h')"
  shows "writes_within (reach h' t w) h' h'' \<Longrightarrow> tree_of h'' t v = tree_of h t v"
    and "writes_within (reach h t v) h' h'' \<Longrightarrow> tree_of h'' t w = tree_of h t v"
proof -
  note c = deep_copiesD[OF assms]
  note old = extends_frame[OF c(1) assms(2)]
  have apart: "a \<notin> reach h' t w" if "a \<in> reach h t v" for a
    using c(4) reach_lt(1)[OF assms(2) that] by (metis not_le)
  show "tree_of h'' t v = tree_of h t v" if "writes_within (reach h' t w) h' h''"
    using frame(1)[OF old(1), of h''] that apart reach_lt(1)[OF old(1)] old(2,3) by (auto simp: writes_within_def)
  show "tree_of h'' t w = tree_of h t v" if "writes_within (reach h t v) h' h''"
    using frame(1)[OF c(2), of h''] that apart reach_lt(1)[OF c(2)] c(3) by (auto simp: writes_within_def)
qed

text \<open>
  C38. The copies that the generated code hands out are complete and private, whatever the object and
  whatever is shared with it. The copy of nil is nil. Otherwise the copy stands for the same object
  and, as long as the copy functions of the Kubernetes types are deep, later writes through it leave the
  original (the object in the shared cache) as it was, and later writes through the original leave the
  copy as it was.
\<close>

theorem object_copies_private:
  assumes laws: "foreign_laws T F" and copy: "(copy, t) \<in> set (object_copies T F)"
    and v: "has_ty h (TPtr t) v" and run: "run_state (copy v) h = (r, h')"
  shows "if v = Ptr None then r = None \<and> h' = h
    else \<exists>w. r = Some w \<and> tree_of h' (TPtr t) w = tree_of h (TPtr t) v \<and>
      (\<forall>h''. writes_within (reach h' (TPtr t) w) h' h'' \<longrightarrow> tree_of h'' (TPtr t) v = tree_of h (TPtr t) v) \<and>
      (\<forall>h''. writes_within (reach h (TPtr t) v) h' h'' \<longrightarrow> tree_of h'' (TPtr t) w = tree_of h (TPtr t) v)"
proof -
  from object_copies_deep[OF laws copy] obtain D where D: "copy = DeepCopyObject D" "deep_copies t D" .
  show ?thesis
  proof (cases "v = Ptr None")
    case True
    with run show ?thesis by (simp add: D(1) DeepCopyObject_def DeepCopy_def copy_ptr_def run_simps)
  next
    case False
    obtain w where w: "r = Some w" "run_state (copy_ptr D v) h = (w, h')"
      by (rule run_DeepCopyObject[OF run[unfolded D(1)] v False])
    note c = deep_copies_ptr[OF D(2)]
    show ?thesis
      using False w(1) deep_copiesD(3)[OF c v w(2)] deep_copy_private[OF c v w(2)] by auto
  qed
qed

definition sample_types :: Foreign_types where
  "sample_types = \<lparr>ty_TypeMeta = TStruct [(''Kind'', TScalar), (''APIVersion'', TScalar)],
     ty_ObjectMeta = TStruct [(''Name'', TScalar), (''Labels'', TMap)], ty_ListMeta = TScalar, ty_Time = TScalar,
     ty_ResourceRequirements = TScalar, ty_EnvVar = TScalar\<rparr>"

definition sample_foreign :: Foreign where
  "sample_foreign = \<lparr>fo_ObjectMeta = on_field ''Labels'' copy_map, fo_ListMeta = assign_value, fo_Time = assign_value,
     fo_ResourceRequirements = assign_value, fo_EnvVar = assign_value\<rparr>"

definition sample_memory :: memory where
  "sample_memory = \<lparr>cells =
     [0 \<mapsto> [Struct [(''TypeMeta'', Struct [(''Kind'', Scalar ''ApiEndpoints''), (''APIVersion'', Scalar ''v1'')]),
        (''ObjectMeta'', Struct [(''Name'', Scalar ''app''), (''Labels'', MapRef (Some 1))]),
        (''Spec'', Struct [(''Krakend'', Scalar []), (''AppName'', Scalar ''app''),
           (''Auth'', Struct [(''Name'', Scalar []), (''Cache'', Scalar []), (''Debug'', Scalar []),
              (''Audience'', Slice None), (''Scope'', Slice None)]),
           (''RateLimit'', Ptr None), (''Endpoints'', Slice (Some (2, 0, 1))), (''OpenEndpoints'', Slice None)]),
        (''Status'', Struct [(''SynchronizationTimestamp'', Scalar []), (''SynchronizationHash'', Scalar [])])]],
      1 \<mapsto> [Struct [(''team'', Scalar ''a'')]],
      2 \<mapsto> [Struct [(''Path'', Scalar ''/a''), (''Method'', Scalar ''GET''), (''BackendHost'', Scalar []),
         (''BackendPath'', Scalar []), (''ForwardHeaders'', Slice (Some (3, 1, 1))), (''QueryParams'', Slice None),
         (''TimeOut'', Scalar [])]],
      3 \<mapsto> [Scalar ''X-Other'', Scalar ''X-Id'']],
     limit = 4\<rparr>"

lemma sample_laws: "foreign_laws sample_types sample_foreign"
proof -
  have "deep_copies (TStruct [(''Name'', TScalar), (''Labels'', TMap)]) (on_field ''Labels'' copy_map)"
    by (rule deep_copies_fields[where kfs = "[(''Labels'', copy_map)]"]) (simp_all add: deep_copies_map)
  then show ?thesis
    by (simp add: foreign_laws_def sample_types_def sample_foreign_def deep_copies_assign)
qed

lemma sample_typed: "has_ty sample_memory (TPtr (TApiEndpoints sample_types)) (Ptr (Some 0))"
  by (simp add: sample_memory_def sample_types_def ty_defs array_at_def map_entries_def)

lemma object_copies_private_witness:
  "\<exists>w h'. run_state (ApiEndpoints_DeepCopyObject sample_foreign (Ptr (Some 0))) sample_memory = (Some w, h') \<and>
     tree_of h' (TPtr (TApiEndpoints sample_types)) w =
     tree_of sample_memory (TPtr (TApiEndpoints sample_types)) (Ptr (Some 0))"
proof -
  obtain r h' where run: "run_state (ApiEndpoints_DeepCopyObject sample_foreign (Ptr (Some 0))) sample_memory = (r, h')"
    by fastforce
  have "(ApiEndpoints_DeepCopyObject sample_foreign, TApiEndpoints sample_types) \<in> set (object_copies sample_types sample_foreign)"
    by (simp add: object_copies_def)
  from object_copies_private[OF sample_laws this sample_typed run] run show ?thesis by auto
qed

end
