(* ===== verification/Samples.thy ===== *)
theory Samples
  imports Krakend_Values Controller_Traces Go_Process
begin

text \<open>
  \<^verbatim>\<open>cmd/samples/main.go\<close>: sample specifications with random values, written as JSON to two files. The
  library that fills a struct and the file system are parameters; command line flags, of which the
  program only has flags with a string value, are those of Go's \<^verbatim>\<open>flag\<close> package.
\<close>

section \<open>Flags\<close>

text \<open>
  \<^verbatim>\<open>flag.Parse\<close> with the flags defined so far and their values. A flag is cut from its value at the
  first equals sign; the process exits on the first error. The answer holds the values of the flags
  and the arguments that remain.
\<close>

fun flag_Parse :: "(string \<rightharpoonup> string) \<Rightarrow> string list \<Rightarrow> ((string \<rightharpoonup> string) \<times> string list) process" where
  "flag_Parse formal [] = Running (formal, [])"
| "flag_Parse formal (s # args) =
     (if length s < 2 \<or> hd s \<noteq> CHR ''-'' then Running (formal, s # args)
      else if s = ''--'' then Running (formal, args)
      else
        (let arg = (if s ! 1 = CHR ''-'' then drop 2 s else drop 1 s) in
         if arg = [] \<or> hd arg = CHR ''-'' \<or> hd arg = CHR ''='' then Exit (''bad flag syntax: '' @ s)
         else
           (case str_Cut arg (CHR ''='') of (name, value') \<Rightarrow>
              if formal name = None
              then Exit (if name = ''help'' \<or> name = ''h'' then ''flag: help requested''
                         else ''flag provided but not defined: -'' @ name)
              else if CHR ''='' \<in> set arg then flag_Parse (formal(name \<mapsto> value')) args
              else (case args of
                      [] \<Rightarrow> Exit (''flag needs an argument: -'' @ name)
                    | v # args' \<Rightarrow> flag_Parse (formal(name \<mapsto> v)) args'))))"

section \<open>The specifications as JSON\<close>

definition json_v1_Endpoint :: "v1_Endpoint \<Rightarrow> json" where
  "json_v1_Endpoint e = JObj (
     omit_str ''path'' (ep_Path e) @ omit_str ''method'' (ep_Method e) @
     omit_str ''backendHost'' (ep_BackendHost e) @ omit_str ''backendPath'' (ep_BackendPath e) @
     omit_strs ''forwardHeaders'' (ep_ForwardHeaders e) @ omit_strs ''queryParams'' (ep_QueryParams e) @
     omit_str ''timeout'' (ep_TimeOut e))"

definition json_RateLimit :: "RateLimit \<Rightarrow> json" where
  "json_RateLimit r = JObj (
     omit_int ''maxRate'' (rl_MaxRate r) @ omit_int ''clientMaxRate'' (rl_ClientMaxRate r) @
     omit_str ''every'' (rl_Every r) @ omit_str ''key'' (rl_Key r) @ omit_str ''strategy'' (rl_Strategy r) @
     omit_int ''capacity'' (rl_Capacity r) @ omit_int ''clientCapacity'' (rl_ClientCapacity r))"

definition json_Auth :: "Auth \<Rightarrow> json" where
  "json_Auth a = JObj (
     [(''name'', JStr (au_Name a))] @
     omitempty (\<not> au_Cache a) ''cache'' (JBool (au_Cache a)) @ omitempty (\<not> au_Debug a) ''debug'' (JBool (au_Debug a)) @
     omit_strs ''audience'' (au_Audience a) @ omit_strs ''scopes'' (au_Scope a))"

definition json_ApiEndpointsSpec :: "ApiEndpointsSpec \<Rightarrow> json" where
  "json_ApiEndpointsSpec s = JObj (
     omit_str ''krakend'' (as_Krakend s) @ omit_str ''appName'' (as_AppName s) @
     [(''auth'', json_Auth (as_Auth s))] @ omit_ptr ''rateLimit'' json_RateLimit (as_RateLimit s) @
     omitempty (as_Endpoints s = []) ''endpoints'' (JArr (map json_v1_Endpoint (as_Endpoints s))) @
     omitempty (as_OpenEndpoints s = []) ''openEndpoints'' (JArr (map json_v1_Endpoint (as_OpenEndpoints s))))"

definition json_AuthProvider :: "AuthProvider \<Rightarrow> json" where
  "json_AuthProvider p = JObj [(''name'', JStr (ap_Name p)), (''alg'', JStr (ap_Alg p)),
     (''jwkUrl'', JStr (ap_JwkUrl p)), (''issuer'', JStr (ap_Issuer p))]"

definition json_KrakendSpec :: "KrakendSpec \<Rightarrow> json" where
  "json_KrakendSpec s = JObj (
     [(''ingress'', json_Ingress (ks_Ingress s))] @ omit_str ''ingressHost'' (ks_IngressHost s) @
     omitempty (ks_AuthProviders s = []) ''authProviders'' (JArr (map json_AuthProvider (ks_AuthProviders s))) @
     [(''deployment'', json_KrakendDeployment (ks_Deployment s))])"

section \<open>The program\<close>

record 's SamplesLib =
  sm_Flags :: "string \<rightharpoonup> string" \<comment> \<open>defined by the libraries before \<^verbatim>\<open>main\<close>\<close>
  sm_Struct_ApiEndpoints :: "ApiEndpointsSpec \<Rightarrow> ('s, ApiEndpointsSpec result) io"
  sm_Struct_Krakend :: "KrakendSpec \<Rightarrow> ('s, KrakendSpec result) io"
  sm_WriteFile :: "string \<Rightarrow> string \<Rightarrow> nat \<Rightarrow> ('s, unit result) io"

definition fakeAndSave ::
  "('a \<Rightarrow> ('s, 'a result) io) \<Rightarrow> ('a \<Rightarrow> json) \<Rightarrow> (string \<Rightarrow> string \<Rightarrow> nat \<Rightarrow> ('s, unit result) io) \<Rightarrow>
     string \<Rightarrow> 'a \<Rightarrow> ('s, unit result) io" where
  "fakeAndSave Struct encode WriteFile file v = do {
     faked \<leftarrow> Struct v;
     (case faked of
        Inl err \<Rightarrow> State_Monad.return (Inl err)
      | Inr v \<Rightarrow>
          (case json_Marshal (encode v) of
             Inl err \<Rightarrow> State_Monad.return (Inl err)
           | Inr b \<Rightarrow> WriteFile file b 420))
   }"

definition zero_ApiEndpointsSpec :: ApiEndpointsSpec where
  "zero_ApiEndpointsSpec = \<lparr>as_Krakend = [], as_AppName = [],
     as_Auth = \<lparr>au_Name = [], au_Cache = False, au_Debug = False, au_Audience = [], au_Scope = []\<rparr>,
     as_RateLimit = None, as_Endpoints = [], as_OpenEndpoints = []\<rparr>"

definition zero_KrakendSpec :: KrakendSpec where
  "zero_KrakendSpec =
     \<lparr>ks_Ingress = \<lparr>ig_Enabled = False, ig_ClassName = [], ig_Annotations = None, ig_Hosts = None\<rparr>, ks_IngressHost = [],
      ks_AuthProviders = [],
      ks_Deployment = \<lparr>kd_DeploymentType = [], kd_ReplicaCount = 0, kd_Resources = JObj [],
        kd_Image = \<lparr>im_Registry = [], im_Repository = [], im_Tag = [], im_PullPolicy = []\<rparr>, kd_ExtraEnvVars = None\<rparr>\<rparr>"

definition fatal :: "error \<Rightarrow> 'a process" where
  "fatal err = Exit (''fakeAndSave: '' @ error_text err)"

text \<open>\<^verbatim>\<open>flag.StringVar\<close> sets the variable to the default; the flags were parsed before.\<close>

definition samples_main :: "'s SamplesLib \<Rightarrow> string list \<Rightarrow> ('s, unit process) io" where
  "samples_main lib args =
     (case flag_Parse (sm_Flags lib) args of
        Exit t \<Rightarrow> State_Monad.return (Exit t)
      | Running _ \<Rightarrow>
          (let samplesDir = ''config/samples'' in do {
             err \<leftarrow> fakeAndSave (sm_Struct_ApiEndpoints lib) json_ApiEndpointsSpec (sm_WriteFile lib)
               (filepath_Join [samplesDir, ''apiendpoints.json'']) zero_ApiEndpointsSpec;
             (case err of
                Inl e \<Rightarrow> State_Monad.return (fatal e)
              | Inr _ \<Rightarrow> do {
                  err \<leftarrow> fakeAndSave (sm_Struct_Krakend lib) json_KrakendSpec (sm_WriteFile lib)
                    (filepath_Join [samplesDir, ''krakend.json'']) zero_KrakendSpec;
                  State_Monad.return (case err of Inl e \<Rightarrow> fatal e | Inr _ \<Rightarrow> Running ())
                })
           }))"

section \<open>What is written\<close>

type_synonym written = "string \<times> string \<times> bool" \<comment> \<open>file, text, whether it was written\<close>

definition recording_samples :: "'s SamplesLib \<Rightarrow> ('s \<times> written list) SamplesLib" where
  "recording_samples lib =
     \<lparr>sm_Flags = sm_Flags lib,
      sm_Struct_ApiEndpoints = (\<lambda>v. lift_read (sm_Struct_ApiEndpoints lib v)),
      sm_Struct_Krakend = (\<lambda>v. lift_read (sm_Struct_Krakend lib v)),
      sm_WriteFile = (\<lambda>file b perm. lift_write (\<lambda>ok. (file, b, ok)) (sm_WriteFile lib file b perm))\<rparr>"

definition samples_run :: "'s SamplesLib \<Rightarrow> string list \<Rightarrow> 's \<Rightarrow> unit process \<times> written list" where
  "samples_run lib args s =
     (case run_state (samples_main (recording_samples lib) args) (s, []) of (r, (s', tr)) \<Rightarrow> (r, tr))"

definition saves :: "string \<Rightarrow> ('a \<Rightarrow> json) \<Rightarrow> bool \<Rightarrow> written list \<Rightarrow> bool" where
  "saves file encode ok evs \<longleftrightarrow> (\<not> ok \<and> evs = []) \<or> (\<exists>v. evs = [(file, json_text (encode v), ok)])"

lemma emits_fakeAndSave:
  "emits (fakeAndSave (\<lambda>v. lift_read (Struct v)) encode
       (\<lambda>file b perm. lift_write (\<lambda>ok. (file, b, ok)) (WriteFile file b perm)) file v)
     (\<lambda>r evs. saves file encode (is_ok r) evs)"
  unfolding fakeAndSave_def
proof (rule emits_bind_read)
  fix x :: "'b result"
  show "emits (case x of Inl err \<Rightarrow> State_Monad.return (Inl err)
      | Inr v \<Rightarrow> (case json_Marshal (encode v) of Inl err \<Rightarrow> State_Monad.return (Inl err)
          | Inr b \<Rightarrow> lift_write (\<lambda>ok. (file, b, ok)) (WriteFile file b 420)))
    (\<lambda>r evs. saves file encode (is_ok r) evs)"
  proof (cases x)
    case (Inr v)
    show ?thesis
      unfolding Inr json_Marshal_def sum.case
      by (rule emits_weaken[OF emits_write]) (auto simp: saves_def)
  qed (auto simp: saves_def is_ok_def intro: emits_return)
qed

definition samples_written :: "unit process \<Rightarrow> written list \<Rightarrow> bool" where
  "samples_written r evs \<longleftrightarrow>
     (\<exists>ok1 evs1. saves ''config/samples/apiendpoints.json'' json_ApiEndpointsSpec ok1 evs1 \<and>
        (if ok1
         then \<exists>ok2 evs2. saves ''config/samples/krakend.json'' json_KrakendSpec ok2 evs2 \<and> evs = evs1 @ evs2 \<and> (r = Running ()) = ok2
         else evs = evs1 \<and> r \<noteq> Running ()))"

lemma samples_files:
  "filepath_Join [''config/samples'', ''apiendpoints.json''] = ''config/samples/apiendpoints.json''"
  "filepath_Join [''config/samples'', ''krakend.json''] = ''config/samples/krakend.json''"
  by code_simp+

lemma emits_samples_main:
  assumes "flag_Parse (sm_Flags lib) args = Running p"
  shows "emits (samples_main (recording_samples lib) args) samples_written"
proof -
  have second: "emits (do {
        err \<leftarrow> fakeAndSave (\<lambda>v. lift_read (sm_Struct_Krakend lib v)) json_KrakendSpec
          (\<lambda>file b perm. lift_write (\<lambda>ok. (file, b, ok)) (sm_WriteFile lib file b perm)) ''config/samples/krakend.json'' zero_KrakendSpec;
        State_Monad.return (case err of Inl e \<Rightarrow> fatal e | Inr _ \<Rightarrow> Running ())
      }) (\<lambda>r evs. samples_written r (evs1 @ evs))"
    if "saves ''config/samples/apiendpoints.json'' json_ApiEndpointsSpec True evs1" for evs1
  proof (rule emits_bind[OF emits_fakeAndSave], rule emits_return)
    fix err :: "unit result" and evs2
    assume "saves ''config/samples/krakend.json'' json_KrakendSpec (is_ok err) evs2"
    moreover have "((case err of Inl e \<Rightarrow> fatal e | Inr _ \<Rightarrow> Running ()) = Running ()) = is_ok err"
      by (cases err) (simp_all add: fatal_def is_ok_def)
    ultimately have "\<exists>ok2 evs2'. saves ''config/samples/krakend.json'' json_KrakendSpec ok2 evs2' \<and>
        evs1 @ (evs2 @ []) = evs1 @ evs2' \<and> ((case err of Inl e \<Rightarrow> fatal e | Inr _ \<Rightarrow> Running ()) = Running ()) = ok2"
      by (intro exI[of _ "is_ok err"] exI[of _ evs2] conjI) simp_all
    then show "samples_written (case err of Inl e \<Rightarrow> fatal e | Inr _ \<Rightarrow> Running ()) (evs1 @ (evs2 @ []))"
      unfolding samples_written_def using that by (intro exI[of _ True] exI[of _ evs1] conjI) simp_all
  qed
  show ?thesis
    unfolding samples_main_def recording_samples_def SamplesLib.simps assms process.case samples_files Let_def
  proof (rule emits_bind[OF emits_fakeAndSave])
    fix err :: "unit result" and evs1
    assume 1: "saves ''config/samples/apiendpoints.json'' json_ApiEndpointsSpec (is_ok err) evs1"
    show "emits (case err of Inl e \<Rightarrow> State_Monad.return (fatal e) | Inr _ \<Rightarrow> do {
        err \<leftarrow> fakeAndSave (\<lambda>v. lift_read (sm_Struct_Krakend lib v)) json_KrakendSpec
          (\<lambda>file b perm. lift_write (\<lambda>ok. (file, b, ok)) (sm_WriteFile lib file b perm)) ''config/samples/krakend.json'' zero_KrakendSpec;
        State_Monad.return (case err of Inl e \<Rightarrow> fatal e | Inr _ \<Rightarrow> Running ())
      }) (\<lambda>r evs. samples_written r (evs1 @ evs))"
    proof (cases err)
      case (Inl e)
      with 1 show ?thesis
        by (auto simp: samples_written_def is_ok_def fatal_def intro!: emits_return exI[of _ False])
    qed (use 1 second in \<open>simp add: is_ok_def\<close>)
  qed
qed

text \<open>
  The directory of the samples cannot be chosen. Unless a library defines a flag of that name, a run
  that is given \<^verbatim>\<open>-dir\<close>, in any spelling, ends with a complaint and writes nothing; any other run writes
  at most the JSON of one \<^verbatim>\<open>ApiEndpoints\<close> specification and then of one \<^verbatim>\<open>Krakend\<close> specification to
  \<^verbatim>\<open>config/samples\<close>, and runs to its end exactly when both were written.
\<close>

lemma samples_dir_fixed:
  assumes "sm_Flags lib ''dir'' = None" "samples_run lib args s = (r, evs)"
  shows "args \<in> {''-dir'' # rest, ''--dir'' # rest, (''-dir='' @ x) # rest} \<Longrightarrow>
      r = Exit ''flag provided but not defined: -dir'' \<and> evs = []"
    and "(\<exists>t. r = Exit t \<and> flag_Parse (sm_Flags lib) args = Exit t \<and> evs = []) \<or> samples_written r evs"
proof -
  show "r = Exit ''flag provided but not defined: -dir'' \<and> evs = []"
    if "args \<in> {''-dir'' # rest, ''--dir'' # rest, (''-dir='' @ x) # rest}"
  proof -
    have "flag_Parse (sm_Flags lib) args = Exit ''flag provided but not defined: -dir''"
      using that assms(1) by auto
    then show ?thesis using assms(2) by (simp add: samples_run_def samples_main_def recording_samples_def run_simps)
  qed
  show "(\<exists>t. r = Exit t \<and> flag_Parse (sm_Flags lib) args = Exit t \<and> evs = []) \<or> samples_written r evs"
  proof (cases "flag_Parse (sm_Flags lib) args")
    case (Running p)
    from emits_samples_main[OF this] show ?thesis
      using assms(2) by (auto simp: samples_run_def emits_def split: prod.splits) (metis append_Nil)+
  next
    case (Exit t)
    then show ?thesis using assms(2) by (simp add: samples_run_def samples_main_def recording_samples_def run_simps)
  qed
qed

end
