(* ===== verification/Spec2Isabelle.thy ===== *)
theory Spec2Isabelle
  imports Admission Sync_Properties Krakend_Properties Krakend_Decoder Migration_Properties Manager Deep_Copy Samples
begin

text \<open>
  A verification library for the KrakenD operator, a Kubernetes operator that runs the API gateway
  KrakenD from two custom resources: a \<^verbatim>\<open>Krakend\<close> (an instance with its authentication providers) and
  \<^verbatim>\<open>ApiEndpoints\<close> (the routes of an application, secured or open, that name an instance).

  \<^bold>\<open>The parts and how they interact.\<close>

  \<^item> The admission webhook sees every write of an \<^verbatim>\<open>ApiEndpoints\<close> before it is stored and refuses unknown
    authentication providers and paths that are claimed twice.
  \<^item> The ApiEndpoints controller converts all resources of a namespace to KrakenD's configuration
    format and publishes it, as JSON, in a ConfigMap of the instance (the partials); it creates network
    policies for the applications behind the routes and keeps finalizer, owner and status.
  \<^item> The Krakend controller renders a Helm chart with values from the resource and writes the resulting
    objects, except the partials once they exist, which belong to the other controller.
  \<^item> The migration reads both kinds of resources and prints Nais applications with the same
    configuration. \<^verbatim>\<open>main\<close> wires webhook and controllers; a sample generator writes example resources.

  \<^bold>\<open>Theories, in the order of their dependencies.\<close>

  \<^item> \<^verbatim>\<open>Prelude\<close>: error values for Go's \<^verbatim>\<open>error\<close>, results as sums, code with effects as state transformers, named
    collections (\<open>run_simps\<close> evaluates the state monad), shared lemmas.
  \<^item> \<^verbatim>\<open>Go_Strings\<close>, \<^verbatim>\<open>Go_Url\<close>, \<^verbatim>\<open>Go_Json\<close>, \<^verbatim>\<open>Go_Json_Reader\<close>, \<^verbatim>\<open>Go_Json_Indent\<close>, \<^verbatim>\<open>Go_Process\<close>: what the
    program uses of Go's standard library, as functions on byte strings.
  \<^item> \<^verbatim>\<open>Api_Types\<close>: the structs of \<^verbatim>\<open>api/v1\<close> as records, field by field. \<^verbatim>\<open>Deep_Copy\<close>: the generated copy
    functions (\<^verbatim>\<open>zz_generated.deepcopy.go\<close>) over an explicit memory.
  \<^item> \<^verbatim>\<open>Krakend_Parser\<close>, \<^verbatim>\<open>Krakend_Decoder\<close>: \<^verbatim>\<open>internal/krakend/parser.go\<close>, conversion, encoding, decoding.
  \<^item> \<^verbatim>\<open>Netpol\<close>: \<^verbatim>\<open>internal/netpol/netpol.go\<close>. \<^verbatim>\<open>Sample_Resources\<close>: resources for evaluations.
  \<^item> \<^verbatim>\<open>Kube_Client\<close>: the calls of the Kubernetes client, a record of state transformers over an arbitrary
    state. Every component takes the client as an argument, so its statements hold for every cluster
    behaviour: other writers, stale caches, failures at any call.
  \<^item> \<^verbatim>\<open>Webhook\<close>: \<^verbatim>\<open>internal/webhook/apiendpoints_webhook.go\<close>. \<^verbatim>\<open>Admission\<close>: a namespace with any number of
    Krakends as a state machine whose steps are admitted writes of resources and arbitrary writes of
    Krakends, with its reachable states.
  \<^item> \<^verbatim>\<open>ApiEndpoints_Controller\<close>: \<^verbatim>\<open>internal/controller/apiendpoints_controller.go\<close>. \<^verbatim>\<open>Controller_Traces\<close>: the
    writes of a run as a trace of events, with a calculus (\<open>emits\<close>) to reason about traces.
    \<^verbatim>\<open>Store_Laws\<close>: the laws of the API server as a locale. \<^verbatim>\<open>Controller_Store\<close>: what every operation
    achieves under these laws. \<^verbatim>\<open>Mem_Cluster\<close>: an executable cluster that satisfies them.
    \<^verbatim>\<open>Sync_Properties\<close>: the properties.
  \<^item> \<^verbatim>\<open>Helm\<close>: \<^verbatim>\<open>internal/helm/helm.go\<close>, with panics as values. \<^verbatim>\<open>Krakend_Values\<close>, \<^verbatim>\<open>Krakend_Controller\<close>:
    \<^verbatim>\<open>internal/controller/krakend_controller.go\<close>. \<^verbatim>\<open>Krakend_Traces\<close>, \<^verbatim>\<open>Krakend_Properties\<close>: its writes.
  \<^item> \<^verbatim>\<open>Migration\<close>, \<^verbatim>\<open>Migration_Properties\<close>: \<^verbatim>\<open>pkg/migration\<close> with its packages \<^verbatim>\<open>parse\<close> and \<^verbatim>\<open>kubernetes\<close>.
  \<^item> \<^verbatim>\<open>Manager\<close>: \<^verbatim>\<open>cmd/main.go\<close>. \<^verbatim>\<open>Samples\<close>: \<^verbatim>\<open>cmd/samples/main.go\<close>.

  Functions keep the names of the source. A loop is a recursive function named after its function with
  the ending \<^verbatim>\<open>_loop\<close>; a block of a long function is a definition of its own. Record fields carry the
  initials of their struct. A pointer is an option, a slice a list, a map a partial function or, where it
  is printed or iterated, a list of entries; slices and maps of the Krakend specification whose nil would
  be written as null are options of these; times are nanoseconds, durations words of 64 bits.

  \<^bold>\<open>What the lemmas show.\<close>

  \<^item> Conversion: published routes are those declared, secured ones carry the validator of the right
    provider and no other, the only error is an unknown provider, and the text can be read back.
  \<^item> Admission: the map-based path check is the absence of duplicates; the in-place loop over the list
    computes the list after the write; every reachable namespace has unique paths and can be published
    for every Krakend, unless a resource names another instance or a provider was taken from this one;
    two concurrent admissions lose the uniqueness exactly when they claim a common path.
  \<^item> ApiEndpoints controller: on a lawful store a run without error publishes exactly the live resources
    (a refinement of the abstract conversion), completes or releases the resource, and settles; on any
    client a status or a release follows only a successful publication.
  \<^item> Krakend controller: the published partials are never overwritten, the whole chart is applied or an
    event tells of a failure, the status is last; what failed is nevertheless recorded as done.
  \<^item> Webhook and controller together (this theory): a resource of one instance can stop another one.
  \<^item> Helm: merging of values against lookup of paths, what rendering is given, and when it gives resources.
  \<^item> Migration: the migrated endpoints equal the published ones for owned resources, what is lost for
    others, and what the application may call. Start-up: the order of its steps.
  \<^item> Copies: the copies of cached objects are equal and private, so later writes on one side do not show
    on the other.

  \<^bold>\<open>Interfaces.\<close> The locale \<open>kube_store\<close> states what a client promises (what is read after a write, which
  part of the state a call changes), \<open>finalizer_ops\<close> what the finalizer helpers do, \<open>api_sync\<close> joins both;
  they are interpreted by the executable cluster. \<open>provider_lookup\<close> and \<open>provider_lookups\<close> are the contract
  between the webhook's provider check and the parser's lookup, interpreted by both. \<open>unstructured_lib\<close>
  states the accessors of unstructured objects, interpreted by objects that are field lists.

  \<^bold>\<open>Bounds.\<close> The JSON reader recurses over fuel \<open>2 * length s + 1\<close>, where every larger fuel gives the
  same answer (\<open>json_read_fuel\<close>), and refuses nestings deeper than 10000 as Go
  does. All other definitions recurse on their data and are total.

  \<^bold>\<open>Parameters.\<close> Code outside the repository is an argument of the definitions: the Kubernetes client and
  the clock, the admission decoder, the hash of a specification, the finalizer helpers, the accessors and
  conversions of unstructured objects, the chart loader, the template engine, the YAML parser and
  serializer, the manager library, client-go's configuration, the copy functions of Kubernetes types, the
  library of random values. Where a property relies on one, the documented behaviour is a hypothesis.

  \<^bold>\<open>Not modelled.\<close> Logging and its configuration. The registration of the types with the scheme
  (\<^verbatim>\<open>groupversion_info.go\<close> and the \<^verbatim>\<open>init\<close> functions of \<^verbatim>\<open>api/v1\<close>), of the controllers with the manager
  (\<^verbatim>\<open>SetupWithManager\<close>) and of the webhook with its server, which only hand values to libraries. The
  imports of build tools (\<^verbatim>\<open>tools.go\<close>). The parsing of the operator's flags, which shares a flag set with
  libraries. The Kubernetes types the program only carries along are values in wire form. Aliasing is
  modelled for the copies only; elsewhere records are values, which is adequate because the code works on
  such copies.
\<close>

section \<open>The webhook and the controller together\<close>

text \<open>
  C40. A resource of one instance can stop another. Take a reachable namespace with an instance whose
  configuration can be published, and a resource with free paths whose provider is declared by the
  instance it names but not by the first one. The webhook admits the resource; once it is stored,
  every publication for the first instance that lists the stored resources fails for the missing
  provider, before anything is written.
\<close>

theorem foreign_resource_blocks:
  assumes "ns_reachable n" "ns_krakends n kn = Some k" "ToKrakendEndpoints k (live (ns_items n)) = Inr eps"
    and named: "ns_krakends n (krakendName a) = Some k'" "provider_of a \<in> set (provider_names k')"
    and lacks: "provider_of a \<notin> set (provider_names k)"
    and a: "ae_Namespace a = ns_name n" "\<not> ae_deleted a"
      "distinct (live_paths (filter (\<lambda>c. ae_Name c \<noteq> ae_Name a) (ns_items n) @ [a]))"
    and lists: "run_state (List_ApiEndpoints c (kr_Namespace k)) s = (Inr \<lparr>ael_Items = ns_items (store n a)\<rparr>, s1)"
  shows "admits n a \<and>
    run_state (publish_partials c k cm) s =
      (Some (WrapV ''convert ApiEndpoints to Krakend endpoints'' (provider_missing (provider_of a))), s1)"
proof -
  from assms(1) have inv: "ns_inv n" by (rule ns_reachable_inv)
  then have "admits n a" using named a by (simp add: ns_inv_def admits_iff providers_at_def replaced_items_unique)
  moreover have "ToKrakendEndpoints k (live (ns_items (store n a))) = Inl (provider_missing (provider_of a))"
    using stored_offender[OF assms(3) lacks a(2)] by simp
  ultimately show ?thesis
    using lists by (simp add: publish_partials_def partials_text_def live_def run_simps)
qed

theorem foreign_resource_blocks_witness:
  "admits two_instances idporten_resource \<and>
   run_state (publish_partials (snapshot (store two_instances idporten_resource)) sample_krakend sample_cm) () =
     (Some (WrapV ''convert ApiEndpoints to Krakend endpoints'' (provider_missing ''idporten'')), ())"
proof -
  obtain eps where "ToKrakendEndpoints sample_krakend (live (ns_items two_instances)) = Inr eps"
    by (auto simp: ToKrakendEndpoints_Inr two_instances_facts provider_names_def sample_defs)
  from foreign_resource_blocks[OF two_instances_reachable two_instances_facts(1) this, of idporten_resource other_krakend
      "snapshot (store two_instances idporten_resource)" "()" "()" sample_cm]
  show ?thesis
    by (simp add: two_instances_facts idporten_facts other_krakend_facts snapshot_lists)
qed

end
